theory Spec2Isabelle
  imports Main
begin

section \<open>JavaScript values and errors\<close>

text \<open>
  Every exception class the token engine throws is a constructor of \<open>js_error\<close>; a
  function that can throw returns \<open>js_error + 'a\<close> with \<open>Inl\<close> for the exception.
  Strings are byte strings.

  A JavaScript number is an IEEE 754 double. The model has the integers among them, as
  \<open>int\<close> (the spec's time fields are integer seconds), and computes on them exactly. The
  code does the same as long as every operand and result is an integer of magnitude at most
  \<open>2^53\<close>: up to there every integer is a double, \<open>parseInt\<close>, \<open>+\<close>, \<open>-\<close> and \<open>*\<close> are
  exact, \<open>Math.floor(a / b)\<close> is the integer quotient and \<open>String(n)\<close> is the decimal
  numeral. Beyond \<open>2^53\<close> the code rounds (\<open>parseInt("9007199254740993")\<close> is
  \<open>9007199254740992\<close>, and \<open>n - 1\<close> is \<open>n\<close> from \<open>2^54\<close> on) and from \<open>10^21\<close> on it
  prints numbers in exponent form; the model does not follow it there. \<open>exact_int\<close> is
  the range in which model and code agree, and a theorem whose statement depends on the
  value of a number carries it as a hypothesis.

  A \<open>Date\<close> is its time value in milliseconds since the epoch, for at most
  \<open>8.64 * 10^15\<close> milliseconds either side of it; \<open>new Date(ms)\<close> outside that range is
  the Invalid Date, \<open>None\<close>. \<open>date_seconds\<close> are the numbers of seconds that a \<open>Date\<close>
  can hold; sums and differences of two of them, and a thousand times one, are well inside
  the exact range.
\<close>

definition exact_int :: "int \<Rightarrow> bool" where
  "exact_int n = (\<bar>n\<bar> \<le> 9007199254740992)"

type_synonym js_date = "int option"

definition new_Date :: "int \<Rightarrow> js_date" where
  "new_Date ms = (if \<bar>ms\<bar> \<le> 8640000000000000 then Some ms else None)"

definition date_seconds :: "int \<Rightarrow> bool" where
  "date_seconds t = (\<bar>t\<bar> \<le> 8640000000000)"

datatype js_error =
    JsonWebTokenError string
  | TokenExpiredError string js_date
  | NotBeforeError string js_date
  | TypeError string
  | PlainError string

text \<open>A \<open>number | string\<close> argument, as \<open>expiresIn\<close>, \<open>notBefore\<close> and \<open>maxAge\<close> are.\<close>

datatype num_or_str = Num int | Str string

section \<open>Codec: decimal digits and timespans\<close>

definition is_digit :: "char \<Rightarrow> bool" where
  "is_digit c = (c \<in> set ''0123456789'')"

definition digit_val :: "char \<Rightarrow> nat" where
  "digit_val c = of_char c - 48"

text \<open>\<open>parseInt(s, 10)\<close> on a string of decimal digits: their decimal value, which is
  what the code returns while that value is at most \<open>2^53\<close> (beyond, \<open>parseInt\<close> returns
  the nearest double).\<close>

definition parseInt10 :: "string \<Rightarrow> nat" where
  "parseInt10 s = foldl (\<lambda>acc c. acc * 10 + digit_val c) 0 s"

text \<open>\<open>String(n)\<close> of a non-negative integer, and of any integer.\<close>

fun show_nat :: "nat \<Rightarrow> string" where
  "show_nat n =
     (if n < 10 then [''0123456789'' ! n]
      else show_nat (n div 10) @ [''0123456789'' ! (n mod 10)])"

definition show_int :: "int \<Rightarrow> string" where
  "show_int i = (if i < 0 then CHR ''-'' # show_nat (nat (- i)) else show_nat (nat i))"

text \<open>The regular expression \<open>/^\d+$/\<close>: one or more digits and nothing else.\<close>

definition re_digits :: "string \<Rightarrow> bool" where
  "re_digits s = (s \<noteq> [] \<and> list_all is_digit s)"

text \<open>
  The regular expression \<open>/^(\d+)([smhd])$/\<close>: the two groups of a match, or \<open>None\<close>.
\<close>

definition re_amount_unit :: "string \<Rightarrow> (string \<times> char) option" where
  "re_amount_unit s =
     (case rev s of
        [] \<Rightarrow> None
      | u # rds \<Rightarrow>
          if u \<in> set ''smhd'' \<and> rds \<noteq> [] \<and> list_all is_digit (rev rds)
          then Some (rev rds, u) else None)"

text \<open>The products \<open>amount * 60\<close>, \<open>amount * 60 * 60\<close> and \<open>amount * 60 * 60 * 24\<close> are
  those of the code while they are at most \<open>2^53\<close>.\<close>

fun parseTimespan :: "num_or_str \<Rightarrow> js_error + int" where
  "parseTimespan (Num n) = Inr n"
| "parseTimespan (Str s) =
     (if re_digits s then Inr (int (parseInt10 s))
      else
        (case re_amount_unit s of
           None \<Rightarrow> Inl (TypeError (''Invalid timespan format: '' @ s))
         | Some (ds, unit) \<Rightarrow>
             (let amount = int (parseInt10 ds) in
              if unit = CHR ''s'' then Inr amount
              else if unit = CHR ''m'' then Inr (amount * 60)
              else if unit = CHR ''h'' then Inr (amount * 60 * 60)
              else if unit = CHR ''d'' then Inr (amount * 60 * 60 * 24)
              else Inl (TypeError (''Unsupported timespan unit: '' @ [unit])))))"

section \<open>Codec: base64url\<close>

text \<open>
  A \<open>Buffer\<close> is a list of bytes; \<open>char\<close> is the byte type, \<open>of_char\<close> its value in
  \<open>0..255\<close>. A JavaScript string is its UTF-8 byte sequence, so \<open>Buffer.from(s, "utf8")\<close>
  and \<open>buf.toString("utf8")\<close> are the identity.

  \<open>toString_base64\<close> is \<open>buf.toString("base64")\<close> (RFC 4648 with padding).
  \<open>from_base64\<close> is Node's \<open>Buffer.from(s, "base64")\<close>: it never throws; it stops at the
  first \<open>=\<close>, skips every character outside the alphabet (accepting both the standard
  and the URL-safe one), and decodes the remaining 6-bit groups, a trailing group of two
  or three characters giving one or two bytes. \<open>b64_char\<close> is the alphabet
  \<open>A\<close>..\<open>Z\<close>, \<open>a\<close>..\<open>z\<close>, \<open>0\<close>..\<open>9\<close>, \<open>+\<close>, \<open>/\<close> by character code, and
  \<open>base64url_alphabet\<close> is the URL-safe alphabet of RFC 4648, which has \<open>-\<close> and \<open>_\<close>
  in place of \<open>+\<close> and \<open>/\<close>.
\<close>

definition base64url_alphabet :: string where
  "base64url_alphabet = ''ABCDEFGHIJKLMNOPQRSTUVWXYZabcdefghijklmnopqrstuvwxyz0123456789-_''"

definition b64_char :: "nat \<Rightarrow> char" where
  "b64_char n =
     (if n < 26 then char_of (n + 65)
      else if n < 52 then char_of (n + 71)
      else if n < 62 then char_of (n - 4)
      else if n = 62 then CHR ''+'' else CHR ''/'')"

definition unbase64 :: "char \<Rightarrow> nat option" where
  "unbase64 c =
     (let v = (of_char c :: nat) in
      if 65 \<le> v \<and> v \<le> 90 then Some (v - 65)
      else if 97 \<le> v \<and> v \<le> 122 then Some (v - 71)
      else if 48 \<le> v \<and> v \<le> 57 then Some (v + 4)
      else if c = CHR ''+'' \<or> c = CHR ''-'' then Some 62
      else if c = CHR ''/'' \<or> c = CHR ''_'' then Some 63
      else None)"

text \<open>The 6-bit groups of a buffer: three bytes give four, a last single byte two and a
  last pair of bytes three.\<close>

fun sextets :: "string \<Rightarrow> nat list" where
  "sextets [] = []"
| "sextets [a] = [of_char a div 4, (of_char a mod 4) * 16]"
| "sextets [a, b] =
     [of_char a div 4, (of_char a mod 4) * 16 + of_char b div 16, (of_char b mod 16) * 4]"
| "sextets (a # b # c # rest) =
     [of_char a div 4,
      (of_char a mod 4) * 16 + of_char b div 16,
      (of_char b mod 16) * 4 + of_char c div 64,
      of_char c mod 64] @ sextets rest"

definition toString_base64 :: "string \<Rightarrow> string" where
  "toString_base64 buf =
     map b64_char (sextets buf) @ replicate ((3 - length buf mod 3) mod 3) CHR ''=''"

fun decode_sextets :: "nat list \<Rightarrow> string" where
  "decode_sextets (s1 # s2 # s3 # s4 # rest) =
     [char_of (s1 * 4 + s2 div 16), char_of ((s2 mod 16) * 16 + s3 div 4),
      char_of ((s3 mod 4) * 64 + s4)] @ decode_sextets rest"
| "decode_sextets [s1, s2, s3] =
     [char_of (s1 * 4 + s2 div 16), char_of ((s2 mod 16) * 16 + s3 div 4)]"
| "decode_sextets [s1, s2] = [char_of (s1 * 4 + s2 div 16)]"
| "decode_sextets _ = []"

definition from_base64 :: "string \<Rightarrow> string" where
  "from_base64 s =
     decode_sextets (List.map_filter unbase64 (takeWhile (\<lambda>c. c \<noteq> CHR ''='') s))"

text \<open>\<open>s.replace(/x/g, "y")\<close> for single characters, and \<open>s.replace(/x/g, "")\<close>.\<close>

definition replace_char :: "char \<Rightarrow> char \<Rightarrow> string \<Rightarrow> string" where
  "replace_char x y s = map (\<lambda>c. if c = x then y else c) s"

definition remove_char :: "char \<Rightarrow> string \<Rightarrow> string" where
  "remove_char x s = filter (\<lambda>c. c \<noteq> x) s"

definition base64urlEncode :: "string \<Rightarrow> string" where
  "base64urlEncode buffer =
     replace_char CHR ''/'' CHR ''_''
       (replace_char CHR ''+'' CHR ''-'' (remove_char CHR ''='' (toString_base64 buffer)))"

definition base64urlDecode :: "string \<Rightarrow> string" where
  "base64urlDecode str =
     (let base64 = replace_char CHR ''_'' CHR ''/'' (replace_char CHR ''-'' CHR ''+'' str);
          pad = 4 - (length base64 mod 4)
      in from_base64 (if pad \<noteq> 4 then base64 @ replicate pad CHR ''='' else base64))"

text \<open>\<open>buf.toString("hex")\<close> and \<open>Buffer.from(s, "hex")\<close>, which stops at the first pair
  that is not two hexadecimal digits.\<close>

definition hex_digit :: "nat \<Rightarrow> char" where
  "hex_digit n = (if n < 10 then char_of (n + 48) else char_of (n + 87))"

definition unhex :: "char \<Rightarrow> nat option" where
  "unhex c =
     (let v = (of_char c :: nat) in
      if 48 \<le> v \<and> v \<le> 57 then Some (v - 48)
      else if 97 \<le> v \<and> v \<le> 102 then Some (v - 87)
      else if 65 \<le> v \<and> v \<le> 70 then Some (v - 55)
      else None)"

fun toString_hex :: "string \<Rightarrow> string" where
  "toString_hex [] = []"
| "toString_hex (b # bs) =
     hex_digit (of_char b div 16) # hex_digit (of_char b mod 16) # toString_hex bs"

fun from_hex :: "string \<Rightarrow> string" where
  "from_hex (a # b # rest) =
     (case (unhex a, unhex b) of
        (Some x, Some y) \<Rightarrow> char_of (x * 16 + y) # from_hex rest
      | _ \<Rightarrow> [])"
| "from_hex _ = []"

section \<open>JSON values and JavaScript objects\<close>

text \<open>
  A JSON value as \<open>JSON.parse\<close> returns it. An object is the list of its own properties
  in insertion order; \<open>obj_set\<close> is the assignment \<open>o[k] = v\<close> (an existing key keeps
  its place, a new one goes last) and \<open>obj_assign\<close> is \<open>Object.assign\<close>.
\<close>

datatype json =
    JNull
  | JBool bool
  | JNum int
  | JStr string
  | JArr "json list"
  | JObj "(string \<times> json) list"

type_synonym js_object = "(string \<times> json) list"

fun obj_set :: "js_object \<Rightarrow> string \<Rightarrow> json \<Rightarrow> js_object" where
  "obj_set [] k v = [(k, v)]"
| "obj_set ((k', v') # kvs) k v =
     (if k' = k then (k, v) # kvs else (k', v') # obj_set kvs k v)"

definition obj_assign :: "js_object \<Rightarrow> js_object \<Rightarrow> js_object" where
  "obj_assign target source = foldl (\<lambda>acc kv. obj_set acc (fst kv) (snd kv)) target source"

text \<open>
  The property read \<open>x.k\<close> for the claim names the engine reads (\<open>alg\<close>, \<open>nbf\<close>, \<open>exp\<close>,
  \<open>iat\<close>, \<open>iss\<close>, \<open>sub\<close>, \<open>aud\<close>, \<open>type\<close>, \<open>userId\<close>, \<open>username\<close>; none is a built-in
  property): \<open>None\<close> is \<open>undefined\<close>, and reading a property of \<open>null\<close> throws.
\<close>

fun get_prop :: "json \<Rightarrow> string \<Rightarrow> js_error + json option" where
  "get_prop JNull k =
     Inl (TypeError (''Cannot read properties of null (reading '' @ k @ '')''))"
| "get_prop (JObj kvs) k = Inr (map_of kvs k)"
| "get_prop _ k = Inr None"

fun join_comma :: "string list \<Rightarrow> string" where
  "join_comma [] = []"
| "join_comma [x] = x"
| "join_comma (x # y # ys) = x @ '','' @ join_comma (y # ys)"

text \<open>\<open>String(v)\<close>, which is also how a value becomes a property key.\<close>

fun js_toString :: "json \<Rightarrow> string" where
  "js_toString JNull = ''null''"
| "js_toString (JBool b) = (if b then ''true'' else ''false'')"
| "js_toString (JNum n) = show_int n"
| "js_toString (JStr s) = s"
| "js_toString (JArr xs) =
     join_comma (map (\<lambda>x. if x = JNull then [] else js_toString x) xs)"
| "js_toString (JObj kvs) = ''[object Object]''"

definition to_string_or_undefined :: "json option \<Rightarrow> string" where
  "to_string_or_undefined v = (case v of None \<Rightarrow> ''undefined'' | Some x \<Rightarrow> js_toString x)"

text \<open>\<open>xs.includes(v)\<close> for an array of strings: only an equal string is included.\<close>

definition includes_str :: "string list \<Rightarrow> json option \<Rightarrow> bool" where
  "includes_str xs v = (case v of Some (JStr s) \<Rightarrow> s \<in> set xs | _ \<Rightarrow> False)"

text \<open>\<open>s.split(c)\<close> for a one-character separator: always at least one part.\<close>

fun split_on :: "char \<Rightarrow> string \<Rightarrow> string list" where
  "split_on c [] = [[]]"
| "split_on c (x # xs) =
     (if x = c then [] # split_on c xs
      else (case split_on c xs of
              [] \<Rightarrow> [[x]]
            | p # ps \<Rightarrow> (x # p) # ps))"

text \<open>A \<open>string | string[]\<close> option, as \<open>issuer\<close> and \<open>audience\<close> are.\<close>

datatype str_or_strs = One string | Many "string list"

fun as_list :: "str_or_strs \<Rightarrow> string list" where
  "as_list (One s) = [s]"
| "as_list (Many xs) = xs"

fun to_json :: "str_or_strs \<Rightarrow> json" where
  "to_json (One s) = JStr s"
| "to_json (Many xs) = JArr (map JStr xs)"

text \<open>Truthiness of an optional value: a missing one, the empty string and \<open>0\<close> are falsy;
  every array is truthy.\<close>

definition truthy_str :: "string option \<Rightarrow> bool" where
  "truthy_str v = (case v of None \<Rightarrow> False | Some s \<Rightarrow> s \<noteq> [])"

definition truthy_num_or_str :: "num_or_str option \<Rightarrow> bool" where
  "truthy_num_or_str v =
     (case v of None \<Rightarrow> False | Some (Num n) \<Rightarrow> n \<noteq> 0 | Some (Str s) \<Rightarrow> s \<noteq> [])"

definition truthy_str_or_strs :: "str_or_strs option \<Rightarrow> bool" where
  "truthy_str_or_strs v =
     (case v of None \<Rightarrow> False | Some (One s) \<Rightarrow> s \<noteq> [] | Some (Many xs) \<Rightarrow> True)"

section \<open>The platform\<close>

text \<open>
  What the engine calls in Node and does not define: the keyed digest
  \<open>crypto.createHmac(alg, secret).update(input).digest()\<close>, \<open>JSON.stringify\<close>,
  \<open>JSON.parse\<close> (\<open>Inl\<close> is the message of its \<open>SyntaxError\<close>),
  \<open>crypto.createHash("sha256").update(s).digest("hex")\<close> and
  \<open>crypto.scrypt(password, salt, keylen)\<close> (\<open>Inl\<close> is the error its callback gets).
  They are parameters of the model: a theorem with a free platform holds for every one.
\<close>

record platform =
  hmac_digest :: "string \<Rightarrow> string \<Rightarrow> string \<Rightarrow> string"
  JSON_stringify :: "json \<Rightarrow> string"
  JSON_parse :: "string \<Rightarrow> string + json"
  sha256_hex :: "string \<Rightarrow> string"
  scrypt :: "string \<Rightarrow> string \<Rightarrow> nat \<Rightarrow> js_error + string"

section \<open>Signature engine\<close>

text \<open>
  \<open>SUPPORTED_ALGS\<close> is an object literal, so \<open>k in SUPPORTED_ALGS\<close> and the truthiness
  of \<open>SUPPORTED_ALGS[k]\<close> also hold for the property names it inherits from
  \<open>Object.prototype\<close>; an inherited value is not a digest name and \<open>crypto.createHmac\<close>
  throws a \<open>TypeError\<close> on it.
\<close>

definition SUPPORTED_ALGS :: "(string \<times> string) list" where
  "SUPPORTED_ALGS = [(''HS256'', ''sha256''), (''HS384'', ''sha384''), (''HS512'', ''sha512'')]"

definition Object_prototype_keys :: "string list" where
  "Object_prototype_keys =
     [''constructor'', ''__defineGetter__'', ''__defineSetter__'', ''hasOwnProperty'',
      ''__lookupGetter__'', ''__lookupSetter__'', ''isPrototypeOf'',
      ''propertyIsEnumerable'', ''toString'', ''valueOf'', ''__proto__'',
      ''toLocaleString'']"

definition in_SUPPORTED_ALGS :: "string \<Rightarrow> bool" where
  "in_SUPPORTED_ALGS k = (map_of SUPPORTED_ALGS k \<noteq> None \<or> k \<in> set Object_prototype_keys)"

definition createSignature :: "platform \<Rightarrow> json option \<Rightarrow> string \<Rightarrow> string \<Rightarrow> js_error + string" where
  "createSignature P alg secret signingInput =
     (let k = to_string_or_undefined alg in
      case map_of SUPPORTED_ALGS k of
        Some nodeAlg \<Rightarrow> Inr (base64urlEncode (hmac_digest P nodeAlg secret signingInput))
      | None \<Rightarrow>
          if k \<in> set Object_prototype_keys
          then Inl (TypeError ''The hmac argument must be of type string'')
          else Inl (JsonWebTokenError (''Unsupported algorithm: '' @ k)))"

text \<open>\<open>crypto.timingSafeEqual\<close> on two buffers of one length.\<close>

definition timingSafeEqual :: "string \<Rightarrow> string \<Rightarrow> bool" where
  "timingSafeEqual a b = (a = b)"

definition timingSafeEqualStr :: "string \<Rightarrow> string \<Rightarrow> bool" where
  "timingSafeEqualStr a b =
     (if length a \<noteq> length b then False else timingSafeEqual a b)"

section \<open>Token engine\<close>

text \<open>
  \<open>wall\<close> is \<open>Math.floor(Date.now() / 1000)\<close>, read when an option gives no
  \<open>clockTimestamp\<close>. The fields of \<open>sign_options\<close> that share a name with a field of
  \<open>verify_options\<close> carry the prefix \<open>sign_\<close>.
\<close>

record sign_options =
  algorithm :: "string option"
  expiresIn :: "num_or_str option"
  notBefore :: "num_or_str option"
  sign_issuer :: "string option"
  sign_subject :: "string option"
  sign_audience :: "str_or_strs option"
  jwtid :: "string option"
  noTimestamp :: bool
  header :: "js_object option"
  keyid :: "string option"
  sign_clockTimestamp :: "int option"

record verify_options =
  algorithms :: "string list option"
  issuer :: "str_or_strs option"
  subject :: "string option"
  audience :: "str_or_strs option"
  clockTimestamp :: "int option"
  clockTolerance :: "int option"
  maxAge :: "num_or_str option"

text \<open>\<open>if (v) o[k] = v\<close> for an optional string \<open>v\<close>.\<close>

definition set_if_str :: "string option \<Rightarrow> string \<Rightarrow> js_object \<Rightarrow> js_object" where
  "set_if_str v k obj =
     (case v of None \<Rightarrow> obj | Some s \<Rightarrow> if s \<noteq> [] then obj_set obj k (JStr s) else obj)"

text \<open>\<open>if (span) o[k] = now + parseTimespan(span)\<close>.\<close>

definition set_time_claim :: "int \<Rightarrow> num_or_str option \<Rightarrow> string \<Rightarrow> js_object \<Rightarrow> js_error + js_object" where
  "set_time_claim now span k obj =
     (case span of
        None \<Rightarrow> Inr obj
      | Some v \<Rightarrow>
          if truthy_num_or_str (Some v)
          then (case parseTimespan v of
                  Inl e \<Rightarrow> Inl e
                | Inr d \<Rightarrow> Inr (obj_set obj k (JNum (now + d))))
          else Inr obj)"

definition buildPayload :: "int \<Rightarrow> js_object \<Rightarrow> sign_options \<Rightarrow> js_error + js_object" where
  "buildPayload wall payload options =
     (let now = (case sign_clockTimestamp options of Some t \<Rightarrow> t | None \<Rightarrow> wall);
          p1 = set_if_str (sign_issuer options) ''iss'' payload;
          p2 = set_if_str (sign_subject options) ''sub'' p1;
          p3 = (if truthy_str_or_strs (sign_audience options)
                then (case sign_audience options of
                        Some a \<Rightarrow> obj_set p2 ''aud'' (to_json a) | None \<Rightarrow> p2)
                else p2);
          p4 = set_if_str (jwtid options) ''jti'' p3;
          p5 = (if \<not> noTimestamp options \<and> map_of p4 ''iat'' = None
                then obj_set p4 ''iat'' (JNum now) else p4)
      in case set_time_claim now (expiresIn options) ''exp'' p5 of
           Inl e \<Rightarrow> Inl e
         | Inr p6 \<Rightarrow> set_time_claim now (notBefore options) ''nbf'' p6)"

definition buildHeader :: "string \<Rightarrow> sign_options \<Rightarrow> js_object" where
  "buildHeader alg options =
     set_if_str (keyid options) ''kid''
       (obj_assign [(''alg'', JStr alg), (''typ'', JStr ''JWT'')]
          (case header options of Some h \<Rightarrow> h | None \<Rightarrow> []))"

text \<open>\<open>options.algorithm || "HS256"\<close>.\<close>

definition algorithm_or_default :: "sign_options \<Rightarrow> string" where
  "algorithm_or_default options =
     (case algorithm options of
        Some a \<Rightarrow> if a \<noteq> [] then a else ''HS256''
      | None \<Rightarrow> ''HS256'')"

definition sign :: "platform \<Rightarrow> int \<Rightarrow> js_object \<Rightarrow> string \<Rightarrow> sign_options \<Rightarrow> js_error + string" where
  "sign P wall payload secret options =
     (if secret = [] then Inl (JsonWebTokenError ''Secret is required for HMAC signing'')
      else
        (let alg = algorithm_or_default options
         in if \<not> in_SUPPORTED_ALGS alg
            then Inl (JsonWebTokenError (''Unsupported algorithm: '' @ alg))
            else
              (case buildPayload wall payload options of
                 Inl e \<Rightarrow> Inl e
               | Inr payloadCopy \<Rightarrow>
                   (let encHeader = base64urlEncode (JSON_stringify P (JObj (buildHeader alg options)));
                        encPayload = base64urlEncode (JSON_stringify P (JObj payloadCopy));
                        signingInput = encHeader @ ''.'' @ encPayload
                    in case createSignature P (Some (JStr alg)) secret signingInput of
                         Inl e \<Rightarrow> Inl e
                       | Inr sg \<Rightarrow> Inr (signingInput @ ''.'' @ sg)))))"

record parsed_jwt =
  encodedHeader :: string
  encodedPayload :: string
  signature :: string
  jwt_header :: json
  jwt_payload :: json

definition safeJsonParse :: "platform \<Rightarrow> string \<Rightarrow> js_error + json" where
  "safeJsonParse P str =
     (case JSON_parse P str of
        Inl msg \<Rightarrow> Inl (JsonWebTokenError (''Invalid JSON in token: '' @ msg))
      | Inr v \<Rightarrow> Inr v)"

definition parseJwtToken :: "platform \<Rightarrow> string \<Rightarrow> js_error + parsed_jwt" where
  "parseJwtToken P token =
     (case split_on CHR ''.'' token of
        [eh, ep, sg] \<Rightarrow>
          (case safeJsonParse P (base64urlDecode eh) of
             Inl e \<Rightarrow> Inl e
           | Inr h \<Rightarrow>
               (case safeJsonParse P (base64urlDecode ep) of
                  Inl e \<Rightarrow> Inl e
                | Inr p \<Rightarrow>
                    Inr \<lparr>encodedHeader = eh, encodedPayload = ep, signature = sg,
                         jwt_header = h, jwt_payload = p\<rparr>))
      | _ \<Rightarrow> Inl (JsonWebTokenError ''JWT malformed''))"

text \<open>The three blocks of \<open>validateTimeClaims\<close>, in the order the function runs them.
  The sums, differences and comparisons are those of the code while the clock, the
  tolerance and the claims are in the range of \<open>exact_int\<close>; the date of an error is
  \<open>new Date(seconds * 1000)\<close>.\<close>

definition check_nbf :: "json \<Rightarrow> int \<Rightarrow> int \<Rightarrow> js_error + unit" where
  "check_nbf payload now tolerance =
     (case get_prop payload ''nbf'' of
        Inl e \<Rightarrow> Inl e
      | Inr None \<Rightarrow> Inr ()
      | Inr (Some (JNum nbf)) \<Rightarrow>
          if now + tolerance < nbf
          then Inl (NotBeforeError ''jwt not active'' (new_Date (nbf * 1000))) else Inr ()
      | Inr (Some _) \<Rightarrow> Inl (JsonWebTokenError ''Invalid nbf''))"

definition check_exp :: "json \<Rightarrow> int \<Rightarrow> int \<Rightarrow> js_error + unit" where
  "check_exp payload now tolerance =
     (case get_prop payload ''exp'' of
        Inl e \<Rightarrow> Inl e
      | Inr None \<Rightarrow> Inr ()
      | Inr (Some (JNum exp)) \<Rightarrow>
          if now - tolerance \<ge> exp
          then Inl (TokenExpiredError ''jwt expired'' (new_Date (exp * 1000))) else Inr ()
      | Inr (Some _) \<Rightarrow> Inl (JsonWebTokenError ''Invalid exp''))"

definition check_maxAge :: "json \<Rightarrow> num_or_str option \<Rightarrow> int \<Rightarrow> int \<Rightarrow> js_error + unit" where
  "check_maxAge payload max_age now tolerance =
     (case max_age of
        None \<Rightarrow> Inr ()
      | Some m \<Rightarrow>
          if \<not> truthy_num_or_str (Some m) then Inr ()
          else
            (case get_prop payload ''iat'' of
               Inl e \<Rightarrow> Inl e
             | Inr (Some (JNum iat)) \<Rightarrow>
                 (case parseTimespan m of
                    Inl e \<Rightarrow> Inl e
                  | Inr maxAgeSeconds \<Rightarrow>
                      if now - iat > maxAgeSeconds + tolerance
                      then Inl (TokenExpiredError ''maxAge exceeded'' (new_Date ((iat + maxAgeSeconds) * 1000)))
                      else Inr ())
             | Inr _ \<Rightarrow> Inl (JsonWebTokenError ''iat required when using maxAge'')))"

definition validateTimeClaims :: "int \<Rightarrow> json \<Rightarrow> verify_options \<Rightarrow> js_error + unit" where
  "validateTimeClaims wall payload options =
     (let now = (case clockTimestamp options of Some t \<Rightarrow> t | None \<Rightarrow> wall);
          tolerance = (case clockTolerance options of Some t \<Rightarrow> t | None \<Rightarrow> 0)
      in case check_nbf payload now tolerance of
           Inl e \<Rightarrow> Inl e
         | Inr _ \<Rightarrow>
             (case check_exp payload now tolerance of
                Inl e \<Rightarrow> Inl e
              | Inr _ \<Rightarrow> check_maxAge payload (maxAge options) now tolerance))"

definition check_issuer :: "json \<Rightarrow> str_or_strs option \<Rightarrow> js_error + unit" where
  "check_issuer payload iss =
     (case iss of
        None \<Rightarrow> Inr ()
      | Some i \<Rightarrow>
          if \<not> truthy_str_or_strs (Some i) then Inr ()
          else
            (case get_prop payload ''iss'' of
               Inl e \<Rightarrow> Inl e
             | Inr v \<Rightarrow>
                 if \<not> includes_str (as_list i) v
                 then Inl (JsonWebTokenError ''invalid issuer'') else Inr ()))"

definition check_subject :: "json \<Rightarrow> string option \<Rightarrow> js_error + unit" where
  "check_subject payload sub =
     (case sub of
        None \<Rightarrow> Inr ()
      | Some s \<Rightarrow>
          if s = [] then Inr ()
          else
            (case get_prop payload ''sub'' of
               Inl e \<Rightarrow> Inl e
             | Inr v \<Rightarrow>
                 if v \<noteq> Some (JStr s)
                 then Inl (JsonWebTokenError ''invalid subject'') else Inr ()))"

definition check_audience :: "json \<Rightarrow> str_or_strs option \<Rightarrow> js_error + unit" where
  "check_audience payload aud =
     (case aud of
        None \<Rightarrow> Inr ()
      | Some audOption \<Rightarrow>
          if \<not> truthy_str_or_strs (Some audOption) then Inr ()
          else
            (case get_prop payload ''aud'' of
               Inl e \<Rightarrow> Inl e
             | Inr v \<Rightarrow>
                 (let target = (case v of Some (JArr xs) \<Rightarrow> map Some xs | _ \<Rightarrow> [v]);
                      validAudiences = as_list audOption
                  in if \<not> list_ex (includes_str validAudiences) target
                     then Inl (JsonWebTokenError ''invalid audience'') else Inr ())))"

definition validateStandardClaims :: "json \<Rightarrow> verify_options \<Rightarrow> js_error + unit" where
  "validateStandardClaims payload options =
     (case check_issuer payload (issuer options) of
        Inl e \<Rightarrow> Inl e
      | Inr _ \<Rightarrow>
          (case check_subject payload (subject options) of
             Inl e \<Rightarrow> Inl e
           | Inr _ \<Rightarrow> check_audience payload (audience options)))"

definition verify :: "platform \<Rightarrow> int \<Rightarrow> string \<Rightarrow> string \<Rightarrow> verify_options \<Rightarrow> js_error + json" where
  "verify P wall token secret options =
     (if secret = [] then Inl (JsonWebTokenError ''Secret is required for HMAC verification'')
      else
        (case parseJwtToken P token of
           Inl e \<Rightarrow> Inl e
         | Inr t \<Rightarrow>
             (case get_prop (jwt_header t) ''alg'' of
                Inl e \<Rightarrow> Inl e
              | Inr alg \<Rightarrow>
                  if \<not> in_SUPPORTED_ALGS (to_string_or_undefined alg)
                  then Inl (JsonWebTokenError (''Unsupported algorithm: '' @ to_string_or_undefined alg))
                  else if (case algorithms options of
                             Some allowed \<Rightarrow> \<not> includes_str allowed alg
                           | None \<Rightarrow> False)
                  then Inl (JsonWebTokenError (''Invalid algorithm: '' @ to_string_or_undefined alg))
                  else
                    (case createSignature P alg secret (encodedHeader t @ ''.'' @ encodedPayload t) of
                       Inl e \<Rightarrow> Inl e
                     | Inr expectedSig \<Rightarrow>
                         if \<not> timingSafeEqualStr expectedSig (signature t)
                         then Inl (JsonWebTokenError ''Invalid signature'')
                         else
                           (case validateTimeClaims wall (jwt_payload t) options of
                              Inl e \<Rightarrow> Inl e
                            | Inr _ \<Rightarrow>
                                (case validateStandardClaims (jwt_payload t) options of
                                   Inl e \<Rightarrow> Inl e
                                 | Inr _ \<Rightarrow> Inr (jwt_payload t)))))))"

text \<open>
  A correctly signed token: \<open>verify\<close> gets past the secret, the structure, the
  algorithm and the signature, that is, as far as the claim checks, \<open>t\<close> being the
  parsed token.
\<close>

definition correctly_signed :: "platform \<Rightarrow> string \<Rightarrow> string \<Rightarrow> verify_options \<Rightarrow> parsed_jwt \<Rightarrow> bool" where
  "correctly_signed P token secret options t =
     (secret \<noteq> [] \<and> parseJwtToken P token = Inr t \<and>
      (case get_prop (jwt_header t) ''alg'' of
         Inl e \<Rightarrow> False
       | Inr alg \<Rightarrow>
           in_SUPPORTED_ALGS (to_string_or_undefined alg) \<and>
           (case algorithms options of Some allowed \<Rightarrow> includes_str allowed alg | None \<Rightarrow> True) \<and>
           (case createSignature P alg secret (encodedHeader t @ ''.'' @ encodedPayload t) of
              Inl e \<Rightarrow> False
            | Inr expectedSig \<Rightarrow> timingSafeEqualStr expectedSig (signature t))))"

section \<open>Credential hasher\<close>

definition SCRYPT_KEYLEN :: nat where
  "SCRYPT_KEYLEN = 64"

text \<open>\<open>randomBytes\<close> are the 16 bytes \<open>crypto.randomBytes(16)\<close> returned; the promise's
  rejection is \<open>Inl\<close>.\<close>

definition hashPassword :: "platform \<Rightarrow> string \<Rightarrow> string \<Rightarrow> js_error + string" where
  "hashPassword P randomBytes password =
     (let salt = toString_hex randomBytes in
      case scrypt P password salt SCRYPT_KEYLEN of
        Inl err \<Rightarrow> Inl err
      | Inr derivedKey \<Rightarrow> Inr (salt @ '':'' @ toString_hex derivedKey))"

definition verifyPassword :: "platform \<Rightarrow> string \<Rightarrow> string \<Rightarrow> js_error + bool" where
  "verifyPassword P password stored =
     (let parts = split_on CHR '':'' stored;
          salt = (case parts of s # _ \<Rightarrow> Some s | _ \<Rightarrow> None);
          hash = (case parts of _ # h # _ \<Rightarrow> Some h | _ \<Rightarrow> None)
      in case (salt, hash) of
           (Some s, Some h) \<Rightarrow>
             if s = [] \<or> h = [] then Inr False
             else
               (case scrypt P password s SCRYPT_KEYLEN of
                  Inl err \<Rightarrow> Inl err
                | Inr derivedKey \<Rightarrow>
                    (let hashBuf = from_hex h in
                     if length hashBuf \<noteq> length derivedKey then Inr False
                     else Inr (timingSafeEqual hashBuf derivedKey)))
         | _ \<Rightarrow> Inr False)"

text \<open>\<open>verifyPassword(password, await hashPassword(password))\<close>.\<close>

definition hash_then_verify :: "platform \<Rightarrow> string \<Rightarrow> string \<Rightarrow> js_error + bool" where
  "hash_then_verify P randomBytes password =
     (case hashPassword P randomBytes password of
        Inl err \<Rightarrow> Inl err
      | Inr stored \<Rightarrow> verifyPassword P password stored)"

section \<open>Dates and the refresh-token table\<close>

text \<open>
  A \<open>Date\<close> is its number of milliseconds since the epoch. \<open>civil_from_days\<close> is the
  proleptic Gregorian date (year, month, day) of a day number counted from 1970-01-01.
  \<open>toISOString\<close> is \<open>Date.prototype.toISOString\<close> and \<open>sqlite_datetime\<close> is what SQLite's
  \<open>datetime('now')\<close> returns at that instant, both for years 0000 to 9999. The server's
  time zone is taken to be UTC, so that \<open>setDate(getDate() + n)\<close> adds \<open>n\<close> days of
  86400 seconds.
\<close>

definition civil_from_days :: "int \<Rightarrow> int \<times> int \<times> int" where
  "civil_from_days days =
     (let z = days + 719468;
          era = z div 146097;
          doe = z - era * 146097;
          yoe = (doe - doe div 1460 + doe div 36524 - doe div 146096) div 365;
          y = yoe + era * 400;
          doy = doe - (365 * yoe + yoe div 4 - yoe div 100);
          mp = (5 * doy + 2) div 153;
          d = doy - (153 * mp + 2) div 5 + 1;
          m = (if mp < 10 then mp + 3 else mp - 9)
      in (if m \<le> 2 then y + 1 else y, m, d))"

definition pad_num :: "nat \<Rightarrow> int \<Rightarrow> string" where
  "pad_num w n = replicate (w - length (show_nat (nat n))) CHR ''0'' @ show_nat (nat n)"

definition toISOString :: "int \<Rightarrow> string" where
  "toISOString ms =
     (case civil_from_days (ms div 86400000) of
        (y, m, d) \<Rightarrow>
          (let r = ms mod 86400000 in
           pad_num 4 y @ ''-'' @ pad_num 2 m @ ''-'' @ pad_num 2 d @ ''T'' @
           pad_num 2 (r div 3600000) @ '':'' @ pad_num 2 ((r div 60000) mod 60) @ '':'' @
           pad_num 2 ((r div 1000) mod 60) @ ''.'' @ pad_num 3 (r mod 1000) @ ''Z''))"

definition sqlite_datetime :: "int \<Rightarrow> string" where
  "sqlite_datetime ms =
     (case civil_from_days (ms div 86400000) of
        (y, m, d) \<Rightarrow>
          (let r = ms mod 86400000 in
           pad_num 4 y @ ''-'' @ pad_num 2 m @ ''-'' @ pad_num 2 d @ '' '' @
           pad_num 2 (r div 3600000) @ '':'' @ pad_num 2 ((r div 60000) mod 60) @ '':'' @
           pad_num 2 ((r div 1000) mod 60)))"

text \<open>SQLite's comparison of two \<open>TEXT\<close> values under the default \<open>BINARY\<close> collation:
  byte by byte, a proper prefix being smaller.\<close>

fun text_less :: "string \<Rightarrow> string \<Rightarrow> bool" where
  "text_less [] [] = False"
| "text_less [] (y # ys) = True"
| "text_less (x # xs) [] = False"
| "text_less (x # xs) (y # ys) =
     ((of_char x :: nat) < of_char y \<or> (x = y \<and> text_less xs ys))"

text \<open>A row of \<open>refresh_tokens\<close> (the autoincremented \<open>id\<close> is never read); the table is
  the list of its rows in insertion order, \<open>token_hash\<close> being \<open>UNIQUE\<close>.\<close>

record refresh_token_row =
  user_id :: int
  token_hash :: string
  expires_at :: string
  created_at :: string

type_synonym refresh_tokens = "refresh_token_row list"

definition db_insert :: "refresh_tokens \<Rightarrow> refresh_token_row \<Rightarrow> js_error + refresh_tokens" where
  "db_insert db row =
     (if list_ex (\<lambda>r. token_hash r = token_hash row) db
      then Inl (PlainError ''UNIQUE constraint failed: refresh_tokens.token_hash'')
      else Inr (db @ [row]))"

text \<open>\<open>SELECT user_id FROM refresh_tokens WHERE token_hash = ? AND expires_at >
  datetime('now')\<close>, first row.\<close>

definition db_select_valid :: "refresh_tokens \<Rightarrow> int \<Rightarrow> string \<Rightarrow> int option" where
  "db_select_valid db nowMs tokenHash =
     map_option user_id
       (find (\<lambda>r. token_hash r = tokenHash \<and> text_less (sqlite_datetime nowMs) (expires_at r)) db)"

section \<open>Refresh token service\<close>

text \<open>Modelled from the spec: \<open>parseExpiresIn\<close> is imported from \<open>./jwtService\<close>, which
  is not among the sources; the spec has the lifetime parsed "via Codec's timespan
  parser".\<close>

definition parseExpiresIn :: "string \<Rightarrow> js_error + int" where
  "parseExpiresIn s = parseTimespan (Str s)"

text \<open>Modelled from the spec: \<open>JwtService.signWithCustomSecret\<close> is not among the sources;
  the spec has the refresh token signed by the token engine under the given secret.\<close>

definition signWithCustomSecret :: "platform \<Rightarrow> int \<Rightarrow> js_object \<Rightarrow> sign_options \<Rightarrow> string \<Rightarrow> js_error + string" where
  "signWithCustomSecret P wall payload options secret = sign P wall payload secret options"

definition no_verify_options :: verify_options where
  "no_verify_options =
     \<lparr>algorithms = None, issuer = None, subject = None, audience = None,
      clockTimestamp = None, clockTolerance = None, maxAge = None\<rparr>"

text \<open>Modelled from the spec: \<open>JwtService.verifyWithCustomSecret\<close> is not among the
  sources; the spec has the refresh token verified, signature and claims, by the token
  engine under the refresh secret.\<close>

definition verifyWithCustomSecret :: "platform \<Rightarrow> int \<Rightarrow> string \<Rightarrow> string \<Rightarrow> js_error + json" where
  "verifyWithCustomSecret P wall token secret = verify P wall token secret no_verify_options"

text \<open>\<open>Math.floor(finalSeconds / n)\<close> is the integer quotient and the template literal
  prints the decimal numeral, as the code does while \<open>accessTokenSeconds * 30\<close> is at most
  \<open>2^53\<close>.\<close>

definition calculateRefreshTokenExpiration :: "string \<Rightarrow> js_error + string" where
  "calculateRefreshTokenExpiration accessTokenExpiresIn =
     (case parseExpiresIn accessTokenExpiresIn of
        Inl e \<Rightarrow> Inl e
      | Inr accessTokenSeconds \<Rightarrow>
          (let refreshTokenSeconds = accessTokenSeconds * 30;
               finalSeconds = max refreshTokenSeconds 1800
           in if finalSeconds \<ge> 86400 then Inr (show_int (finalSeconds div 86400) @ ''d'')
              else if finalSeconds \<ge> 3600 then Inr (show_int (finalSeconds div 3600) @ ''h'')
              else Inr (show_int (finalSeconds div 60) @ ''m'')))"

text \<open>\<open>env\<close> is \<open>process.env.REFRESH_TOKEN_SECRET\<close> and \<open>nowMs\<close> is \<open>Date.now()\<close>, one
  instant for the whole call.\<close>

definition no_sign_options :: sign_options where
  "no_sign_options =
     \<lparr>algorithm = None, expiresIn = None, notBefore = None, sign_issuer = None,
      sign_subject = None, sign_audience = None, jwtid = None, noTimestamp = False,
      header = None, keyid = None, sign_clockTimestamp = None\<rparr>"

definition generateRefreshToken :: "platform \<Rightarrow> string option \<Rightarrow> int \<Rightarrow> int \<Rightarrow> json option \<Rightarrow> string \<Rightarrow> js_error + string" where
  "generateRefreshToken P env nowMs userId username accessTokenExpiresIn =
     (if \<not> truthy_str env
      then Inl (PlainError ''REFRESH_TOKEN_SECRET environment variable is required'')
      else
        (case calculateRefreshTokenExpiration accessTokenExpiresIn of
           Inl e \<Rightarrow> Inl e
         | Inr refreshTokenExpiration \<Rightarrow>
             signWithCustomSecret P (nowMs div 1000)
               ([(''userId'', JNum userId)] @
                (case username of Some u \<Rightarrow> [(''username'', u)] | None \<Rightarrow> []) @
                [(''type'', JStr ''refresh'')])
               (no_sign_options\<lparr>algorithm := Some ''HS256'',
                  expiresIn := Some (Str refreshTokenExpiration),
                  sign_issuer := Some ''jcoder-refresh''\<rparr>)
               (case env of Some s \<Rightarrow> s | None \<Rightarrow> [])))"

definition hashRefreshToken :: "platform \<Rightarrow> string \<Rightarrow> string" where
  "hashRefreshToken P token = sha256_hex P token"

definition storeRefreshToken :: "platform \<Rightarrow> int \<Rightarrow> refresh_tokens \<Rightarrow> int \<Rightarrow> string \<Rightarrow> int \<Rightarrow> js_error + refresh_tokens" where
  "storeRefreshToken P nowMs db userId token expiresInDays =
     (let tokenHash = hashRefreshToken P token;
          expiresAt = nowMs + expiresInDays * 86400000
      in db_insert db
           \<lparr>user_id = userId, token_hash = tokenHash,
            expires_at = toISOString expiresAt, created_at = toISOString nowMs\<rparr>)"

record user_info =
  userId :: int
  username :: "json option"

definition validateRefreshToken :: "platform \<Rightarrow> string option \<Rightarrow> int \<Rightarrow> refresh_tokens \<Rightarrow> string \<Rightarrow> user_info option" where
  "validateRefreshToken P env nowMs db token =
     (if \<not> truthy_str env then None
      else
        (case verifyWithCustomSecret P (nowMs div 1000) token (case env of Some s \<Rightarrow> s | None \<Rightarrow> []) of
           Inl e \<Rightarrow> None
         | Inr payload \<Rightarrow>
             (case get_prop payload ''type'' of
                Inl e \<Rightarrow> None
              | Inr ty \<Rightarrow>
                  if ty \<noteq> Some (JStr ''refresh'') then None
                  else
                    (case db_select_valid db nowMs (hashRefreshToken P token) of
                       None \<Rightarrow> None
                     | Some uid \<Rightarrow>
                         (case (get_prop payload ''userId'', get_prop payload ''username'') of
                            (Inr pu, Inr pn) \<Rightarrow>
                              if pu \<noteq> Some (JNum uid) then None
                              else Some \<lparr>userId = uid, username = pn\<rparr>
                          | _ \<Rightarrow> None)))))"

definition revokeRefreshToken :: "platform \<Rightarrow> refresh_tokens \<Rightarrow> string \<Rightarrow> bool \<times> refresh_tokens" where
  "revokeRefreshToken P db token =
     (let tokenHash = hashRefreshToken P token;
          kept = filter (\<lambda>r. token_hash r \<noteq> tokenHash) db
      in (length kept < length db, kept))"

definition revokeAllUserTokens :: "refresh_tokens \<Rightarrow> int \<Rightarrow> nat \<times> refresh_tokens" where
  "revokeAllUserTokens db uid =
     (let kept = filter (\<lambda>r. user_id r \<noteq> uid) db in (length db - length kept, kept))"

definition cleanupExpiredTokens :: "int \<Rightarrow> refresh_tokens \<Rightarrow> nat \<times> refresh_tokens" where
  "cleanupExpiredTokens nowMs db =
     (let kept = filter (\<lambda>r. text_less (sqlite_datetime nowMs) (expires_at r)) db
      in (length db - length kept, kept))"

text \<open>The result of \<open>rotateRefreshToken\<close> with the table it leaves: what was deleted
  stays deleted when a later step throws.\<close>

definition rotateRefreshToken :: "platform \<Rightarrow> string option \<Rightarrow> int \<Rightarrow> refresh_tokens \<Rightarrow> string \<Rightarrow> int \<Rightarrow> string \<Rightarrow> (js_error + string option) \<times> refresh_tokens" where
  "rotateRefreshToken P env nowMs db oldToken uid accessTokenExpiresIn =
     (case validateRefreshToken P env nowMs db oldToken of
        None \<Rightarrow> (Inr None, db)
      | Some userInfo \<Rightarrow>
          if userId userInfo \<noteq> uid then (Inr None, db)
          else
            (let db1 = snd (revokeRefreshToken P db oldToken) in
             case generateRefreshToken P env nowMs uid (username userInfo) accessTokenExpiresIn of
               Inl e \<Rightarrow> (Inl e, db1)
             | Inr newToken \<Rightarrow>
                 (case calculateRefreshTokenExpiration accessTokenExpiresIn of
                    Inl e \<Rightarrow> (Inl e, db1)
                  | Inr refreshExpiration \<Rightarrow>
                      (case parseExpiresIn refreshExpiration of
                         Inl e \<Rightarrow> (Inl e, db1)
                       | Inr expirationSeconds \<Rightarrow>
                           (let expirationDays = - ((- expirationSeconds) div 86400) in
                            case storeRefreshToken P nowMs db1 uid newToken expirationDays of
                              Inl e \<Rightarrow> (Inl e, db1)
                            | Inr db2 \<Rightarrow> (Inr (Some newToken), db2))))))"

section \<open>A reference platform\<close>

text \<open>
  To run the model on concrete inputs the platform is instantiated: \<open>ref_stringify\<close>
  prints a JSON value as \<open>JSON.stringify\<close> does (no white space; strings are taken to
  hold no control characters) and \<open>ref_parse\<close> reads such text back, by recursive descent
  with the length of the input as fuel. The digests are stand-ins that keep their inputs
  apart (the results that name \<open>ref_platform\<close> do not depend on the digest's values;
  the general theorems hold for every digest).
\<close>

definition json_quote :: "string \<Rightarrow> string" where
  "json_quote s =
     [CHR 0x22] @
     concat (map (\<lambda>c. if c = CHR 0x22 \<or> c = CHR 0x5C then [CHR 0x5C, c] else [c]) s) @
     [CHR 0x22]"

fun ref_stringify :: "json \<Rightarrow> string" where
  "ref_stringify JNull = ''null''"
| "ref_stringify (JBool b) = (if b then ''true'' else ''false'')"
| "ref_stringify (JNum n) = show_int n"
| "ref_stringify (JStr s) = json_quote s"
| "ref_stringify (JArr xs) = ''['' @ join_comma (map ref_stringify xs) @ '']''"
| "ref_stringify (JObj kvs) =
     ''{'' @ join_comma (map (\<lambda>(k, v). json_quote k @ '':'' @ ref_stringify v) kvs) @ ''}''"

text \<open>The text after an opening quote: the string's characters and what follows the
  closing quote.\<close>

fun parse_string_body :: "string \<Rightarrow> (string \<times> string) option" where
  "parse_string_body [] = None"
| "parse_string_body (c # rest) =
     (if c = CHR 0x22 then Some ([], rest)
      else if c = CHR 0x5C then
        (case rest of
           [] \<Rightarrow> None
         | e # rest' \<Rightarrow>
             if e = CHR 0x22 \<or> e = CHR 0x5C
             then (case parse_string_body rest' of
                     None \<Rightarrow> None
                   | Some (s, r) \<Rightarrow> Some (e # s, r))
             else None)
      else (case parse_string_body rest of
              None \<Rightarrow> None
            | Some (s, r) \<Rightarrow> Some (c # s, r)))"

definition parse_digits :: "string \<Rightarrow> (nat \<times> string) option" where
  "parse_digits s =
     (let ds = takeWhile is_digit s in
      if ds = [] then None else Some (parseInt10 ds, dropWhile is_digit s))"

definition parse_literal :: "string \<Rightarrow> json \<Rightarrow> string \<Rightarrow> (json \<times> string) option" where
  "parse_literal lit v s =
     (if take (length lit) s = lit then Some (v, drop (length lit) s) else None)"

fun parse_json :: "nat \<Rightarrow> string \<Rightarrow> (json \<times> string) option"
  and parse_elems :: "nat \<Rightarrow> string \<Rightarrow> (json list \<times> string) option"
  and parse_members :: "nat \<Rightarrow> string \<Rightarrow> (js_object \<times> string) option" where
  "parse_json 0 s = None"
| "parse_json (Suc n) [] = None"
| "parse_json (Suc n) (c # rest) =
     (if c = CHR ''n'' then parse_literal ''null'' JNull (c # rest)
      else if c = CHR ''t'' then parse_literal ''true'' (JBool True) (c # rest)
      else if c = CHR ''f'' then parse_literal ''false'' (JBool False) (c # rest)
      else if c = CHR 0x22 then
        (case parse_string_body rest of
           None \<Rightarrow> None
         | Some (s, r) \<Rightarrow> Some (JStr s, r))
      else if c = CHR ''-'' then
        (case parse_digits rest of
           None \<Rightarrow> None
         | Some (m, r) \<Rightarrow> Some (JNum (- int m), r))
      else if is_digit c then
        (case parse_digits (c # rest) of
           None \<Rightarrow> None
         | Some (m, r) \<Rightarrow> Some (JNum (int m), r))
      else if c = CHR ''['' then
        (case rest of
           [] \<Rightarrow> None
         | d # rest' \<Rightarrow>
             if d = CHR '']'' then Some (JArr [], rest')
             else (case parse_elems n rest of
                     None \<Rightarrow> None
                   | Some (xs, r) \<Rightarrow> Some (JArr xs, r)))
      else if c = CHR ''{'' then
        (case rest of
           [] \<Rightarrow> None
         | d # rest' \<Rightarrow>
             if d = CHR ''}'' then Some (JObj [], rest')
             else (case parse_members n rest of
                     None \<Rightarrow> None
                   | Some (kvs, r) \<Rightarrow> Some (JObj kvs, r)))
      else None)"
| "parse_elems 0 s = None"
| "parse_elems (Suc n) s =
     (case parse_json n s of
        None \<Rightarrow> None
      | Some (v, r) \<Rightarrow>
          (case r of
             [] \<Rightarrow> None
           | d # r' \<Rightarrow>
               if d = CHR '','' then
                 (case parse_elems n r' of
                    None \<Rightarrow> None
                  | Some (vs, r'') \<Rightarrow> Some (v # vs, r''))
               else if d = CHR '']'' then Some ([v], r')
               else None))"
| "parse_members 0 s = None"
| "parse_members (Suc n) [] = None"
| "parse_members (Suc n) (q # s) =
     (if q \<noteq> CHR 0x22 then None
      else
        (case parse_string_body s of
           None \<Rightarrow> None
         | Some (k, r0) \<Rightarrow>
             (case r0 of
                [] \<Rightarrow> None
              | colon # r1 \<Rightarrow>
                  if colon \<noteq> CHR '':'' then None
                  else
                    (case parse_json n r1 of
                       None \<Rightarrow> None
                     | Some (v, r) \<Rightarrow>
                         (case r of
                            [] \<Rightarrow> None
                          | d # r' \<Rightarrow>
                              if d = CHR '','' then
                                (case parse_members n r' of
                                   None \<Rightarrow> None
                                 | Some (kvs, r'') \<Rightarrow> Some ((k, v) # kvs, r''))
                              else if d = CHR ''}'' then Some ([(k, v)], r')
                              else None)))))"

definition ref_parse :: "string \<Rightarrow> string + json" where
  "ref_parse s =
     (case parse_json (Suc (length s)) s of
        Some (v, []) \<Rightarrow> Inr v
      | _ \<Rightarrow> Inl ''Unexpected token'')"

definition ref_platform :: platform where
  "ref_platform =
     \<lparr>hmac_digest = (\<lambda>alg secret input. alg @ '':'' @ secret @ '':'' @ input),
      JSON_stringify = ref_stringify,
      JSON_parse = ref_parse,
      sha256_hex = toString_hex,
      scrypt = (\<lambda>password salt keylen.
        Inr (map (\<lambda>i. (salt @ password @ ''.'') ! (i mod length (salt @ password @ ''.'')))
               [0..<keylen]))\<rparr>"

section \<open>Signing and then verifying\<close>

text \<open>
  \<open>verify(sign(payload, secret, sopts), secret, vopts)\<close>: the clock reads \<open>wall\<close> when
  \<open>sign\<close> runs and \<open>wall'\<close> when \<open>verify\<close> runs, and an exception of \<open>sign\<close> propagates.
\<close>

definition sign_then_verify :: "platform \<Rightarrow> int \<Rightarrow> js_object \<Rightarrow> string \<Rightarrow> sign_options \<Rightarrow> int \<Rightarrow> verify_options \<Rightarrow> js_error + json" where
  "sign_then_verify P wall payload secret sopts wall' vopts =
     (case sign P wall payload secret sopts of
        Inl e \<Rightarrow> Inl e
      | Inr token \<Rightarrow> verify P wall' token secret vopts)"

text \<open>The options of the spec's scenario, and the token it signs at clock \<open>wall\<close> on the
  reference platform: \<open>sign({userId: 123}, "s3cret", {algorithm: "HS256", expiresIn: "1h",
  issuer: "svc"})\<close>.\<close>

definition scenario_sign_options :: sign_options where
  "scenario_sign_options =
     no_sign_options\<lparr>algorithm := Some ''HS256'', expiresIn := Some (Str ''1h''),
       sign_issuer := Some ''svc''\<rparr>"

definition scenario_verify_options :: verify_options where
  "scenario_verify_options =
     no_verify_options\<lparr>algorithms := Some [''HS256''], issuer := Some (One ''svc'')\<rparr>"

definition scenario_token :: "int \<Rightarrow> string" where
  "scenario_token wall =
     (case sign ref_platform wall [(''userId'', JNum 123)] ''s3cret'' scenario_sign_options of
        Inr token \<Rightarrow> token
      | Inl e \<Rightarrow> [])"

text \<open>A signer that uses every option that injects a claim, a verifier that checks them,
  and the payload that signer builds from \<open>{role: "admin"}\<close> at clock 1000.\<close>

definition full_sign_options :: sign_options where
  "full_sign_options =
     no_sign_options\<lparr>algorithm := Some ''HS512'', expiresIn := Some (Str ''1h''),
       notBefore := Some (Num 10), sign_issuer := Some ''svc'', sign_subject := Some ''u1'',
       sign_audience := Some (One ''app''), jwtid := Some ''j1''\<rparr>"

definition full_verify_options :: verify_options where
  "full_verify_options =
     no_verify_options\<lparr>algorithms := Some [''HS512''], issuer := Some (One ''svc''),
       subject := Some ''u1'', audience := Some (One ''app'')\<rparr>"

definition full_payload :: js_object where
  "full_payload =
     [(''role'', JStr ''admin''), (''iss'', JStr ''svc''), (''sub'', JStr ''u1''),
      (''aud'', JStr ''app''), (''jti'', JStr ''j1''), (''iat'', JNum 1000),
      (''exp'', JNum 4600), (''nbf'', JNum 1010)]"

section \<open>Refresh tokens as issued\<close>

text \<open>The sign options \<open>generateRefreshToken\<close> passes for a lifetime, and the payload the
  token engine builds from them at clock \<open>iat\<close> when the lifetime is \<open>d\<close> seconds.\<close>

definition refresh_sign_options :: "string \<Rightarrow> sign_options" where
  "refresh_sign_options life =
     no_sign_options\<lparr>algorithm := Some ''HS256'', expiresIn := Some (Str life),
       sign_issuer := Some ''jcoder-refresh''\<rparr>"

definition refresh_payload :: "int \<Rightarrow> json \<Rightarrow> int \<Rightarrow> int \<Rightarrow> js_object" where
  "refresh_payload uid uname iat d =
     [(''userId'', JNum uid), (''username'', uname), (''type'', JStr ''refresh''),
      (''iss'', JStr ''jcoder-refresh''), (''iat'', JNum iat), (''exp'', JNum (iat + d))]"

text \<open>
  Two tokens of user 7 (\<open>alice\<close>) on the reference platform, both issued at
  2025-11-03T08:00:00.000Z under the refresh secret \<open>r3fresh\<close>, each with the table that
  \<open>storeRefreshToken\<close> leaves from an empty one: \<open>stale_token\<close> for an access lifetime of
  \<open>7d\<close>, stored with the default of 30 days, and \<open>issued_token\<close> for an access lifetime
  of \<open>1h\<close>, stored for the one day \<open>rotateRefreshToken\<close> computes.
\<close>

definition stale_token :: string where
  "stale_token =
     (case generateRefreshToken ref_platform (Some ''r3fresh'') 1762156800000 7
             (Some (JStr ''alice'')) ''7d'' of
        Inr token \<Rightarrow> token
      | Inl e \<Rightarrow> [])"

definition stale_db :: refresh_tokens where
  "stale_db =
     (case storeRefreshToken ref_platform 1762156800000 [] 7 stale_token 30 of
        Inr db \<Rightarrow> db
      | Inl e \<Rightarrow> [])"

definition issued_token :: string where
  "issued_token =
     (case generateRefreshToken ref_platform (Some ''r3fresh'') 1762156800000 7
             (Some (JStr ''alice'')) ''1h'' of
        Inr token \<Rightarrow> token
      | Inl e \<Rightarrow> [])"

definition issued_db :: refresh_tokens where
  "issued_db =
     (case storeRefreshToken ref_platform 1762156800000 [] 7 issued_token 1 of
        Inr db \<Rightarrow> db
      | Inl e \<Rightarrow> [])"

section \<open>Properties of the timespan parser\<close>

lemma re_amount_unit_snoc:
  "ds \<noteq> [] \<Longrightarrow> list_all is_digit ds \<Longrightarrow> u \<in> set ''smhd'' \<Longrightarrow>
   re_amount_unit (ds @ [u]) = Some (ds, u)"
  by (simp add: re_amount_unit_def)

lemma re_digits_snoc_unit: "u \<in> set ''smhd'' \<Longrightarrow> \<not> re_digits (ds @ [u])"
  by (auto simp: re_digits_def is_digit_def)

lemma re_amount_unit_SomeD:
  "re_amount_unit s = Some (ds, u) \<Longrightarrow>
   s = ds @ [u] \<and> ds \<noteq> [] \<and> list_all is_digit ds \<and> u \<in> set ''smhd''"
  unfolding re_amount_unit_def
  by (cases "rev s") (auto split: if_splits)

lemma parseInt10_snoc: "parseInt10 (xs @ [c]) = parseInt10 xs * 10 + digit_val c"
  by (simp add: parseInt10_def)

lemma parseInt10_decimal:
  "parseInt10 ds = (\<Sum>i<length ds. (of_char (ds ! i) - 48) * 10 ^ (length ds - Suc i))"
proof (induction ds rule: rev_induct)
  case Nil
  then show ?case by (simp add: parseInt10_def)
next
  case (snoc c ds)
  have "(\<Sum>i<length ds. (of_char ((ds @ [c]) ! i) - 48) * 10 ^ (length (ds @ [c]) - Suc i)) =
        (\<Sum>i<length ds. ((of_char (ds ! i) - 48) * 10 ^ (length ds - Suc i)) * (10::nat))"
  proof (rule sum.cong)
    fix i assume "i \<in> {..<length ds}"
    then have i: "i < length ds" by simp
    then have "length (ds @ [c]) - Suc i = Suc (length ds - Suc i)" by simp
    then show "(of_char ((ds @ [c]) ! i) - 48) * 10 ^ (length (ds @ [c]) - Suc i) =
        ((of_char (ds ! i) - 48) * 10 ^ (length ds - Suc i)) * (10::nat)"
      using i by (simp add: nth_append)
  qed simp
  then show ?case
    using snoc by (simp add: parseInt10_snoc digit_val_def sum_distrib_right)
qed

text \<open>
  C7, as amended. \<open>parseTimespan\<close> returns every number as it is, negative ones
  included. On a string it accepts exactly two shapes: one or more digits, and one or
  more digits followed by one of \<open>s\<close>, \<open>m\<close>, \<open>h\<close>, \<open>d\<close>. With \<open>v\<close> the decimal value
  of the digits, the sum of the digits times the powers of ten, it returns \<open>v\<close> for the
  digits alone and \<open>v\<close> times 1, 60, 3600, 86400 for the units, while that result is an
  integer that a JavaScript number holds exactly (at most \<open>2^53\<close>). Every other string
  fails with the \<open>TypeError\<close> "Invalid timespan format".
\<close>

theorem parseTimespan_shapes:
  "parseTimespan (Num n) = Inr n \<and>
   (ds \<noteq> [] \<and> list_all is_digit ds \<and>
    v = (\<Sum>i<length ds. (of_char (ds ! i) - 48) * 10 ^ (length ds - Suc i)) \<longrightarrow>
      (exact_int (int v) \<longrightarrow>
         parseTimespan (Str ds) = Inr (int v) \<and>
         parseTimespan (Str (ds @ ''s'')) = Inr (int v)) \<and>
      (exact_int (int v * 60) \<longrightarrow> parseTimespan (Str (ds @ ''m'')) = Inr (int v * 60)) \<and>
      (exact_int (int v * 3600) \<longrightarrow> parseTimespan (Str (ds @ ''h'')) = Inr (int v * 3600)) \<and>
      (exact_int (int v * 86400) \<longrightarrow> parseTimespan (Str (ds @ ''d'')) = Inr (int v * 86400))) \<and>
   ((\<nexists>ds'. ds' \<noteq> [] \<and> list_all is_digit ds' \<and>
            (s = ds' \<or> (\<exists>u. u \<in> set ''smhd'' \<and> s = ds' @ [u]))) \<longrightarrow>
      parseTimespan (Str s) = Inl (TypeError (''Invalid timespan format: '' @ s)))"
proof (intro conjI impI)
  show "parseTimespan (Num n) = Inr n" by simp
next
  assume ds: "ds \<noteq> [] \<and> list_all is_digit ds \<and>
    v = (\<Sum>i<length ds. (of_char (ds ! i) - 48) * 10 ^ (length ds - Suc i))"
  then have v: "parseInt10 ds = v" by (simp add: parseInt10_decimal)
  from ds show "parseTimespan (Str ds) = Inr (int v)"
    by (simp add: re_digits_def v)
  from ds show "parseTimespan (Str (ds @ ''s'')) = Inr (int v)"
    by (simp add: re_digits_snoc_unit re_amount_unit_snoc v)
  from ds show "parseTimespan (Str (ds @ ''m'')) = Inr (int v * 60)"
    by (simp add: re_digits_snoc_unit re_amount_unit_snoc v)
  from ds show "parseTimespan (Str (ds @ ''h'')) = Inr (int v * 3600)"
    by (simp add: re_digits_snoc_unit re_amount_unit_snoc v)
  from ds show "parseTimespan (Str (ds @ ''d'')) = Inr (int v * 86400)"
    by (simp add: re_digits_snoc_unit re_amount_unit_snoc v)
next
  assume no: "\<nexists>ds'. ds' \<noteq> [] \<and> list_all is_digit ds' \<and>
                  (s = ds' \<or> (\<exists>u. u \<in> set ''smhd'' \<and> s = ds' @ [u]))"
  then have a: "\<not> re_digits s" by (auto simp: re_digits_def)
  have b: "re_amount_unit s = None"
  proof (cases "re_amount_unit s")
    case (Some p)
    obtain ds u where "p = (ds, u)" by (cases p)
    with Some re_amount_unit_SomeD[of s ds u] no show ?thesis by blast
  qed simp
  from a b show "parseTimespan (Str s) = Inl (TypeError (''Invalid timespan format: '' @ s))"
    by simp
qed

text \<open>C7, witness: the number 60, the digits \<open>15\<close> alone and with each unit, and the
  string \<open>1w\<close>, which has neither shape.\<close>

theorem parseTimespan_shapes_witness:
  "parseTimespan (Num 60) = Inr 60 \<and>
   parseTimespan (Str ''15'') = Inr 15 \<and>
   parseTimespan (Str ''15s'') = Inr 15 \<and>
   parseTimespan (Str ''15m'') = Inr 900 \<and>
   parseTimespan (Str ''15h'') = Inr 54000 \<and>
   parseTimespan (Str ''15d'') = Inr 1296000 \<and>
   parseTimespan (Str ''1w'') = Inl (TypeError ''Invalid timespan format: 1w'')"
proof -
  have d: "''15'' \<noteq> [] \<and> list_all is_digit ''15''" by (simp add: is_digit_def)
  have v: "(15::nat) = (\<Sum>i<length ''15''. (of_char (''15'' ! i) - 48) * 10 ^ (length ''15'' - Suc i))"
    by (simp add: lessThan_Suc numeral_2_eq_2)
  have e: "exact_int (int 15)" "exact_int (int 15 * 60)" "exact_int (int 15 * 3600)"
    "exact_int (int 15 * 86400)"
    by (simp_all add: exact_int_def)
  have n: "\<nexists>ds'. ds' \<noteq> [] \<and> list_all is_digit ds' \<and>
             (''1w'' = ds' \<or> (\<exists>u. u \<in> set ''smhd'' \<and> ''1w'' = ds' @ [u]))"
    by (auto simp: is_digit_def append_eq_Cons_conv)
  have "parseTimespan (Num 60) = Inr 60 \<and>
      parseTimespan (Str ''15'') = Inr (int 15) \<and>
      parseTimespan (Str (''15'' @ ''s'')) = Inr (int 15) \<and>
      parseTimespan (Str (''15'' @ ''m'')) = Inr (int 15 * 60) \<and>
      parseTimespan (Str (''15'' @ ''h'')) = Inr (int 15 * 3600) \<and>
      parseTimespan (Str (''15'' @ ''d'')) = Inr (int 15 * 86400) \<and>
      parseTimespan (Str ''1w'') = Inl (TypeError (''Invalid timespan format: '' @ ''1w''))"
    using parseTimespan_shapes[of 60 "''15''" 15 "''1w''"] d v e n by blast
  then show ?thesis by (simp del: parseTimespan.simps)
qed

text \<open>C7, counterexample: a negative number is not rejected; it is returned.\<close>

theorem parseTimespan_negative_number:
  "parseTimespan (Num (- 5)) = Inr (- 5) \<and>
   parseTimespan (Num (- 5)) \<noteq> Inl (TypeError ''Invalid timespan format: -5'')"
  by simp

section \<open>Properties of the refresh lifetime\<close>

text \<open>The lifetimes derived from \<open>5s\<close> and from \<open>1d\<close> are those of the spec's examples:
  the floor of 1800 seconds, and 30 days.\<close>

lemma refresh_lifetime_5s_1d:
  "calculateRefreshTokenExpiration ''5s'' = Inr ''30m'' \<and>
   calculateRefreshTokenExpiration ''1d'' = Inr ''30d''"
  by code_simp

text \<open>
  C6 says that the lifetime derived from \<open>1h\<close> is \<open>30h\<close>, thirty times the access
  lifetime, as the function's own comment does ("otherwise 30x the access token
  duration"). On the code it is \<open>1d\<close>: the 108000 seconds of thirty hours are at least
  86400, so they are rendered in days, and \<open>Math.floor\<close> drops the six hours over one
  day. The result is read back as 86400 seconds, 24 times the 3600 of \<open>1h\<close>, where
  \<open>30h\<close> is read back as 108000. In the same way the 47.5 hours derived from \<open>95m\<close>
  come out as \<open>1d\<close>.
\<close>

theorem refresh_lifetime_1h_is_one_day:
  "parseExpiresIn ''1h'' = Inr 3600 \<and>
   calculateRefreshTokenExpiration ''1h'' = Inr ''1d'' \<and>
   parseExpiresIn ''1d'' = Inr 86400 \<and>
   parseExpiresIn ''30h'' = Inr 108000 \<and>
   calculateRefreshTokenExpiration ''95m'' = Inr ''1d''"
  by code_simp

section \<open>Properties of the base64url codec\<close>

lemma of_char_b64_char:
  "n < 64 \<Longrightarrow> (of_char (b64_char n) :: nat) =
     (if n < 26 then n + 65 else if n < 52 then n + 71 else if n < 62 then n - 4
      else if n = 62 then 43 else 47)"
  by (simp add: b64_char_def)

lemma unbase64_b64_char: "n < 64 \<Longrightarrow> unbase64 (b64_char n) = Some n"
  unfolding unbase64_def Let_def of_char_b64_char
  by (auto simp: b64_char_def)

lemma b64_char_not_special:
  assumes "n < 64"
  shows "b64_char n \<noteq> CHR ''=''" "b64_char n \<noteq> CHR ''.''" "b64_char n \<noteq> CHR ''-''" "b64_char n \<noteq> CHR ''_''"
proof -
  have v: "(of_char (b64_char n) :: nat) \<notin> {61, 46, 45, 95}"
    using assms by (auto simp: of_char_b64_char split: if_splits)
  show "b64_char n \<noteq> CHR ''=''" using v by auto
  show "b64_char n \<noteq> CHR ''.''" using v by auto
  show "b64_char n \<noteq> CHR ''-''" using v by auto
  show "b64_char n \<noteq> CHR ''_''" using v by auto
qed

lemma sx_b1: "(A::nat) < 256 \<Longrightarrow> A div 4 < 64" by simp
lemma sx_b2: "((A::nat) mod 4) * 16 < 64"
proof -
  have "A mod 4 < 4" by simp
  then show ?thesis by linarith
qed
lemma sx_b3: "(B::nat) < 256 \<Longrightarrow> (A mod 4) * 16 + B div 16 < 64"
proof -
  assume "B < 256"
  then have "B div 16 < 16" by simp
  moreover have "A mod 4 < 4" by simp
  ultimately show ?thesis by linarith
qed
lemma sx_b4: "((B::nat) mod 16) * 4 < 64"
proof -
  have "B mod 16 < 16" by simp
  then show ?thesis by linarith
qed
lemma sx_b5: "(C::nat) < 256 \<Longrightarrow> (B mod 16) * 4 + C div 64 < 64"
proof -
  assume "C < 256"
  then have "C div 64 < 4" by simp
  moreover have "B mod 16 < 16" by simp
  ultimately show ?thesis by linarith
qed
lemma sx_b6: "(C::nat) mod 64 < 64" by simp

lemma sx_i1: "((A::nat) div 4) * 4 + ((A mod 4) * 16) div 16 = A" by simp
lemma sx_i2: "(B::nat) < 256 \<Longrightarrow> (A div 4) * 4 + ((A mod 4) * 16 + B div 16) div 16 = (A::nat)"
proof -
  assume "B < 256"
  then have "B div 16 < 16" by simp
  then show ?thesis by simp
qed
lemma sx_i3: "(B::nat) < 256 \<Longrightarrow> (((A mod 4) * 16 + B div 16) mod 16) * 16 + ((B mod 16) * 4) div 4 = B"
proof -
  assume "B < 256"
  then have "B div 16 < 16" by simp
  then have "((A mod 4) * 16 + B div 16) mod 16 = B div 16" by simp
  then show ?thesis by simp
qed
lemma sx_i4: "(B::nat) < 256 \<Longrightarrow> (C::nat) < 256 \<Longrightarrow> (((A mod 4) * 16 + B div 16) mod 16) * 16 + ((B mod 16) * 4 + C div 64) div 4 = B"
proof -
  assume "B < 256" "C < 256"
  then have "B div 16 < 16" "C div 64 < 4" by simp_all
  then have "((A mod 4) * 16 + B div 16) mod 16 = B div 16" "((B mod 16) * 4 + C div 64) div 4 = B mod 16" by simp_all
  then show ?thesis by simp
qed
lemma sx_i5: "(C::nat) < 256 \<Longrightarrow> (((B mod 16) * 4 + C div 64) mod 4) * 64 + C mod 64 = C"
proof -
  assume "C < 256"
  then have "C div 64 < 4" by simp
  then have "((B mod 16) * 4 + C div 64) mod 4 = C div 64" by simp
  then show ?thesis by simp
qed
lemma sextets_lt_64: "s \<in> set (sextets bs) \<Longrightarrow> s < 64"
proof (induction bs arbitrary: s rule: sextets.induct)
  case 1
  then show ?case by simp
next
  case (2 a)
  from 2 sx_b1[OF nat_of_char_less_256[of a]] sx_b2[of "of_char a"]
  show ?case by auto
next
  case (3 a b)
  from 3 sx_b1[OF nat_of_char_less_256[of a]] sx_b3[OF nat_of_char_less_256[of b], of "of_char a"]
    sx_b4[of "of_char b"]
  show ?case by auto
next
  case (4 a b c rest)
  from 4 sx_b1[OF nat_of_char_less_256[of a]] sx_b3[OF nat_of_char_less_256[of b], of "of_char a"]
    sx_b5[OF nat_of_char_less_256[of c], of "of_char b"] sx_b6[of "of_char c"]
  show ?case by auto
qed

lemma decode_sextets_sextets: "decode_sextets (sextets bs) = bs"
proof (induction bs rule: sextets.induct)
  case 1
  then show ?case by simp
next
  case (2 a)
  show ?case
    by (simp only: sextets.simps decode_sextets.simps sx_i1[of "of_char a"] char_of_char)
next
  case (3 a b)
  show ?case
    by (simp only: sextets.simps decode_sextets.simps char_of_char
        sx_i2[OF nat_of_char_less_256[of b], of "of_char a"]
        sx_i3[OF nat_of_char_less_256[of b], of "of_char a"])
next
  case (4 a b c rest)
  show ?case
    by (simp only: sextets.simps decode_sextets.simps char_of_char append_Cons append_Nil 4
        sx_i2[OF nat_of_char_less_256[of b], of "of_char a"]
        sx_i4[OF nat_of_char_less_256[of b] nat_of_char_less_256[of c], of "of_char a"]
        sx_i5[OF nat_of_char_less_256[of c], of "of_char b"])
qed

lemma takeWhile_append_pad:
  "takeWhile (\<lambda>c. c \<noteq> x) (xs @ replicate k x) = takeWhile (\<lambda>c. c \<noteq> x) xs"
proof (induction xs)
  case Nil
  then show ?case by (cases k) simp_all
next
  case (Cons a xs)
  then show ?case by simp
qed

lemma map_filter_map_inv:
  "(\<And>x. x \<in> set xs \<Longrightarrow> f (g x) = Some x) \<Longrightarrow> List.map_filter f (map g xs) = xs"
  by (induction xs) (simp_all add: List.map_filter_simps)

lemma b64_chars_no_pad: "c \<in> set (map b64_char (sextets bs)) \<Longrightarrow> c \<noteq> CHR ''=''"
proof -
  assume "c \<in> set (map b64_char (sextets bs))"
  then obtain n where "n \<in> set (sextets bs)" "c = b64_char n" by auto
  then show ?thesis using sextets_lt_64[of n bs] b64_char_not_special(1)[of n] by simp
qed

lemma base64urlEncode_eq:
  "base64urlEncode bs =
     map (\<lambda>c. if c = CHR ''/'' then CHR ''_'' else if c = CHR ''+'' then CHR ''-'' else c)
       (map b64_char (sextets bs))"
proof -
  have "filter (\<lambda>c. c \<noteq> CHR ''='') (map b64_char (sextets bs)) = map b64_char (sextets bs)"
    using b64_chars_no_pad[of _ bs] by (simp only: filter_id_conv) blast
  then have "remove_char CHR ''='' (toString_base64 bs) = map b64_char (sextets bs)"
    unfolding remove_char_def toString_base64_def by simp
  then show ?thesis
    by (simp add: base64urlEncode_def replace_char_def)
qed

lemma base64urlDecode_eq:
  "base64urlDecode s =
     decode_sextets (List.map_filter unbase64
       (takeWhile (\<lambda>c. c \<noteq> CHR ''='')
          (map (\<lambda>c. if c = CHR ''_'' then CHR ''/'' else if c = CHR ''-'' then CHR ''+'' else c) s)))"
proof -
  have r: "replace_char CHR ''_'' CHR ''/'' (replace_char CHR ''-'' CHR ''+'' s) =
      map (\<lambda>c. if c = CHR ''_'' then CHR ''/'' else if c = CHR ''-'' then CHR ''+'' else c) s"
    by (simp add: replace_char_def)
  show ?thesis
    unfolding base64urlDecode_def Let_def r from_base64_def
    by (auto simp only: takeWhile_append_pad split: if_split)
qed

lemma url_unurl_b64_char:
  assumes "n < 64"
  shows "(\<lambda>c. if c = CHR ''_'' then CHR ''/'' else if c = CHR ''-'' then CHR ''+'' else c)
           ((\<lambda>c. if c = CHR ''/'' then CHR ''_'' else if c = CHR ''+'' then CHR ''-'' else c) (b64_char n))
         = b64_char n"
  using b64_char_not_special(3,4)[OF assms] by simp

lemma base64url_roundtrip: "base64urlDecode (base64urlEncode bs) = bs"
proof -
  let ?X = "map b64_char (sextets bs)"
  let ?u = "\<lambda>c. if c = CHR ''/'' then CHR ''_'' else if c = CHR ''+'' then CHR ''-'' else c"
  let ?d = "\<lambda>c. if c = CHR ''_'' then CHR ''/'' else if c = CHR ''-'' then CHR ''+'' else c"
  have "map (\<lambda>n. ?d (?u (b64_char n))) (sextets bs) = map b64_char (sextets bs)"
    by (rule map_cong[OF refl]) (rule url_unurl_b64_char, rule sextets_lt_64)
  then have a: "map ?d (map ?u ?X) = ?X"
    by (simp only: map_map comp_def)
  have b: "takeWhile (\<lambda>c. c \<noteq> CHR ''='') ?X = ?X"
    using b64_chars_no_pad[of _ bs] by (simp only: takeWhile_eq_all_conv) blast
  have c: "List.map_filter unbase64 ?X = sextets bs"
    by (rule map_filter_map_inv) (rule unbase64_b64_char, rule sextets_lt_64)
  show ?thesis
    by (simp only: base64urlEncode_eq base64urlDecode_eq a b c decode_sextets_sextets)
qed

section \<open>The reference JSON codec inverts its printer\<close>

lemma digit_char_props:
  "d < 10 \<Longrightarrow> is_digit (''0123456789'' ! d) \<and> digit_val (''0123456789'' ! d) = d"
  unfolding is_digit_def digit_val_def
  by (simp add: nth_Cons' )

lemma show_nat_digits: "list_all is_digit (show_nat n) \<and> show_nat n \<noteq> [] \<and> parseInt10 (show_nat n) = n"
proof (induction n rule: show_nat.induct)
  case (1 n)
  show ?case
  proof (cases "n < 10")
    case True
    then have s: "show_nat n = [''0123456789'' ! n]" by (subst show_nat.simps) simp
    with digit_char_props[OF True] show ?thesis
      by (simp add: parseInt10_def)
  next
    case False
    then have s: "show_nat n = show_nat (n div 10) @ [''0123456789'' ! (n mod 10)]"
      by (subst show_nat.simps) simp
    have d: "n mod 10 < 10" by simp
    from 1[OF False] digit_char_props[OF d] show ?thesis
      unfolding s by (simp add: parseInt10_snoc del: show_nat.simps)
  qed
qed

lemma takeWhile_digits:
  assumes "list_all is_digit ds" "rest = [] \<or> \<not> is_digit (hd rest)"
  shows "takeWhile is_digit (ds @ rest) = ds \<and> dropWhile is_digit (ds @ rest) = rest"
proof -
  have r: "takeWhile is_digit rest = [] \<and> dropWhile is_digit rest = rest"
    using assms(2) by (cases rest) auto
  from assms(1) r show ?thesis by (induction ds) auto
qed

lemma parse_digits_show_nat:
  assumes "rest = [] \<or> \<not> is_digit (hd rest)"
  shows "parse_digits (show_nat n @ rest) = Some (n, rest)"
  using takeWhile_digits[OF _ assms, of "show_nat n"] show_nat_digits[of n]
  by (simp add: parse_digits_def Let_def del: show_nat.simps)

lemma parse_string_body_quote:
  "parse_string_body
     (concat (map (\<lambda>c. if c = CHR 0x22 \<or> c = CHR 0x5C then [CHR 0x5C, c] else [c]) s) @ CHR 0x22 # rest) =
   Some (s, rest)"
  by (induction s) auto

lemma join_comma_Cons:
  "join_comma (x # xs) = (if xs = [] then x else x @ CHR '','' # join_comma xs)"
  by (cases xs) simp_all

lemma show_nat_hd: "\<exists>c cs. show_nat n = c # cs \<and> is_digit c"
  using show_nat_digits[of n] by (cases "show_nat n") (simp_all del: show_nat.simps)

lemma is_digit_chars:
  "is_digit c \<Longrightarrow> c \<noteq> CHR ''n'' \<and> c \<noteq> CHR ''t'' \<and> c \<noteq> CHR ''f'' \<and> c \<noteq> CHR 0x22 \<and> c \<noteq> CHR ''-''
     \<and> c \<noteq> CHR ''['' \<and> c \<noteq> CHR ''{'' \<and> c \<noteq> CHR '']'' \<and> c \<noteq> CHR ''}'' \<and> c \<noteq> CHR '',''"
  by (auto simp: is_digit_def)

lemma not_digit_open: "\<not> is_digit CHR ''[''" "\<not> is_digit CHR ''{''"
  by (simp_all add: is_digit_def)

lemma not_digit_seps: "\<not> is_digit CHR '',''" "\<not> is_digit CHR '']''" "\<not> is_digit CHR ''}''"
  by (simp_all add: is_digit_def)

lemma stringify_hd: "ref_stringify v \<noteq> [] \<and> hd (ref_stringify v) \<noteq> CHR '']''"
proof (cases v)
  case (JNum n)
  obtain c cs where "show_nat (nat n) = c # cs" "is_digit c" using show_nat_hd by blast
  moreover obtain c' cs' where "show_nat (nat (- n)) = c' # cs'" using show_nat_hd by blast
  ultimately show ?thesis using JNum is_digit_chars[of c]
    by (simp add: show_int_def del: show_nat.simps)
qed (simp_all add: json_quote_def)

lemma parse_literals:
  "parse_literal ''null'' JNull (''null'' @ rest) = Some (JNull, rest)"
  "parse_literal ''true'' (JBool True) (''true'' @ rest) = Some (JBool True, rest)"
  "parse_literal ''false'' (JBool False) (''false'' @ rest) = Some (JBool False, rest)"
  by (simp_all add: parse_literal_def)

lemma parse_json_num:
  assumes "0 < n" "rest = [] \<or> \<not> is_digit (hd rest)"
  shows "parse_json n (show_int i @ rest) = Some (JNum i, rest)"
proof -
  obtain m where n: "n = Suc m" using assms(1) by (cases n) auto
  show ?thesis
  proof (cases "i < 0")
    case True
    then show ?thesis
      unfolding n show_int_def
      by (simp add: parse_digits_show_nat[OF assms(2)] del: show_nat.simps)
  next
    case False
    obtain c cs where s: "show_nat (nat i) = c # cs" and d: "is_digit c" using show_nat_hd by blast
    have p: "parse_digits (c # cs @ rest) = Some (nat i, rest)"
      using parse_digits_show_nat[OF assms(2), of "nat i"] s by (simp del: show_nat.simps)
    from False show ?thesis
      unfolding n show_int_def
      using is_digit_chars[OF d] d p s by (simp del: show_nat.simps)
  qed
qed

lemma parse_json_str:
  assumes "0 < n"
  shows "parse_json n (json_quote s @ rest) = Some (JStr s, rest)"
proof -
  obtain m where n: "n = Suc m" using assms(1) by (cases n) auto
  show ?thesis unfolding n json_quote_def
    by (simp add: parse_string_body_quote)
qed

lemma parse_elems_join:
  assumes ih: "\<And>x n rest. x \<in> set xs \<Longrightarrow> length (ref_stringify x) < n \<Longrightarrow>
                 rest = [] \<or> \<not> is_digit (hd rest) \<Longrightarrow>
                 parse_json n (ref_stringify x @ rest) = Some (x, rest)"
    and ne: "xs \<noteq> []"
    and fuel: "length (join_comma (map ref_stringify xs)) + 1 < n"
  shows "parse_elems n (join_comma (map ref_stringify xs) @ CHR '']'' # rest) = Some (xs, rest)"
  using ih ne fuel
proof (induction xs arbitrary: n)
  case Nil
  then show ?case by simp
next
  case (Cons x xs)
  obtain m where n: "n = Suc m" using Cons.prems(3) by (cases n) auto
  have len1: "1 \<le> length (ref_stringify x)" using stringify_hd[of x] by (cases "ref_stringify x") auto
  show ?case
  proof (cases "xs = []")
    case True
    have f: "length (ref_stringify x) < m" using Cons.prems(3) True n by simp
    have "parse_json m (ref_stringify x @ CHR '']'' # rest) = Some (x, CHR '']'' # rest)"
      by (rule Cons.prems(1)) (simp_all add: f not_digit_seps)
    then show ?thesis unfolding n using True by simp
  next
    case False
    let ?J = "join_comma (map ref_stringify xs)"
    have j: "join_comma (map ref_stringify (x # xs)) = ref_stringify x @ CHR '','' # ?J"
      using False by (simp add: join_comma_Cons)
    have f: "length (ref_stringify x) < m" using Cons.prems(3) n unfolding j by simp
    have f2: "length ?J + 1 < m" using Cons.prems(3) n len1 unfolding j by simp
    have a: "parse_json m (ref_stringify x @ CHR '','' # ?J @ CHR '']'' # rest) =
               Some (x, CHR '','' # ?J @ CHR '']'' # rest)"
      by (rule Cons.prems(1)) (simp_all add: f not_digit_seps)
    have b: "parse_elems m (?J @ CHR '']'' # rest) = Some (xs, rest)"
      by (rule Cons.IH) (use Cons.prems(1) False f2 in auto)
    show ?thesis unfolding n j using a b by simp
  qed
qed

lemma parse_members_join:
  assumes ih: "\<And>k x n rest. (k, x) \<in> set kvs \<Longrightarrow> length (ref_stringify x) < n \<Longrightarrow>
                 rest = [] \<or> \<not> is_digit (hd rest) \<Longrightarrow>
                 parse_json n (ref_stringify x @ rest) = Some (x, rest)"
    and ne: "kvs \<noteq> []"
    and fuel: "length (join_comma (map (\<lambda>(k, v). json_quote k @ '':'' @ ref_stringify v) kvs)) + 1 < n"
  shows "parse_members n (join_comma (map (\<lambda>(k, v). json_quote k @ '':'' @ ref_stringify v) kvs) @ CHR ''}'' # rest)
           = Some (kvs, rest)"
  using ih ne fuel
proof (induction kvs arbitrary: n)
  case Nil
  then show ?case by simp
next
  case (Cons kv kvs)
  obtain k x where kv: "kv = (k, x)" by (cases kv)
  obtain m where n: "n = Suc m" using Cons.prems(3) by (cases n) auto
  let ?f = "\<lambda>(k, v). json_quote k @ '':'' @ ref_stringify v"
  let ?esc = "concat (map (\<lambda>c. if c = CHR 0x22 \<or> c = CHR 0x5C then [CHR 0x5C, c] else [c]) k)"
  have q: "json_quote k = CHR 0x22 # ?esc @ [CHR 0x22]" by (simp add: json_quote_def)
  have ihx: "length (ref_stringify x) < n' \<Longrightarrow> rest' = [] \<or> \<not> is_digit (hd rest') \<Longrightarrow>
       parse_json n' (ref_stringify x @ rest') = Some (x, rest')" for n' rest'
    using Cons.prems(1)[of k x n' rest'] kv by simp
  show ?case
  proof (cases "kvs = []")
    case True
    have f: "length (ref_stringify x) < m" using Cons.prems(3) True n kv by (simp add: q)
    have a: "parse_json m (ref_stringify x @ CHR ''}'' # rest) = Some (x, CHR ''}'' # rest)"
      by (rule ihx) (simp_all add: f not_digit_seps)
    have sb: "parse_string_body (?esc @ CHR 0x22 # CHR '':'' # ref_stringify x @ CHR ''}'' # rest) =
        Some (k, CHR '':'' # ref_stringify x @ CHR ''}'' # rest)"
      by (rule parse_string_body_quote)
    show ?thesis unfolding n using True kv a sb by (simp add: q)
  next
    case False
    let ?J = "join_comma (map ?f kvs)"
    have j: "join_comma (map ?f (kv # kvs)) = json_quote k @ CHR '':'' # ref_stringify x @ CHR '','' # ?J"
      using False kv by (simp add: join_comma_Cons)
    have f: "length (ref_stringify x) < m" using Cons.prems(3) n unfolding j by (simp add: q)
    have f2: "length ?J + 1 < m" using Cons.prems(3) n unfolding j by (simp add: q)
    have a: "parse_json m (ref_stringify x @ CHR '','' # ?J @ CHR ''}'' # rest) =
               Some (x, CHR '','' # ?J @ CHR ''}'' # rest)"
      by (rule ihx) (simp_all add: f not_digit_seps)
    have b: "parse_members m (?J @ CHR ''}'' # rest) = Some (kvs, rest)"
      by (rule Cons.IH) (use Cons.prems(1) False f2 in auto)
    have sb: "parse_string_body (?esc @ CHR 0x22 # CHR '':'' # ref_stringify x @ CHR '','' # ?J @ CHR ''}'' # rest) =
        Some (k, CHR '':'' # ref_stringify x @ CHR '','' # ?J @ CHR ''}'' # rest)"
      by (rule parse_string_body_quote)
    show ?thesis unfolding n j using a b sb kv by (simp add: q)
  qed
qed

lemma parse_json_stringify:
  "length (ref_stringify v) < n \<Longrightarrow> rest = [] \<or> \<not> is_digit (hd rest) \<Longrightarrow>
   parse_json n (ref_stringify v @ rest) = Some (v, rest)"
proof (induction v arbitrary: n rest)
  case JNull
  then obtain m where "n = Suc m" by (cases n) auto
  then show ?case using parse_literals(1)[of rest] by simp
next
  case (JBool b)
  then obtain m where "n = Suc m" by (cases n) auto
  then show ?case using parse_literals(2,3)[of rest] by (cases b) simp_all
next
  case (JNum i)
  then show ?case using parse_json_num[of n rest i] by simp
next
  case (JStr s)
  then show ?case using parse_json_str[of n s rest] by simp
next
  case (JArr xs)
  obtain m where n: "n = Suc m" using JArr.prems(1) by (cases n) auto
  show ?case
  proof (cases "xs = []")
    case True
    then show ?thesis unfolding n by (simp add: not_digit_open)
  next
    case False
    let ?J = "join_comma (map ref_stringify xs)"
    have fuel: "length ?J + 1 < m" using JArr.prems(1) n by simp
    have e: "parse_elems m (?J @ CHR '']'' # rest) = Some (xs, rest)"
      by (rule parse_elems_join[OF _ False fuel]) (rule JArr.IH)
    obtain x xs' where xs: "xs = x # xs'" using False by (cases xs) auto
    obtain c cs where hd: "ref_stringify x = c # cs" "c \<noteq> CHR '']''"
      using stringify_hd[of x] by (cases "ref_stringify x") auto
    have "\<exists>d ds. ?J @ CHR '']'' # rest = d # ds \<and> d \<noteq> CHR '']''"
      using hd xs by (simp add: join_comma_Cons)
    then obtain d ds where dd: "?J @ CHR '']'' # rest = d # ds" "d \<noteq> CHR '']''" by blast
    show ?thesis unfolding n using e dd by (simp add: not_digit_open)
  qed
next
  case (JObj kvs)
  obtain m where n: "n = Suc m" using JObj.prems(1) by (cases n) auto
  show ?case
  proof (cases "kvs = []")
    case True
    then show ?thesis unfolding n by (simp add: not_digit_open)
  next
    case False
    let ?f = "\<lambda>(k, v). json_quote k @ '':'' @ ref_stringify v"
    let ?J = "join_comma (map ?f kvs)"
    have fuel: "length ?J + 1 < m" using JObj.prems(1) n by simp
    have e: "parse_members m (?J @ CHR ''}'' # rest) = Some (kvs, rest)"
    proof (rule parse_members_join[OF _ False fuel])
      fix k x n' rest'
      assume "(k, x) \<in> set kvs" "length (ref_stringify x) < n'" "rest' = [] \<or> \<not> is_digit (hd rest')"
      then show "parse_json n' (ref_stringify x @ rest') = Some (x, rest')"
        using JObj.IH[of "(k, x)" x n' rest'] by simp
    qed
    obtain kv kvs' where kvs: "kvs = kv # kvs'" using False by (cases kvs) auto
    have "\<exists>ds. ?J @ CHR ''}'' # rest = CHR 0x22 # ds"
      using kvs by (cases kv) (simp add: join_comma_Cons json_quote_def)
    then obtain ds where dd: "?J @ CHR ''}'' # rest = CHR 0x22 # ds" by blast
    show ?thesis unfolding n using e dd by (simp add: not_digit_open)
  qed
qed

lemma ref_roundtrip: "ref_parse (ref_stringify v) = Inr v"
  using parse_json_stringify[of v "Suc (length (ref_stringify v))" "[]"]
  by (simp add: ref_parse_def)

section \<open>Signing, then verifying\<close>

lemma split_on_no_sep: "c \<notin> set a \<Longrightarrow> split_on c a = [a]"
  by (induction a) auto

lemma split_on_append: "c \<notin> set a \<Longrightarrow> split_on c (a @ c # rest) = a # split_on c rest"
  by (induction a) auto

lemma base64urlEncode_no_dot: "CHR ''.'' \<notin> set (base64urlEncode bs)"
proof
  assume "CHR ''.'' \<in> set (base64urlEncode bs)"
  then obtain n where n: "n \<in> set (sextets bs)"
    and c: "CHR ''.'' = (if b64_char n = CHR ''/'' then CHR ''_'' else if b64_char n = CHR ''+'' then CHR ''-'' else b64_char n)"
    unfolding base64urlEncode_eq by auto
  from c b64_char_not_special(2)[OF sextets_lt_64[OF n]] show False
    by (auto split: if_splits)
qed

lemma split_token:
  "split_on CHR ''.'' (base64urlEncode a @ CHR ''.'' # base64urlEncode b @ CHR ''.'' # base64urlEncode c) =
     [base64urlEncode a, base64urlEncode b, base64urlEncode c]"
  using split_on_append[OF base64urlEncode_no_dot[of a]]
    split_on_append[OF base64urlEncode_no_dot[of b]]
    split_on_no_sep[OF base64urlEncode_no_dot[of c]]
  by simp

lemma createSignature_own:
  "map_of SUPPORTED_ALGS alg = Some nodeAlg \<Longrightarrow>
   createSignature P (Some (JStr alg)) secret input =
     Inr (base64urlEncode (hmac_digest P nodeAlg secret input))"
  by (simp add: createSignature_def to_string_or_undefined_def)

lemma in_SUPPORTED_ALGS_own: "map_of SUPPORTED_ALGS alg = Some nodeAlg \<Longrightarrow> in_SUPPORTED_ALGS alg"
  by (simp add: in_SUPPORTED_ALGS_def)

lemma sign_Inr:
  assumes "secret \<noteq> []"
    and "map_of SUPPORTED_ALGS (algorithm_or_default options) = Some nodeAlg"
    and "buildPayload wall payload options = Inr p"
  shows "sign P wall payload secret options =
     Inr (base64urlEncode (JSON_stringify P (JObj (buildHeader (algorithm_or_default options) options))) @ ''.'' @
          base64urlEncode (JSON_stringify P (JObj p)) @ ''.'' @
          base64urlEncode (hmac_digest P nodeAlg secret
            (base64urlEncode (JSON_stringify P (JObj (buildHeader (algorithm_or_default options) options))) @ ''.'' @
             base64urlEncode (JSON_stringify P (JObj p)))))"
  using assms
  by (simp add: sign_def Let_def in_SUPPORTED_ALGS_own createSignature_own)

lemma parseJwtToken_encoded:
  assumes "JSON_parse P (JSON_stringify P h) = Inr h"
    and "JSON_parse P (JSON_stringify P p) = Inr p"
  shows "parseJwtToken P (base64urlEncode (JSON_stringify P h) @ ''.'' @
           base64urlEncode (JSON_stringify P p) @ ''.'' @ base64urlEncode sg) =
     Inr \<lparr>encodedHeader = base64urlEncode (JSON_stringify P h),
          encodedPayload = base64urlEncode (JSON_stringify P p),
          signature = base64urlEncode sg, jwt_header = h, jwt_payload = p\<rparr>"
  using assms
  by (simp add: parseJwtToken_def split_token safeJsonParse_def base64url_roundtrip)

lemma timingSafeEqualStr_refl: "timingSafeEqualStr a a"
  by (simp add: timingSafeEqualStr_def timingSafeEqual_def)

text \<open>What verify does with a token that sign made.\<close>

lemma verify_sign:
  assumes sec: "secret \<noteq> []"
    and alg: "map_of SUPPORTED_ALGS (algorithm_or_default sopts) = Some nodeAlg"
    and bp: "buildPayload wall payload sopts = Inr p"
    and hdr: "map_of (buildHeader (algorithm_or_default sopts) sopts) ''alg'' = Some (JStr (algorithm_or_default sopts))"
    and jh: "JSON_parse P (JSON_stringify P (JObj (buildHeader (algorithm_or_default sopts) sopts))) =
               Inr (JObj (buildHeader (algorithm_or_default sopts) sopts))"
    and jp: "JSON_parse P (JSON_stringify P (JObj p)) = Inr (JObj p)"
    and tok: "sign P wall payload secret sopts = Inr tok"
  shows "verify P wall' tok secret vopts =
     (if (case algorithms vopts of Some allowed \<Rightarrow> algorithm_or_default sopts \<notin> set allowed | None \<Rightarrow> False)
      then Inl (JsonWebTokenError (''Invalid algorithm: '' @ algorithm_or_default sopts))
      else (case validateTimeClaims wall' (JObj p) vopts of
              Inl e \<Rightarrow> Inl e
            | Inr _ \<Rightarrow>
                (case validateStandardClaims (JObj p) vopts of
                   Inl e \<Rightarrow> Inl e
                 | Inr _ \<Rightarrow> Inr (JObj p))))"
proof -
  let ?a = "algorithm_or_default sopts"
  let ?h = "JObj (buildHeader ?a sopts)"
  let ?eh = "base64urlEncode (JSON_stringify P ?h)"
  let ?ep = "base64urlEncode (JSON_stringify P (JObj p))"
  let ?sg = "hmac_digest P nodeAlg secret (?eh @ ''.'' @ ?ep)"
  have t: "tok = ?eh @ ''.'' @ ?ep @ ''.'' @ base64urlEncode ?sg"
    using sign_Inr[OF sec alg bp, of P] tok by simp
  have pj: "parseJwtToken P tok = Inr \<lparr>encodedHeader = ?eh, encodedPayload = ?ep,
          signature = base64urlEncode ?sg, jwt_header = ?h, jwt_payload = JObj p\<rparr>"
    unfolding t by (rule parseJwtToken_encoded[OF jh jp])
  have inc: "includes_str allowed (Some (JStr ?a)) = (?a \<in> set allowed)" for allowed
    by (simp add: includes_str_def)
  show ?thesis
    unfolding verify_def
    by (simp add: sec pj hdr in_SUPPORTED_ALGS_own[OF alg] createSignature_own[OF alg]
        timingSafeEqualStr_refl to_string_or_undefined_def inc split: option.splits sum.splits)
qed

lemma map_of_obj_set: "map_of (obj_set obj k v) k' = (if k' = k then Some v else map_of obj k')"
  by (induction obj) auto

lemma map_of_obj_assign:
  "k \<notin> fst ` set src \<Longrightarrow> map_of (obj_assign tgt src) k = map_of tgt k"
  unfolding obj_assign_def
  by (induction src arbitrary: tgt) (auto simp: map_of_obj_set)

lemma buildHeader_alg:
  assumes "header options = None \<or> (\<exists>h. header options = Some h \<and> ''alg'' \<notin> fst ` set h)"
  shows "map_of (buildHeader a options) ''alg'' = Some (JStr a)"
proof -
  have "map_of (obj_assign [(''alg'', JStr a), (''typ'', JStr ''JWT'')]
          (case header options of Some h \<Rightarrow> h | None \<Rightarrow> [])) ''alg'' = Some (JStr a)"
    using assms by (auto simp: map_of_obj_assign)
  then show ?thesis
    by (simp add: buildHeader_def set_if_str_def map_of_obj_set split: option.splits)
qed

lemma SUPPORTED_ALGS_three:
  "a \<in> {''HS256'', ''HS384'', ''HS512''} \<Longrightarrow> \<exists>nodeAlg. map_of SUPPORTED_ALGS a = Some nodeAlg"
  by (auto simp: SUPPORTED_ALGS_def)

lemma sign_then_verify_eq:
  assumes sec: "secret \<noteq> []"
    and alg: "algorithm_or_default sopts \<in> {''HS256'', ''HS384'', ''HS512''}"
    and hdr: "header sopts = None \<or> (\<exists>h. header sopts = Some h \<and> ''alg'' \<notin> fst ` set h)"
    and bp: "buildPayload wall payload sopts = Inr p"
    and jh: "JSON_parse P (JSON_stringify P (JObj (buildHeader (algorithm_or_default sopts) sopts))) =
               Inr (JObj (buildHeader (algorithm_or_default sopts) sopts))"
    and jp: "JSON_parse P (JSON_stringify P (JObj p)) = Inr (JObj p)"
  shows "sign_then_verify P wall payload secret sopts wall' vopts =
     (if (case algorithms vopts of Some allowed \<Rightarrow> algorithm_or_default sopts \<notin> set allowed | None \<Rightarrow> False)
      then Inl (JsonWebTokenError (''Invalid algorithm: '' @ algorithm_or_default sopts))
      else (case validateTimeClaims wall' (JObj p) vopts of
              Inl e \<Rightarrow> Inl e
            | Inr _ \<Rightarrow>
                (case validateStandardClaims (JObj p) vopts of
                   Inl e \<Rightarrow> Inl e
                 | Inr _ \<Rightarrow> Inr (JObj p))))"
proof -
  obtain nodeAlg where a: "map_of SUPPORTED_ALGS (algorithm_or_default sopts) = Some nodeAlg"
    using SUPPORTED_ALGS_three[OF alg] by blast
  obtain tok where t: "sign P wall payload secret sopts = Inr tok"
    using sign_Inr[OF sec a bp, of P] by blast
  show ?thesis
    unfolding sign_then_verify_def t
    using verify_sign[OF sec a bp buildHeader_alg[OF hdr] jh jp t, of wall' vopts] by simp
qed

section \<open>Round trip, algorithm allow-list and expiry\<close>

lemma ref_JSON_roundtrip: "JSON_parse ref_platform (JSON_stringify ref_platform v) = Inr v"
  by (simp add: ref_platform_def ref_roundtrip)

lemma scenario_algorithm: "algorithm_or_default scenario_sign_options = ''HS256''"
  by (simp add: algorithm_or_default_def scenario_sign_options_def no_sign_options_def)

lemma scenario_header: "header scenario_sign_options = None"
  by (simp add: scenario_sign_options_def no_sign_options_def)

lemma parse_1h: "parseTimespan (Str ''1h'') = Inr 3600"
  by (simp add: re_digits_def re_amount_unit_def is_digit_def parseInt10_def digit_val_def)

lemma scenario_payload:
  "buildPayload wall [(''userId'', JNum 123)] scenario_sign_options =
     Inr [(''userId'', JNum 123), (''iss'', JStr ''svc''), (''iat'', JNum wall), (''exp'', JNum (wall + 3600))]"
  by (simp add: buildPayload_def scenario_sign_options_def no_sign_options_def set_if_str_def
      truthy_str_or_strs_def set_time_claim_def truthy_num_or_str_def parse_1h Let_def
      del: parseTimespan.simps)

lemma scenario_time_claims:
  "validateTimeClaims wall'
     (JObj [(''userId'', JNum 123), (''iss'', JStr ''svc''), (''iat'', JNum wall), (''exp'', JNum (wall + 3600))])
     scenario_verify_options =
   (if wall' \<ge> wall + 3600 then Inl (TokenExpiredError ''jwt expired'' (new_Date ((wall + 3600) * 1000))) else Inr ())"
  by (simp add: validateTimeClaims_def scenario_verify_options_def no_verify_options_def
      check_nbf_def check_exp_def check_maxAge_def)

lemma scenario_standard_claims:
  "validateStandardClaims
     (JObj [(''userId'', JNum 123), (''iss'', JStr ''svc''), (''iat'', JNum wall), (''exp'', JNum (wall + 3600))])
     scenario_verify_options = Inr ()"
  by (simp add: validateStandardClaims_def scenario_verify_options_def no_verify_options_def
      check_issuer_def check_subject_def check_audience_def truthy_str_or_strs_def includes_str_def)

lemma map_of_set_if_str:
  "map_of (set_if_str v k obj) k' =
     (if k' = k \<and> truthy_str v then map_option JStr v else map_of obj k')"
  by (auto simp: set_if_str_def truthy_str_def map_of_obj_set split: option.splits)

lemma set_time_claim_other:
  "set_time_claim now span k obj = Inr p \<Longrightarrow> k' \<noteq> k \<Longrightarrow> map_of p k' = map_of obj k'"
  by (auto simp: set_time_claim_def map_of_obj_set split: option.splits if_splits sum.splits)

lemma set_time_claim_falsy:
  "set_time_claim now span k obj = Inr p \<Longrightarrow> \<not> truthy_num_or_str span \<Longrightarrow> p = obj"
  by (auto simp: set_time_claim_def truthy_num_or_str_def split: option.splits if_splits sum.splits)

lemma set_time_claim_truthy:
  "set_time_claim now span k obj = Inr p \<Longrightarrow> truthy_num_or_str span \<Longrightarrow>
   \<exists>x d. span = Some x \<and> parseTimespan x = Inr d \<and> map_of p k = Some (JNum (now + d))"
  by (cases span)
    (auto simp: set_time_claim_def map_of_obj_set truthy_num_or_str_def
      split: if_splits sum.splits simp del: parseTimespan.simps)

lemma buildPayload_Inr:
  assumes "buildPayload wall payload sopts = Inr p"
  shows "\<exists>p5 p6.
    (\<forall>k. map_of p5 k =
      (if k = ''iat'' \<and> \<not> noTimestamp sopts \<and> map_of payload ''iat'' = None
       then Some (JNum (case sign_clockTimestamp sopts of Some t \<Rightarrow> t | None \<Rightarrow> wall))
       else if k = ''jti'' \<and> truthy_str (jwtid sopts) then map_option JStr (jwtid sopts)
       else if k = ''aud'' \<and> truthy_str_or_strs (sign_audience sopts)
         then map_option to_json (sign_audience sopts)
       else if k = ''sub'' \<and> truthy_str (sign_subject sopts) then map_option JStr (sign_subject sopts)
       else if k = ''iss'' \<and> truthy_str (sign_issuer sopts) then map_option JStr (sign_issuer sopts)
       else map_of payload k)) \<and>
    set_time_claim (case sign_clockTimestamp sopts of Some t \<Rightarrow> t | None \<Rightarrow> wall)
      (expiresIn sopts) ''exp'' p5 = Inr p6 \<and>
    set_time_claim (case sign_clockTimestamp sopts of Some t \<Rightarrow> t | None \<Rightarrow> wall)
      (notBefore sopts) ''nbf'' p6 = Inr p"
proof -
  define now where "now = (case sign_clockTimestamp sopts of Some t \<Rightarrow> t | None \<Rightarrow> wall)"
  define p2 where "p2 = set_if_str (sign_subject sopts) ''sub'' (set_if_str (sign_issuer sopts) ''iss'' payload)"
  define p3 where "p3 = (if truthy_str_or_strs (sign_audience sopts)
                then (case sign_audience sopts of
                        Some a \<Rightarrow> obj_set p2 ''aud'' (to_json a) | None \<Rightarrow> p2)
                else p2)"
  define p4 where "p4 = set_if_str (jwtid sopts) ''jti'' p3"
  define p5 where "p5 = (if \<not> noTimestamp sopts \<and> map_of p4 ''iat'' = None
                then obj_set p4 ''iat'' (JNum now) else p4)"
  have m2: "map_of p2 k =
      (if k = ''sub'' \<and> truthy_str (sign_subject sopts) then map_option JStr (sign_subject sopts)
       else if k = ''iss'' \<and> truthy_str (sign_issuer sopts) then map_option JStr (sign_issuer sopts)
       else map_of payload k)" for k
    unfolding p2_def by (simp only: map_of_set_if_str)
  have m3: "map_of p3 k =
      (if k = ''aud'' \<and> truthy_str_or_strs (sign_audience sopts)
       then map_option to_json (sign_audience sopts) else map_of p2 k)" for k
    unfolding p3_def by (auto simp: map_of_obj_set truthy_str_or_strs_def split: option.splits)
  have m4: "map_of p4 k =
      (if k = ''jti'' \<and> truthy_str (jwtid sopts) then map_option JStr (jwtid sopts)
       else if k = ''aud'' \<and> truthy_str_or_strs (sign_audience sopts)
         then map_option to_json (sign_audience sopts)
       else if k = ''sub'' \<and> truthy_str (sign_subject sopts) then map_option JStr (sign_subject sopts)
       else if k = ''iss'' \<and> truthy_str (sign_issuer sopts) then map_option JStr (sign_issuer sopts)
       else map_of payload k)" for k
    unfolding p4_def by (simp only: map_of_set_if_str m3 m2)
  have iat: "map_of p4 ''iat'' = map_of payload ''iat''"
    by (simp add: m4)
  have m5a: "map_of p5 k =
      (if k = ''iat'' \<and> \<not> noTimestamp sopts \<and> map_of payload ''iat'' = None
       then Some (JNum now) else map_of p4 k)" for k
    unfolding p5_def iat by (simp add: map_of_obj_set)
  have m5: "map_of p5 k =
      (if k = ''iat'' \<and> \<not> noTimestamp sopts \<and> map_of payload ''iat'' = None
       then Some (JNum now)
       else if k = ''jti'' \<and> truthy_str (jwtid sopts) then map_option JStr (jwtid sopts)
       else if k = ''aud'' \<and> truthy_str_or_strs (sign_audience sopts)
         then map_option to_json (sign_audience sopts)
       else if k = ''sub'' \<and> truthy_str (sign_subject sopts) then map_option JStr (sign_subject sopts)
       else if k = ''iss'' \<and> truthy_str (sign_issuer sopts) then map_option JStr (sign_issuer sopts)
       else map_of payload k)" for k
    by (simp only: m5a m4)
  have bp: "buildPayload wall payload sopts =
      (case set_time_claim now (expiresIn sopts) ''exp'' p5 of
           Inl e \<Rightarrow> Inl e
         | Inr p6 \<Rightarrow> set_time_claim now (notBefore sopts) ''nbf'' p6)"
    unfolding buildPayload_def Let_def p5_def p4_def p3_def p2_def now_def by (rule refl)
  from assms obtain p6 where
    e: "set_time_claim now (expiresIn sopts) ''exp'' p5 = Inr p6" and
    n: "set_time_claim now (notBefore sopts) ''nbf'' p6 = Inr p"
    unfolding bp by (auto split: sum.splits)
  from m5 e n show ?thesis unfolding now_def by blast
qed


text \<open>
  C1, as amended. Let \<open>sign\<close> run with a non-empty secret, one of the algorithms HS256,
  HS384, HS512 and a \<open>header\<close> option that does not redefine \<open>alg\<close>, let it build the
  payload \<open>p\<close>, and let \<open>JSON.parse\<close> invert \<open>JSON.stringify\<close> on the header and on
  \<open>p\<close>. Then \<open>verify\<close> with the same secret fails with "Invalid algorithm" when the
  verifier's allow-list does not hold the algorithm; otherwise it fails with the error
  of the time claim checks on \<open>p\<close> at the verifier's clock when they fail, otherwise
  with the error of the standard claim checks when they fail, and otherwise it returns
  exactly \<open>p\<close>. The payload \<open>p\<close> is the caller's payload with these claims set, on top
  of the caller's own: \<open>iss\<close>, \<open>sub\<close>, \<open>aud\<close>, \<open>jti\<close> from the options that are given
  and not empty; \<open>iat\<close>, the signer's clock \<open>now\<close>, unless \<open>noTimestamp\<close> is set or
  the caller's payload has an \<open>iat\<close>; \<open>exp\<close> and \<open>nbf\<close>, \<open>now\<close> plus the parsed
  \<open>expiresIn\<close> and \<open>notBefore\<close> when these are given and not \<open>0\<close> or empty; every
  other claim is the caller's. All this is for clocks, tolerance, \<open>maxAge\<close> and time
  claims \<open>iat\<close>, \<open>nbf\<close>, \<open>exp\<close> of \<open>p\<close> that are \<open>date_seconds\<close>, where the model's
  sums and comparisons are the code's. In the scenario (\<open>{userId: 123}\<close>, secret \<open>s3cret\<close>,
  HS256, \<open>expiresIn: "1h"\<close>, \<open>issuer: "svc"\<close>, verified with \<open>algorithms: ["HS256"]\<close>,
  \<open>issuer: "svc"\<close>), with the signer's clock \<open>wall\<close> an instant that a \<open>Date\<close> can
  hold, the verifier returns \<open>userId: 123\<close>, \<open>iss: "svc"\<close>, \<open>iat = wall\<close> and
  \<open>exp = iat + 3600\<close> when its clock is before \<open>wall + 3600\<close>, and fails with
  "jwt expired" from then on.
\<close>

theorem sign_verify_roundtrip:
  "(secret \<noteq> [] \<and>
    algorithm_or_default sopts \<in> {''HS256'', ''HS384'', ''HS512''} \<and>
    (header sopts = None \<or> (\<exists>h. header sopts = Some h \<and> ''alg'' \<notin> fst ` set h)) \<and>
    buildPayload wall payload sopts = Inr p \<and>
    JSON_parse P (JSON_stringify P (JObj (buildHeader (algorithm_or_default sopts) sopts))) =
      Inr (JObj (buildHeader (algorithm_or_default sopts) sopts)) \<and>
    JSON_parse P (JSON_stringify P (JObj p)) = Inr (JObj p) \<and>
    now = (case sign_clockTimestamp sopts of Some t \<Rightarrow> t | None \<Rightarrow> wall) \<and>
    date_seconds now \<and>
    date_seconds (case clockTimestamp vopts of Some t \<Rightarrow> t | None \<Rightarrow> wall') \<and>
    date_seconds (case clockTolerance vopts of Some t \<Rightarrow> t | None \<Rightarrow> 0) \<and>
    (\<forall>c n. c \<in> {''iat'', ''nbf'', ''exp''} \<and> map_of p c = Some (JNum n) \<longrightarrow> date_seconds n) \<and>
    (\<forall>m d. maxAge vopts = Some m \<and> parseTimespan m = Inr d \<longrightarrow> date_seconds d)
    \<longrightarrow>
      sign_then_verify P wall payload secret sopts wall' vopts =
        (if \<exists>allowed. algorithms vopts = Some allowed \<and> algorithm_or_default sopts \<notin> set allowed
         then Inl (JsonWebTokenError (''Invalid algorithm: '' @ algorithm_or_default sopts))
         else (case validateTimeClaims wall' (JObj p) vopts of
                 Inl e \<Rightarrow> Inl e
               | Inr _ \<Rightarrow>
                   (case validateStandardClaims (JObj p) vopts of
                      Inl e \<Rightarrow> Inl e
                    | Inr _ \<Rightarrow> Inr (JObj p)))) \<and>
      ((algorithms vopts = None \<or>
        (\<exists>allowed. algorithms vopts = Some allowed \<and> algorithm_or_default sopts \<in> set allowed)) \<and>
       validateTimeClaims wall' (JObj p) vopts = Inr () \<and>
       validateStandardClaims (JObj p) vopts = Inr ()
       \<longrightarrow> sign_then_verify P wall payload secret sopts wall' vopts = Inr (JObj p)) \<and>
      (k \<noteq> ''exp'' \<and> k \<noteq> ''nbf'' \<longrightarrow>
         map_of p k =
           (if k = ''iat'' \<and> \<not> noTimestamp sopts \<and> map_of payload ''iat'' = None
            then Some (JNum now)
            else if k = ''jti'' \<and> truthy_str (jwtid sopts) then map_option JStr (jwtid sopts)
            else if k = ''aud'' \<and> truthy_str_or_strs (sign_audience sopts)
              then map_option to_json (sign_audience sopts)
            else if k = ''sub'' \<and> truthy_str (sign_subject sopts)
              then map_option JStr (sign_subject sopts)
            else if k = ''iss'' \<and> truthy_str (sign_issuer sopts)
              then map_option JStr (sign_issuer sopts)
            else map_of payload k)) \<and>
      (if truthy_num_or_str (expiresIn sopts)
       then \<exists>x d. expiresIn sopts = Some x \<and> parseTimespan x = Inr d \<and>
              map_of p ''exp'' = Some (JNum (now + d))
       else map_of p ''exp'' = map_of payload ''exp'') \<and>
      (if truthy_num_or_str (notBefore sopts)
       then \<exists>x d. notBefore sopts = Some x \<and> parseTimespan x = Inr d \<and>
              map_of p ''nbf'' = Some (JNum (now + d))
       else map_of p ''nbf'' = map_of payload ''nbf'')) \<and>
   (JSON_parse P (JSON_stringify P (JObj [(''alg'', JStr ''HS256''), (''typ'', JStr ''JWT'')])) =
      Inr (JObj [(''alg'', JStr ''HS256''), (''typ'', JStr ''JWT'')]) \<and>
    JSON_parse P (JSON_stringify P (JObj [(''userId'', JNum 123), (''iss'', JStr ''svc''),
        (''iat'', JNum wall), (''exp'', JNum (wall + 3600))])) =
      Inr (JObj [(''userId'', JNum 123), (''iss'', JStr ''svc''),
        (''iat'', JNum wall), (''exp'', JNum (wall + 3600))]) \<and>
    date_seconds wall
    \<longrightarrow> sign_then_verify P wall [(''userId'', JNum 123)] ''s3cret'' scenario_sign_options
          wall' scenario_verify_options =
        (if wall' < wall + 3600
         then Inr (JObj [(''userId'', JNum 123), (''iss'', JStr ''svc''),
                (''iat'', JNum wall), (''exp'', JNum (wall + 3600))])
         else Inl (TokenExpiredError ''jwt expired'' (new_Date ((wall + 3600) * 1000)))))"
proof (intro conjI impI)
  assume a: "secret \<noteq> [] \<and>
    algorithm_or_default sopts \<in> {''HS256'', ''HS384'', ''HS512''} \<and>
    (header sopts = None \<or> (\<exists>h. header sopts = Some h \<and> ''alg'' \<notin> fst ` set h)) \<and>
    buildPayload wall payload sopts = Inr p \<and>
    JSON_parse P (JSON_stringify P (JObj (buildHeader (algorithm_or_default sopts) sopts))) =
      Inr (JObj (buildHeader (algorithm_or_default sopts) sopts)) \<and>
    JSON_parse P (JSON_stringify P (JObj p)) = Inr (JObj p) \<and>
    now = (case sign_clockTimestamp sopts of Some t \<Rightarrow> t | None \<Rightarrow> wall) \<and>
    date_seconds now \<and>
    date_seconds (case clockTimestamp vopts of Some t \<Rightarrow> t | None \<Rightarrow> wall') \<and>
    date_seconds (case clockTolerance vopts of Some t \<Rightarrow> t | None \<Rightarrow> 0) \<and>
    (\<forall>c n. c \<in> {''iat'', ''nbf'', ''exp''} \<and> map_of p c = Some (JNum n) \<longrightarrow> date_seconds n) \<and>
    (\<forall>m d. maxAge vopts = Some m \<and> parseTimespan m = Inr d \<longrightarrow> date_seconds d)"
  then have e0: "sign_then_verify P wall payload secret sopts wall' vopts =
     (if (case algorithms vopts of Some allowed \<Rightarrow> algorithm_or_default sopts \<notin> set allowed | None \<Rightarrow> False)
      then Inl (JsonWebTokenError (''Invalid algorithm: '' @ algorithm_or_default sopts))
      else (case validateTimeClaims wall' (JObj p) vopts of
              Inl e \<Rightarrow> Inl e
            | Inr _ \<Rightarrow>
                (case validateStandardClaims (JObj p) vopts of
                   Inl e \<Rightarrow> Inl e
                 | Inr _ \<Rightarrow> Inr (JObj p))))"
    by (intro sign_then_verify_eq) simp_all
  have al: "(case algorithms vopts of Some allowed \<Rightarrow> algorithm_or_default sopts \<notin> set allowed | None \<Rightarrow> False) =
      (\<exists>allowed. algorithms vopts = Some allowed \<and> algorithm_or_default sopts \<notin> set allowed)"
    by (cases "algorithms vopts") simp_all
  show e: "sign_then_verify P wall payload secret sopts wall' vopts =
        (if \<exists>allowed. algorithms vopts = Some allowed \<and> algorithm_or_default sopts \<notin> set allowed
         then Inl (JsonWebTokenError (''Invalid algorithm: '' @ algorithm_or_default sopts))
         else (case validateTimeClaims wall' (JObj p) vopts of
                 Inl e \<Rightarrow> Inl e
               | Inr _ \<Rightarrow>
                   (case validateStandardClaims (JObj p) vopts of
                      Inl e \<Rightarrow> Inl e
                    | Inr _ \<Rightarrow> Inr (JObj p))))"
    unfolding e0 al by (rule refl)
  {
    assume b: "(algorithms vopts = None \<or>
        (\<exists>allowed. algorithms vopts = Some allowed \<and> algorithm_or_default sopts \<in> set allowed)) \<and>
       validateTimeClaims wall' (JObj p) vopts = Inr () \<and>
       validateStandardClaims (JObj p) vopts = Inr ()"
    then have "\<not> (\<exists>allowed. algorithms vopts = Some allowed \<and> algorithm_or_default sopts \<notin> set allowed)"
      by auto
    with b show "sign_then_verify P wall payload secret sopts wall' vopts = Inr (JObj p)"
      unfolding e by simp
  }
  from a have bp: "buildPayload wall payload sopts = Inr p"
    and now: "now = (case sign_clockTimestamp sopts of Some t \<Rightarrow> t | None \<Rightarrow> wall)" by simp_all
  from buildPayload_Inr[OF bp] obtain p5 p6 where
    m5: "\<And>k. map_of p5 k =
      (if k = ''iat'' \<and> \<not> noTimestamp sopts \<and> map_of payload ''iat'' = None
       then Some (JNum now)
       else if k = ''jti'' \<and> truthy_str (jwtid sopts) then map_option JStr (jwtid sopts)
       else if k = ''aud'' \<and> truthy_str_or_strs (sign_audience sopts)
         then map_option to_json (sign_audience sopts)
       else if k = ''sub'' \<and> truthy_str (sign_subject sopts) then map_option JStr (sign_subject sopts)
       else if k = ''iss'' \<and> truthy_str (sign_issuer sopts) then map_option JStr (sign_issuer sopts)
       else map_of payload k)"
    and ex: "set_time_claim now (expiresIn sopts) ''exp'' p5 = Inr p6"
    and nb: "set_time_claim now (notBefore sopts) ''nbf'' p6 = Inr p"
    unfolding now by blast
  {
    assume k: "k \<noteq> ''exp'' \<and> k \<noteq> ''nbf''"
    then have "map_of p k = map_of p5 k"
      using set_time_claim_other[OF nb, of k] set_time_claim_other[OF ex, of k] by simp
    then show "map_of p k =
           (if k = ''iat'' \<and> \<not> noTimestamp sopts \<and> map_of payload ''iat'' = None
            then Some (JNum now)
            else if k = ''jti'' \<and> truthy_str (jwtid sopts) then map_option JStr (jwtid sopts)
            else if k = ''aud'' \<and> truthy_str_or_strs (sign_audience sopts)
              then map_option to_json (sign_audience sopts)
            else if k = ''sub'' \<and> truthy_str (sign_subject sopts)
              then map_option JStr (sign_subject sopts)
            else if k = ''iss'' \<and> truthy_str (sign_issuer sopts)
              then map_option JStr (sign_issuer sopts)
            else map_of payload k)"
      by (simp only: m5)
  }
  have pe: "map_of p ''exp'' = map_of p6 ''exp''"
    using set_time_claim_other[OF nb, of "''exp''"] by simp
  show "if truthy_num_or_str (expiresIn sopts)
       then \<exists>x d. expiresIn sopts = Some x \<and> parseTimespan x = Inr d \<and>
              map_of p ''exp'' = Some (JNum (now + d))
       else map_of p ''exp'' = map_of payload ''exp''"
  proof (cases "truthy_num_or_str (expiresIn sopts)")
    case True
    from set_time_claim_truthy[OF ex True] show ?thesis
      unfolding pe using True by (auto simp del: parseTimespan.simps)
  next
    case False
    from set_time_claim_falsy[OF ex False] have "p6 = p5" .
    then show ?thesis unfolding pe using False by (simp add: m5)
  qed
  show "if truthy_num_or_str (notBefore sopts)
       then \<exists>x d. notBefore sopts = Some x \<and> parseTimespan x = Inr d \<and>
              map_of p ''nbf'' = Some (JNum (now + d))
       else map_of p ''nbf'' = map_of payload ''nbf''"
  proof (cases "truthy_num_or_str (notBefore sopts)")
    case True
    from set_time_claim_truthy[OF nb True] show ?thesis
      using True by (auto simp del: parseTimespan.simps)
  next
    case False
    from set_time_claim_falsy[OF nb False] have "p = p6" .
    then have "map_of p ''nbf'' = map_of p5 ''nbf''"
      using set_time_claim_other[OF ex, of "''nbf''"] by simp
    then show ?thesis using False by (simp add: m5)
  qed
next
  let ?p = "[(''userId'', JNum 123), (''iss'', JStr ''svc''), (''iat'', JNum wall), (''exp'', JNum (wall + 3600))]"
  assume s: "JSON_parse P (JSON_stringify P (JObj [(''alg'', JStr ''HS256''), (''typ'', JStr ''JWT'')])) =
      Inr (JObj [(''alg'', JStr ''HS256''), (''typ'', JStr ''JWT'')]) \<and>
    JSON_parse P (JSON_stringify P (JObj ?p)) = Inr (JObj ?p) \<and> date_seconds wall"
  have h: "buildHeader ''HS256'' scenario_sign_options = [(''alg'', JStr ''HS256''), (''typ'', JStr ''JWT'')]"
    by (simp add: buildHeader_def scenario_sign_options_def no_sign_options_def set_if_str_def obj_assign_def)
  have e: "sign_then_verify P wall [(''userId'', JNum 123)] ''s3cret'' scenario_sign_options wall' scenario_verify_options =
     (if (case algorithms scenario_verify_options of Some allowed \<Rightarrow> algorithm_or_default scenario_sign_options \<notin> set allowed | None \<Rightarrow> False)
      then Inl (JsonWebTokenError (''Invalid algorithm: '' @ algorithm_or_default scenario_sign_options))
      else (case validateTimeClaims wall' (JObj ?p) scenario_verify_options of
              Inl e \<Rightarrow> Inl e
            | Inr _ \<Rightarrow>
                (case validateStandardClaims (JObj ?p) scenario_verify_options of
                   Inl e \<Rightarrow> Inl e
                 | Inr _ \<Rightarrow> Inr (JObj ?p))))"
    using s by (intro sign_then_verify_eq) (simp_all add: scenario_algorithm scenario_header scenario_payload h)
  have al: "algorithms scenario_verify_options = Some [''HS256'']"
    by (simp add: scenario_verify_options_def no_verify_options_def)
  show "sign_then_verify P wall [(''userId'', JNum 123)] ''s3cret'' scenario_sign_options
          wall' scenario_verify_options =
        (if wall' < wall + 3600
         then Inr (JObj ?p)
         else Inl (TokenExpiredError ''jwt expired'' (new_Date ((wall + 3600) * 1000))))"
    unfolding e by (simp add: al scenario_algorithm scenario_time_claims scenario_standard_claims)
qed


lemma verify_correctly_signed:
  assumes "correctly_signed P token secret options t"
  shows "verify P wall token secret options =
     (case validateTimeClaims wall (jwt_payload t) options of
        Inl e \<Rightarrow> Inl e
      | Inr _ \<Rightarrow>
          (case validateStandardClaims (jwt_payload t) options of
             Inl e \<Rightarrow> Inl e
           | Inr _ \<Rightarrow> Inr (jwt_payload t)))"
  using assms unfolding correctly_signed_def verify_def
  by (auto split: sum.splits option.splits)

lemma correctly_signed_sign:
  assumes sec: "secret \<noteq> []"
    and alg: "map_of SUPPORTED_ALGS (algorithm_or_default sopts) = Some nodeAlg"
    and bp: "buildPayload wall payload sopts = Inr p"
    and hdr: "map_of (buildHeader (algorithm_or_default sopts) sopts) ''alg'' = Some (JStr (algorithm_or_default sopts))"
    and jh: "JSON_parse P (JSON_stringify P (JObj (buildHeader (algorithm_or_default sopts) sopts))) =
               Inr (JObj (buildHeader (algorithm_or_default sopts) sopts))"
    and jp: "JSON_parse P (JSON_stringify P (JObj p)) = Inr (JObj p)"
    and tok: "sign P wall payload secret sopts = Inr tok"
    and allow: "algorithms vopts = None \<or> (\<exists>allowed. algorithms vopts = Some allowed \<and> algorithm_or_default sopts \<in> set allowed)"
  shows "\<exists>t. correctly_signed P tok secret vopts t \<and>
              jwt_header t = JObj (buildHeader (algorithm_or_default sopts) sopts) \<and>
              jwt_payload t = JObj p"
proof -
  let ?a = "algorithm_or_default sopts"
  let ?h = "JObj (buildHeader ?a sopts)"
  let ?eh = "base64urlEncode (JSON_stringify P ?h)"
  let ?ep = "base64urlEncode (JSON_stringify P (JObj p))"
  let ?sg = "hmac_digest P nodeAlg secret (?eh @ ''.'' @ ?ep)"
  let ?t = "\<lparr>encodedHeader = ?eh, encodedPayload = ?ep,
          signature = base64urlEncode ?sg, jwt_header = ?h, jwt_payload = JObj p\<rparr>"
  have t: "tok = ?eh @ ''.'' @ ?ep @ ''.'' @ base64urlEncode ?sg"
    using sign_Inr[OF sec alg bp, of P] tok by simp
  have pj: "parseJwtToken P tok = Inr ?t"
    unfolding t by (rule parseJwtToken_encoded[OF jh jp])
  have "correctly_signed P tok secret vopts ?t"
    unfolding correctly_signed_def
    using allow
    by (auto simp add: sec pj hdr in_SUPPORTED_ALGS_own[OF alg] createSignature_own[OF alg]
        timingSafeEqualStr_refl to_string_or_undefined_def includes_str_def)
  then show ?thesis by (intro exI[of _ ?t]) simp
qed

lemma scenario_header_obj:
  "buildHeader ''HS256'' scenario_sign_options = [(''alg'', JStr ''HS256''), (''typ'', JStr ''JWT'')]"
  by (simp add: buildHeader_def scenario_sign_options_def no_sign_options_def set_if_str_def obj_assign_def)

lemma scenario_alg_own: "map_of SUPPORTED_ALGS (algorithm_or_default scenario_sign_options) = Some ''sha256''"
  by (simp add: scenario_algorithm SUPPORTED_ALGS_def)

lemma scenario_token_signed:
  "sign ref_platform wall [(''userId'', JNum 123)] ''s3cret'' scenario_sign_options = Inr (scenario_token wall)"
proof -
  have "\<exists>tok. sign ref_platform wall [(''userId'', JNum 123)] ''s3cret'' scenario_sign_options = Inr tok"
    using sign_Inr[OF _ scenario_alg_own scenario_payload, of "''s3cret''" ref_platform wall] by simp
  then show ?thesis by (auto simp: scenario_token_def)
qed

lemma scenario_token_correct:
  assumes "algorithms vopts = None \<or> (\<exists>allowed. algorithms vopts = Some allowed \<and> ''HS256'' \<in> set allowed)"
  shows "\<exists>t. correctly_signed ref_platform (scenario_token wall) ''s3cret'' vopts t \<and>
              jwt_header t = JObj [(''alg'', JStr ''HS256''), (''typ'', JStr ''JWT'')] \<and>
              jwt_payload t = JObj [(''userId'', JNum 123), (''iss'', JStr ''svc''),
                (''iat'', JNum wall), (''exp'', JNum (wall + 3600))]"
proof -
  have h: "map_of (buildHeader (algorithm_or_default scenario_sign_options) scenario_sign_options) ''alg'' =
      Some (JStr (algorithm_or_default scenario_sign_options))"
    by (simp add: scenario_algorithm scenario_header_obj)
  have a: "algorithms vopts = None \<or> (\<exists>allowed. algorithms vopts = Some allowed \<and>
      algorithm_or_default scenario_sign_options \<in> set allowed)"
    using assms by (simp add: scenario_algorithm)
  from correctly_signed_sign[where secret="''s3cret''", OF _ scenario_alg_own scenario_payload h
      ref_JSON_roundtrip ref_JSON_roundtrip scenario_token_signed a]
  show ?thesis by (simp add: scenario_algorithm scenario_header_obj)
qed

lemma parse_2h: "parseTimespan (Str ''2h'') = Inr 7200"
  by (simp add: re_digits_def re_amount_unit_def is_digit_def parseInt10_def digit_val_def)

lemma default_alg_own: "map_of SUPPORTED_ALGS ''HS256'' = Some ''sha256''"
  by (simp add: SUPPORTED_ALGS_def)

text \<open>C1, witness: on the reference platform, \<open>{role: "admin"}\<close> signed at clock 1000
  with HS512 and every claim option: verified at 2000 it comes back with all the injected
  claims, at 5000 it has expired, and a verifier that allows HS256 only refuses it; and the
  scenario, verified 1000 seconds after signing.\<close>

theorem sign_verify_roundtrip_witness:
  "sign_then_verify ref_platform 1000 [(''role'', JStr ''admin'')] ''k'' full_sign_options
     2000 full_verify_options = Inr (JObj full_payload) \<and>
   sign_then_verify ref_platform 1000 [(''role'', JStr ''admin'')] ''k'' full_sign_options
     5000 full_verify_options = Inl (TokenExpiredError ''jwt expired'' (Some 4600000)) \<and>
   sign_then_verify ref_platform 1000 [(''role'', JStr ''admin'')] ''k'' full_sign_options
     2000 (full_verify_options\<lparr>algorithms := Some [''HS256'']\<rparr>) =
     Inl (JsonWebTokenError ''Invalid algorithm: HS512'') \<and>
   sign_then_verify ref_platform 1000 [(''userId'', JNum 123)] ''s3cret'' scenario_sign_options
     2000 scenario_verify_options =
     Inr (JObj [(''userId'', JNum 123), (''iss'', JStr ''svc''), (''iat'', JNum 1000), (''exp'', JNum 4600)])"
proof -
  let ?pl = "[(''role'', JStr ''admin'')]"
  let ?v2 = "full_verify_options\<lparr>algorithms := Some [''HS256'']\<rparr>"
  have a: "algorithm_or_default full_sign_options = ''HS512''"
    by (simp add: algorithm_or_default_def full_sign_options_def no_sign_options_def)
  have h: "header full_sign_options = None" by (simp add: full_sign_options_def no_sign_options_def)
  have c: "sign_clockTimestamp full_sign_options = None"
    by (simp add: full_sign_options_def no_sign_options_def)
  have pn: "parseTimespan (Num 10) = Inr 10" by simp
  have bp: "buildPayload 1000 ?pl full_sign_options = Inr full_payload"
    by (simp add: buildPayload_def full_sign_options_def no_sign_options_def set_if_str_def
        truthy_str_or_strs_def set_time_claim_def truthy_num_or_str_def parse_1h pn Let_def
        full_payload_def del: parseTimespan.simps)
  have tc: "validateTimeClaims 2000 (JObj full_payload) full_verify_options = Inr ()"
    "validateTimeClaims 2000 (JObj full_payload) ?v2 = Inr ()"
    "validateTimeClaims 5000 (JObj full_payload) full_verify_options =
       Inl (TokenExpiredError ''jwt expired'' (Some 4600000))"
    by (simp_all add: validateTimeClaims_def full_verify_options_def no_verify_options_def
        check_nbf_def check_exp_def check_maxAge_def full_payload_def new_Date_def)
  have sc: "validateStandardClaims (JObj full_payload) full_verify_options = Inr ()"
    by (simp add: validateStandardClaims_def full_verify_options_def no_verify_options_def
        check_issuer_def check_subject_def check_audience_def truthy_str_or_strs_def
        includes_str_def full_payload_def)
  have al: "algorithms full_verify_options = Some [''HS512'']" "algorithms ?v2 = Some [''HS256'']"
    by (simp_all add: full_verify_options_def no_verify_options_def)
  have ds: "date_seconds 1000" "date_seconds 2000" "date_seconds 5000" "date_seconds 0"
    by (simp_all add: date_seconds_def)
  have tr: "\<forall>c n. c \<in> {''iat'', ''nbf'', ''exp''} \<and> map_of full_payload c = Some (JNum n) \<longrightarrow>
      date_seconds n"
    by (auto simp: full_payload_def date_seconds_def)
  have vo: "clockTimestamp v = None \<and> clockTolerance v = None \<and> maxAge v = None"
    if "v = full_verify_options \<or> v = ?v2" for v
    using that by (auto simp: full_verify_options_def no_verify_options_def)
  have H: "''k'' \<noteq> [] \<and>
    algorithm_or_default full_sign_options \<in> {''HS256'', ''HS384'', ''HS512''} \<and>
    (header full_sign_options = None \<or> (\<exists>h. header full_sign_options = Some h \<and> ''alg'' \<notin> fst ` set h)) \<and>
    buildPayload 1000 ?pl full_sign_options = Inr full_payload \<and>
    JSON_parse ref_platform (JSON_stringify ref_platform
        (JObj (buildHeader (algorithm_or_default full_sign_options) full_sign_options))) =
      Inr (JObj (buildHeader (algorithm_or_default full_sign_options) full_sign_options)) \<and>
    JSON_parse ref_platform (JSON_stringify ref_platform (JObj full_payload)) = Inr (JObj full_payload) \<and>
    (1000::int) = (case sign_clockTimestamp full_sign_options of Some t \<Rightarrow> t | None \<Rightarrow> 1000) \<and>
    date_seconds 1000 \<and>
    date_seconds (case clockTimestamp v of Some t \<Rightarrow> t | None \<Rightarrow> w) \<and>
    date_seconds (case clockTolerance v of Some t \<Rightarrow> t | None \<Rightarrow> 0) \<and>
    (\<forall>c n. c \<in> {''iat'', ''nbf'', ''exp''} \<and> map_of full_payload c = Some (JNum n) \<longrightarrow>
       date_seconds n) \<and>
    (\<forall>m d. maxAge v = Some m \<and> parseTimespan m = Inr d \<longrightarrow> date_seconds d)"
    if "v = full_verify_options \<or> v = ?v2" "w = 2000 \<or> w = 5000" for v w
    using vo[OF that(1)] that(2) tr ds by (auto simp add: a h c bp ref_JSON_roundtrip)
  note t = sign_verify_roundtrip[where secret="''k''" and sopts=full_sign_options and wall=1000
        and payload="?pl" and p=full_payload and P=ref_platform and now=1000 and k="''iss''"]
  have g1: "sign_then_verify ref_platform 1000 ?pl ''k'' full_sign_options 2000 full_verify_options =
      Inr (JObj full_payload)"
    using t[where vopts=full_verify_options and wall'=2000, THEN conjunct1, rule_format,
        OF H[of full_verify_options 2000], THEN conjunct2, THEN conjunct1, rule_format]
    by (simp add: a al tc sc)
  have g2: "sign_then_verify ref_platform 1000 ?pl ''k'' full_sign_options 5000 full_verify_options =
      Inl (TokenExpiredError ''jwt expired'' (Some 4600000))"
    using t[where vopts=full_verify_options and wall'=5000, THEN conjunct1, rule_format,
        OF H[of full_verify_options 5000], THEN conjunct1]
    by (simp add: a al tc)
  have g3: "sign_then_verify ref_platform 1000 ?pl ''k'' full_sign_options 2000 ?v2 =
      Inl (JsonWebTokenError ''Invalid algorithm: HS512'')"
    using t[where vopts="?v2" and wall'=2000, THEN conjunct1, rule_format,
        OF H[of "?v2" 2000], THEN conjunct1]
    by (simp add: a al)
  have g5: "sign_then_verify ref_platform 1000 [(''userId'', JNum 123)] ''s3cret'' scenario_sign_options
     2000 scenario_verify_options =
     Inr (JObj [(''userId'', JNum 123), (''iss'', JStr ''svc''), (''iat'', JNum 1000), (''exp'', JNum 4600)])"
    using t[where vopts=full_verify_options and wall'=2000, THEN conjunct2] ref_JSON_roundtrip ds
    by simp
  from g1 g2 g3 g5 show ?thesis by simp
qed

text \<open>C1, counterexample: a payload that already carries \<open>exp = 500\<close>, signed at clock
  1000 and verified at once with the same secret, is refused as expired.\<close>

theorem sign_verify_expired_payload:
  "sign_then_verify ref_platform 1000 [(''exp'', JNum 500)] ''s3cret''
     (no_sign_options\<lparr>algorithm := Some ''HS256''\<rparr>) 1000 no_verify_options =
     Inl (TokenExpiredError ''jwt expired'' (Some 500000))"
proof -
  let ?s = "no_sign_options\<lparr>algorithm := Some ''HS256''\<rparr>"
  let ?p = "[(''exp'', JNum 500), (''iat'', JNum 1000)]"
  have a: "algorithm_or_default ?s = ''HS256''"
    by (simp add: algorithm_or_default_def no_sign_options_def)
  have h: "header ?s = None" by (simp add: no_sign_options_def)
  have bp: "buildPayload 1000 [(''exp'', JNum 500)] ?s = Inr ?p"
    by (simp add: buildPayload_def no_sign_options_def set_if_str_def truthy_str_or_strs_def
        set_time_claim_def Let_def)
  have tc: "validateTimeClaims 1000 (JObj ?p) no_verify_options = Inl (TokenExpiredError ''jwt expired'' (Some 500000))"
    by (simp add: validateTimeClaims_def no_verify_options_def check_nbf_def check_exp_def check_maxAge_def
        new_Date_def)
  have al: "algorithms no_verify_options = None" by (simp add: no_verify_options_def)
  have "sign_then_verify ref_platform 1000 [(''exp'', JNum 500)] ''s3cret'' ?s 1000 no_verify_options =
     (if (case algorithms no_verify_options of Some allowed \<Rightarrow> algorithm_or_default ?s \<notin> set allowed | None \<Rightarrow> False)
      then Inl (JsonWebTokenError (''Invalid algorithm: '' @ algorithm_or_default ?s))
      else (case validateTimeClaims 1000 (JObj ?p) no_verify_options of
              Inl e \<Rightarrow> Inl e
            | Inr _ \<Rightarrow>
                (case validateStandardClaims (JObj ?p) no_verify_options of
                   Inl e \<Rightarrow> Inl e
                 | Inr _ \<Rightarrow> Inr (JObj ?p))))"
    by (rule sign_then_verify_eq) (simp_all add: a h bp ref_JSON_roundtrip)
  then show ?thesis by (simp add: al tc)
qed

text \<open>
  C2. A token correctly signed with HS256 under \<open>secret\<close> (it passes the structure, the
  algorithm and the signature checks of \<open>verify\<close> when no allow-list is given, and its
  header declares \<open>alg = "HS256"\<close>) is refused by \<open>verify\<close> with the same secret and the
  allow-list \<open>["HS384"]\<close>: the result is the error "Invalid algorithm: HS256", never a
  payload, whatever the other options and the clock. This holds in particular for every
  token that \<open>sign\<close> produces with HS256.
\<close>

theorem algorithm_confusion_rejected:
  "(correctly_signed P token secret (vopts\<lparr>algorithms := None\<rparr>) t \<and>
    get_prop (jwt_header t) ''alg'' = Inr (Some (JStr ''HS256''))
    \<longrightarrow> verify P wall token secret (vopts\<lparr>algorithms := Some [''HS384'']\<rparr>) =
          Inl (JsonWebTokenError ''Invalid algorithm: HS256'')) \<and>
   (secret \<noteq> [] \<and> algorithm_or_default sopts = ''HS256'' \<and>
    (header sopts = None \<or> (\<exists>h. header sopts = Some h \<and> ''alg'' \<notin> fst ` set h)) \<and>
    buildPayload wall payload sopts = Inr p \<and>
    JSON_parse P (JSON_stringify P (JObj (buildHeader ''HS256'' sopts))) =
      Inr (JObj (buildHeader ''HS256'' sopts)) \<and>
    JSON_parse P (JSON_stringify P (JObj p)) = Inr (JObj p)
    \<longrightarrow> sign_then_verify P wall payload secret sopts wall'
          (vopts\<lparr>algorithms := Some [''HS384'']\<rparr>) =
          Inl (JsonWebTokenError ''Invalid algorithm: HS256''))"
proof (intro conjI impI)
  assume a: "correctly_signed P token secret (vopts\<lparr>algorithms := None\<rparr>) t \<and>
    get_prop (jwt_header t) ''alg'' = Inr (Some (JStr ''HS256''))"
  then have "secret \<noteq> []" "parseJwtToken P token = Inr t"
    by (simp_all add: correctly_signed_def)
  with a show "verify P wall token secret (vopts\<lparr>algorithms := Some [''HS384'']\<rparr>) =
          Inl (JsonWebTokenError ''Invalid algorithm: HS256'')"
    by (simp add: verify_def to_string_or_undefined_def in_SUPPORTED_ALGS_def SUPPORTED_ALGS_def
        includes_str_def)
next
  assume a: "secret \<noteq> [] \<and> algorithm_or_default sopts = ''HS256'' \<and>
    (header sopts = None \<or> (\<exists>h. header sopts = Some h \<and> ''alg'' \<notin> fst ` set h)) \<and>
    buildPayload wall payload sopts = Inr p \<and>
    JSON_parse P (JSON_stringify P (JObj (buildHeader ''HS256'' sopts))) =
      Inr (JObj (buildHeader ''HS256'' sopts)) \<and>
    JSON_parse P (JSON_stringify P (JObj p)) = Inr (JObj p)"
  let ?v = "vopts\<lparr>algorithms := Some [''HS384'']\<rparr>"
  have "sign_then_verify P wall payload secret sopts wall' ?v =
     (if (case algorithms ?v of Some allowed \<Rightarrow> algorithm_or_default sopts \<notin> set allowed | None \<Rightarrow> False)
      then Inl (JsonWebTokenError (''Invalid algorithm: '' @ algorithm_or_default sopts))
      else (case validateTimeClaims wall' (JObj p) ?v of
              Inl e \<Rightarrow> Inl e
            | Inr _ \<Rightarrow>
                (case validateStandardClaims (JObj p) ?v of
                   Inl e \<Rightarrow> Inl e
                 | Inr _ \<Rightarrow> Inr (JObj p))))"
    using a by (intro sign_then_verify_eq) simp_all
  with a show "sign_then_verify P wall payload secret sopts wall' ?v =
          Inl (JsonWebTokenError ''Invalid algorithm: HS256'')"
    by simp
qed

text \<open>C2, witness: the scenario's HS256 token on the reference platform.\<close>

theorem algorithm_confusion_rejected_witness:
  "verify ref_platform 2000 (scenario_token 1000) ''s3cret''
     (no_verify_options\<lparr>algorithms := Some [''HS384'']\<rparr>) =
     Inl (JsonWebTokenError ''Invalid algorithm: HS256'') \<and>
   sign_then_verify ref_platform 2000 [(''userId'', JNum 123)] ''s3cret'' scenario_sign_options 2000
     (no_verify_options\<lparr>algorithms := Some [''HS384'']\<rparr>) =
     Inl (JsonWebTokenError ''Invalid algorithm: HS256'')"
proof -
  obtain t where t: "correctly_signed ref_platform (scenario_token 1000) ''s3cret''
        (no_verify_options\<lparr>algorithms := None\<rparr>) t"
      "jwt_header t = JObj [(''alg'', JStr ''HS256''), (''typ'', JStr ''JWT'')]"
    using scenario_token_correct[of "no_verify_options\<lparr>algorithms := None\<rparr>" 1000] by auto
  have g: "get_prop (jwt_header t) ''alg'' = Inr (Some (JStr ''HS256''))"
    by (simp add: t(2))
  have h: "JSON_parse ref_platform (JSON_stringify ref_platform (JObj (buildHeader ''HS256'' scenario_sign_options))) =
      Inr (JObj (buildHeader ''HS256'' scenario_sign_options))"
    by (rule ref_JSON_roundtrip)
  from algorithm_confusion_rejected[where P=ref_platform and token="scenario_token 1000"
      and secret="''s3cret''" and vopts=no_verify_options and t=t and wall=2000
      and sopts=scenario_sign_options and payload="[(''userId'', JNum 123)]"
      and p="[(''userId'', JNum 123), (''iss'', JStr ''svc''), (''iat'', JNum 2000), (''exp'', JNum 5600)]"
      and wall'=2000]
    t(1) g h scenario_algorithm scenario_header scenario_payload[of 2000] ref_JSON_roundtrip
  show ?thesis by simp
qed




lemma check_nbf_ok:
  "get_prop payload ''nbf'' = Inr None \<or>
   (\<exists>n. get_prop payload ''nbf'' = Inr (Some (JNum n)) \<and> n \<le> now + tolerance) \<Longrightarrow>
   check_nbf payload now tolerance = Inr ()"
  by (auto simp: check_nbf_def)

lemma get_prop_error: "get_prop v k = Inl err \<Longrightarrow> \<exists>m. err = TypeError m"
  by (cases v) auto

lemma parseTimespan_error: "parseTimespan v = Inl err \<Longrightarrow> \<exists>m. err = TypeError m"
  by (cases v) (auto simp: Let_def split: if_splits option.splits)

lemma check_nbf_not_expired:
  "check_nbf payload now tolerance \<noteq> Inl (TokenExpiredError msg d)"
  by (auto simp: check_nbf_def split: sum.splits option.splits json.splits if_splits
      dest: get_prop_error)

lemma check_maxAge_not_jwt_expired:
  "check_maxAge payload m now tolerance \<noteq> Inl (TokenExpiredError ''jwt expired'' d)"
  by (auto simp: check_maxAge_def split: sum.splits option.splits json.splits if_splits
      dest: get_prop_error parseTimespan_error)

lemma check_issuer_not_expired: "check_issuer payload i \<noteq> Inl (TokenExpiredError msg d)"
  by (auto simp: check_issuer_def split: sum.splits option.splits if_splits dest: get_prop_error)

lemma check_subject_not_expired: "check_subject payload s \<noteq> Inl (TokenExpiredError msg d)"
  by (auto simp: check_subject_def split: sum.splits option.splits if_splits dest: get_prop_error)

lemma check_audience_not_expired: "check_audience payload a \<noteq> Inl (TokenExpiredError msg d)"
  by (auto simp: check_audience_def Let_def split: sum.splits option.splits if_splits dest: get_prop_error)

lemma validateStandardClaims_not_expired:
  "validateStandardClaims payload options \<noteq> Inl (TokenExpiredError msg d)"
  using check_issuer_not_expired[of payload "issuer options" msg d]
    check_subject_not_expired[of payload "subject options" msg d]
    check_audience_not_expired[of payload "audience options" msg d]
  by (auto simp: validateStandardClaims_def split: sum.splits)

lemma new_Date_seconds: "date_seconds e \<Longrightarrow> new_Date (e * 1000) = Some (e * 1000)"
  by (simp add: new_Date_def date_seconds_def abs_mult)

text \<open>
  C3, as amended. Take a correctly signed token whose payload has a numeric \<open>exp\<close>, an
  instant that a \<open>Date\<close> can hold (\<open>date_seconds\<close>: at most \<open>8.64 * 10^12\<close> seconds
  either side of the epoch, where \<open>exp * 1000\<close> and \<open>exp - 1\<close> are exact), and a clock
  tolerance of 0. With
  \<open>clockTimestamp = exp\<close>, \<open>verify\<close> fails with \<open>TokenExpiredError\<close> "jwt expired"
  whose date is the instant \<open>exp\<close> (in milliseconds, \<open>exp * 1000\<close>), provided the \<open>nbf\<close>
  check, which runs first, passes: \<open>nbf\<close> is absent or a number not greater than \<open>exp\<close>.
  With \<open>clockTimestamp = exp - 1\<close> the \<open>exp\<close> check passes and \<open>verify\<close> does not fail
  with "jwt expired", whatever the date; it returns the payload when \<open>nbf\<close> is absent or
  at most \<open>exp - 1\<close>, no \<open>maxAge\<close> is asked and the standard claims match.
\<close>

theorem expiry_boundary:
  "correctly_signed P token secret options t \<and>
   get_prop (jwt_payload t) ''exp'' = Inr (Some (JNum e)) \<and>
   date_seconds e \<and>
   (clockTolerance options = None \<or> clockTolerance options = Some 0)
   \<longrightarrow>
     (clockTimestamp options = Some e \<and>
      (get_prop (jwt_payload t) ''nbf'' = Inr None \<or>
       (\<exists>n. get_prop (jwt_payload t) ''nbf'' = Inr (Some (JNum n)) \<and> n \<le> e))
      \<longrightarrow> verify P wall token secret options =
            Inl (TokenExpiredError ''jwt expired'' (Some (e * 1000)))) \<and>
     (clockTimestamp options = Some (e - 1)
      \<longrightarrow> check_exp (jwt_payload t) (e - 1) 0 = Inr () \<and>
          (\<forall>d. verify P wall token secret options \<noteq> Inl (TokenExpiredError ''jwt expired'' d))) \<and>
     (clockTimestamp options = Some (e - 1) \<and>
      (get_prop (jwt_payload t) ''nbf'' = Inr None \<or>
       (\<exists>n. get_prop (jwt_payload t) ''nbf'' = Inr (Some (JNum n)) \<and> n \<le> e - 1)) \<and>
      maxAge options = None \<and> validateStandardClaims (jwt_payload t) options = Inr ()
      \<longrightarrow> verify P wall token secret options = Inr (jwt_payload t))"
proof (intro impI conjI allI)
  assume a: "correctly_signed P token secret options t \<and>
   get_prop (jwt_payload t) ''exp'' = Inr (Some (JNum e)) \<and>
   date_seconds e \<and>
   (clockTolerance options = None \<or> clockTolerance options = Some 0)"
  then have cs: "correctly_signed P token secret options t"
    and ex: "get_prop (jwt_payload t) ''exp'' = Inr (Some (JNum e))"
    and tol: "(case clockTolerance options of Some t \<Rightarrow> t | None \<Rightarrow> 0) = 0"
    and dt: "new_Date (e * 1000) = Some (e * 1000)"
    by (auto simp: new_Date_seconds)
  note v = verify_correctly_signed[OF cs, of wall]
  {
    assume b: "clockTimestamp options = Some e \<and>
      (get_prop (jwt_payload t) ''nbf'' = Inr None \<or>
       (\<exists>n. get_prop (jwt_payload t) ''nbf'' = Inr (Some (JNum n)) \<and> n \<le> e))"
    then have nbf: "check_nbf (jwt_payload t) e 0 = Inr ()"
      by (intro check_nbf_ok) simp
    have "validateTimeClaims wall (jwt_payload t) options =
        Inl (TokenExpiredError ''jwt expired'' (Some (e * 1000)))"
      using b nbf ex by (simp add: validateTimeClaims_def tol check_exp_def dt)
    then show "verify P wall token secret options =
        Inl (TokenExpiredError ''jwt expired'' (Some (e * 1000)))"
      unfolding v by simp
  }
  {
    assume b: "clockTimestamp options = Some (e - 1)"
    show ce: "check_exp (jwt_payload t) (e - 1) 0 = Inr ()"
      using ex by (simp add: check_exp_def)
    fix d
    have "validateTimeClaims wall (jwt_payload t) options \<noteq> Inl (TokenExpiredError ''jwt expired'' d)"
      using b ce check_nbf_not_expired[of "jwt_payload t" "e - 1" 0]
        check_maxAge_not_jwt_expired[of "jwt_payload t" "maxAge options" "e - 1" 0]
      by (auto simp add: validateTimeClaims_def tol Let_def split: sum.splits)
    then show "verify P wall token secret options \<noteq> Inl (TokenExpiredError ''jwt expired'' d)"
      unfolding v using validateStandardClaims_not_expired[of "jwt_payload t" options]
      by (auto split: sum.splits)
  }
  {
    assume b: "clockTimestamp options = Some (e - 1) \<and>
      (get_prop (jwt_payload t) ''nbf'' = Inr None \<or>
       (\<exists>n. get_prop (jwt_payload t) ''nbf'' = Inr (Some (JNum n)) \<and> n \<le> e - 1)) \<and>
      maxAge options = None \<and> validateStandardClaims (jwt_payload t) options = Inr ()"
    then have nbf: "check_nbf (jwt_payload t) (e - 1) 0 = Inr ()"
      by (intro check_nbf_ok) simp
    have "validateTimeClaims wall (jwt_payload t) options = Inr ()"
      using b nbf ex by (simp add: validateTimeClaims_def tol check_exp_def check_maxAge_def)
    with b show "verify P wall token secret options = Inr (jwt_payload t)"
      unfolding v by simp
  }
qed

text \<open>C3, witness: the scenario's token, signed at 1000 with \<open>exp = 4600\<close>, is refused
  at 4600 and accepted at 4599.\<close>

theorem expiry_boundary_witness:
  "verify ref_platform 0 (scenario_token 1000) ''s3cret''
     (scenario_verify_options\<lparr>clockTimestamp := Some 4600, clockTolerance := Some 0\<rparr>) =
     Inl (TokenExpiredError ''jwt expired'' (Some 4600000)) \<and>
   verify ref_platform 0 (scenario_token 1000) ''s3cret''
     (scenario_verify_options\<lparr>clockTimestamp := Some 4599, clockTolerance := Some 0\<rparr>) =
     Inr (JObj [(''userId'', JNum 123), (''iss'', JStr ''svc''), (''iat'', JNum 1000), (''exp'', JNum 4600)])"
proof -
  let ?p = "JObj [(''userId'', JNum 123), (''iss'', JStr ''svc''), (''iat'', JNum 1000), (''exp'', JNum 4600)]"
  let ?o1 = "scenario_verify_options\<lparr>clockTimestamp := Some 4600, clockTolerance := Some 0\<rparr>"
  let ?o2 = "scenario_verify_options\<lparr>clockTimestamp := Some 4599, clockTolerance := Some 0\<rparr>"
  have al: "algorithms ?o1 = Some [''HS256'']" "algorithms ?o2 = Some [''HS256'']"
    by (simp_all add: scenario_verify_options_def no_verify_options_def)
  obtain t1 where t1: "correctly_signed ref_platform (scenario_token 1000) ''s3cret'' ?o1 t1"
      "jwt_payload t1 = ?p"
    using scenario_token_correct[of ?o1 1000] al by auto
  obtain t2 where t2: "correctly_signed ref_platform (scenario_token 1000) ''s3cret'' ?o2 t2"
      "jwt_payload t2 = ?p"
    using scenario_token_correct[of ?o2 1000] al by auto
  have sc: "validateStandardClaims ?p ?o2 = Inr ()"
    by (simp add: validateStandardClaims_def scenario_verify_options_def no_verify_options_def
      check_issuer_def check_subject_def check_audience_def truthy_str_or_strs_def includes_str_def)
  have f: "clockTimestamp ?o1 = Some 4600" "clockTolerance ?o1 = Some 0"
    "clockTimestamp ?o2 = Some (4600 - 1)" "clockTolerance ?o2 = Some 0" "maxAge ?o2 = None"
    by (simp_all add: scenario_verify_options_def no_verify_options_def)
  have a: "verify ref_platform 0 (scenario_token 1000) ''s3cret'' ?o1 =
      Inl (TokenExpiredError ''jwt expired'' (Some 4600000))"
    using expiry_boundary[where P=ref_platform and token="scenario_token 1000" and secret="''s3cret''"
        and options="?o1" and t=t1 and e=4600 and wall=0] t1 f(1,2)
    by (simp add: date_seconds_def)
  have b: "verify ref_platform 0 (scenario_token 1000) ''s3cret'' ?o2 = Inr ?p"
    using expiry_boundary[where P=ref_platform and token="scenario_token 1000" and secret="''s3cret''"
        and options="?o2" and t=t2 and e=4600 and wall=0] t2 f(3,4,5) sc
    by (simp add: date_seconds_def)
  from a b show ?thesis by simp
qed

text \<open>C3, counterexample: a token signed with \<open>expiresIn: "1h"\<close> and
  \<open>notBefore: "2h"\<close> has \<open>exp = 4600\<close> and \<open>nbf = 8200\<close>; verified with
  \<open>clockTimestamp = exp\<close> and tolerance 0 it fails with \<open>NotBeforeError\<close>, not with an
  expiry error.\<close>

theorem expiry_boundary_nbf_first:
  "buildPayload 1000 []
     (no_sign_options\<lparr>expiresIn := Some (Str ''1h''), notBefore := Some (Str ''2h'')\<rparr>) =
     Inr [(''iat'', JNum 1000), (''exp'', JNum 4600), (''nbf'', JNum 8200)] \<and>
   sign_then_verify ref_platform 1000 [] ''s3cret''
     (no_sign_options\<lparr>expiresIn := Some (Str ''1h''), notBefore := Some (Str ''2h'')\<rparr>) 4600
     (no_verify_options\<lparr>clockTimestamp := Some 4600, clockTolerance := Some 0\<rparr>) =
     Inl (NotBeforeError ''jwt not active'' (Some 8200000))"
proof -
  let ?s = "no_sign_options\<lparr>expiresIn := Some (Str ''1h''), notBefore := Some (Str ''2h'')\<rparr>"
  let ?v = "no_verify_options\<lparr>clockTimestamp := Some 4600, clockTolerance := Some 0\<rparr>"
  let ?p = "[(''iat'', JNum 1000), (''exp'', JNum 4600), (''nbf'', JNum 8200)]"
  have a: "algorithm_or_default ?s = ''HS256''"
    by (simp add: algorithm_or_default_def no_sign_options_def)
  have h: "header ?s = None" by (simp add: no_sign_options_def)
  have bp: "buildPayload 1000 [] ?s = Inr ?p"
    by (simp add: buildPayload_def no_sign_options_def set_if_str_def truthy_str_or_strs_def
        set_time_claim_def truthy_num_or_str_def parse_1h parse_2h Let_def del: parseTimespan.simps)
  have tc: "validateTimeClaims 4600 (JObj ?p) ?v = Inl (NotBeforeError ''jwt not active'' (Some 8200000))"
    by (simp add: validateTimeClaims_def no_verify_options_def check_nbf_def new_Date_def)
  have al: "algorithms ?v = None" by (simp add: no_verify_options_def)
  have "sign_then_verify ref_platform 1000 [] ''s3cret'' ?s 4600 ?v =
     (if (case algorithms ?v of Some allowed \<Rightarrow> algorithm_or_default ?s \<notin> set allowed | None \<Rightarrow> False)
      then Inl (JsonWebTokenError (''Invalid algorithm: '' @ algorithm_or_default ?s))
      else (case validateTimeClaims 4600 (JObj ?p) ?v of
              Inl e \<Rightarrow> Inl e
            | Inr _ \<Rightarrow>
                (case validateStandardClaims (JObj ?p) ?v of
                   Inl e \<Rightarrow> Inl e
                 | Inr _ \<Rightarrow> Inr (JObj ?p))))"
    by (rule sign_then_verify_eq) (simp_all add: a h bp ref_JSON_roundtrip)
  then show ?thesis by (simp add: al tc bp)
qed

section \<open>The decoder reads every string\<close>

lemma unbase64_unurl:
  "unbase64 (if c = CHR ''_'' then CHR ''/'' else if c = CHR ''-'' then CHR ''+'' else c) = unbase64 c"
  by (simp add: unbase64_def)

lemma unbase64_pad: "unbase64 CHR ''='' = None"
  by (simp add: unbase64_def)

lemma map_filter_unbase64_unurl:
  "List.map_filter unbase64
     (map (\<lambda>c. if c = CHR ''_'' then CHR ''/'' else if c = CHR ''-'' then CHR ''+'' else c) xs) =
   List.map_filter unbase64 xs"
  by (induction xs)
    (simp_all add: List.map_filter_simps unbase64_unurl del: if_split cong: if_cong split: option.splits)

lemma takeWhile_unurl:
  "takeWhile (\<lambda>c. c \<noteq> CHR ''='')
     (map (\<lambda>c. if c = CHR ''_'' then CHR ''/'' else if c = CHR ''-'' then CHR ''+'' else c) xs) =
   map (\<lambda>c. if c = CHR ''_'' then CHR ''/'' else if c = CHR ''-'' then CHR ''+'' else c)
     (takeWhile (\<lambda>c. c \<noteq> CHR ''='') xs)"
  by (induction xs) auto

lemma base64urlDecode_sextets:
  "base64urlDecode s =
     decode_sextets (List.map_filter unbase64 (takeWhile (\<lambda>c. c \<noteq> CHR ''='') s))"
  by (simp only: base64urlDecode_eq takeWhile_unurl map_filter_unbase64_unurl)

lemma map_filter_filter_Some:
  "List.map_filter f (filter (\<lambda>c. f c \<noteq> None) xs) = List.map_filter f xs"
  by (induction xs) (auto simp: List.map_filter_simps)

lemma takeWhile_idem_filter:
  "takeWhile (\<lambda>c. c \<noteq> x) (filter Q (takeWhile (\<lambda>c. c \<noteq> x) xs)) = filter Q (takeWhile (\<lambda>c. c \<noteq> x) xs)"
proof -
  have "\<forall>c \<in> set (filter Q (takeWhile (\<lambda>c. c \<noteq> x) xs)). c \<noteq> x"
    by (auto dest: set_takeWhileD)
  then show ?thesis by (simp only: takeWhile_eq_all_conv)
qed

lemma decode_sextets_lone:
  "length xs mod 4 = 0 \<Longrightarrow> decode_sextets (xs @ [x]) = decode_sextets xs"
proof (induction xs rule: decode_sextets.induct)
  case (1 s1 s2 s3 s4 rest)
  then show ?case by simp
qed simp_all

lemma base64url_alphabet_ranges:
  "base64url_alphabet =
     map char_of [65..<91::nat] @ map char_of [97..<123::nat] @ map char_of [48..<58::nat] @ ''-_''"
  by code_simp

lemma char_in_range:
  "a \<le> (of_char c :: nat) \<Longrightarrow> (of_char c :: nat) < b \<Longrightarrow> c \<in> set (map char_of [a..<b])"
proof -
  assume "a \<le> (of_char c :: nat)" "(of_char c :: nat) < b"
  then have "(of_char c :: nat) \<in> set [a..<b]" by simp
  then have "char_of (of_char c :: nat) \<in> char_of ` set [a..<b]" by (rule imageI)
  then show ?thesis by (simp only: set_map char_of_char)
qed

lemma range_char_code:
  "c \<in> set (map char_of [a..<b::nat]) \<Longrightarrow> b \<le> 256 \<Longrightarrow> a \<le> (of_char c :: nat) \<and> (of_char c :: nat) < b"
  by auto

lemma unbase64_alphabet:
  "unbase64 c \<noteq> None \<longleftrightarrow> c \<in> set base64url_alphabet \<or> c = CHR ''+'' \<or> c = CHR ''/''"
proof
  assume "unbase64 c \<noteq> None"
  then consider "65 \<le> (of_char c :: nat) \<and> (of_char c :: nat) < 91"
    | "97 \<le> (of_char c :: nat) \<and> (of_char c :: nat) < 123"
    | "48 \<le> (of_char c :: nat) \<and> (of_char c :: nat) < 58"
    | "c = CHR ''+'' \<or> c = CHR ''-'' \<or> c = CHR ''/'' \<or> c = CHR ''_''"
    unfolding unbase64_def Let_def by (auto split: if_splits)
  then show "c \<in> set base64url_alphabet \<or> c = CHR ''+'' \<or> c = CHR ''/''"
  proof cases
    case 1
    then have "c \<in> set (map char_of [65..<91::nat])" by (intro char_in_range) simp_all
    then show ?thesis unfolding base64url_alphabet_ranges by (simp only: set_append Un_iff simp_thms)
  next
    case 2
    then have "c \<in> set (map char_of [97..<123::nat])" by (intro char_in_range) simp_all
    then show ?thesis unfolding base64url_alphabet_ranges by (simp only: set_append Un_iff simp_thms)
  next
    case 3
    then have "c \<in> set (map char_of [48..<58::nat])" by (intro char_in_range) simp_all
    then show ?thesis unfolding base64url_alphabet_ranges by (simp only: set_append Un_iff simp_thms)
  next
    case 4
    then show ?thesis unfolding base64url_alphabet_ranges by auto
  qed
next
  assume "c \<in> set base64url_alphabet \<or> c = CHR ''+'' \<or> c = CHR ''/''"
  then consider "c \<in> set (map char_of [65..<91::nat])" | "c \<in> set (map char_of [97..<123::nat])"
    | "c \<in> set (map char_of [48..<58::nat])"
    | "c = CHR ''+'' \<or> c = CHR ''-'' \<or> c = CHR ''/'' \<or> c = CHR ''_''"
    unfolding base64url_alphabet_ranges by (auto simp only: set_append Un_iff set_simps insert_iff empty_iff)
  then show "unbase64 c \<noteq> None"
  proof cases
    case 1
    from range_char_code[OF this] show ?thesis by (simp add: unbase64_def)
  next
    case 2
    from range_char_code[OF this] show ?thesis by (simp add: unbase64_def)
  next
    case 3
    from range_char_code[OF this] show ?thesis by (simp add: unbase64_def)
  next
    case 4
    then show ?thesis by (auto simp: unbase64_def)
  qed
qed


lemma length_decode_sextets: "length (decode_sextets xs) = (3 * length xs) div 4"
  by (induction xs rule: decode_sextets.induct) simp_all

lemma length_map_filter:
  "length (List.map_filter f xs) = length (filter (\<lambda>c. f c \<noteq> None) xs)"
  by (induction xs) (auto simp: List.map_filter_simps split: option.splits)

lemma unbase64_std:
  "unbase64 (if c = CHR ''+'' then CHR ''-'' else if c = CHR ''/'' then CHR ''_'' else c) = unbase64 c"
  by (simp add: unbase64_def)

lemma map_filter_unbase64_std:
  "List.map_filter unbase64
     (map (\<lambda>c. if c = CHR ''+'' then CHR ''-'' else if c = CHR ''/'' then CHR ''_'' else c) xs) =
   List.map_filter unbase64 xs"
  by (induction xs)
    (simp_all add: List.map_filter_simps unbase64_std del: if_split cong: if_cong split: option.splits)

lemma takeWhile_std:
  "takeWhile (\<lambda>c. c \<noteq> CHR ''='')
     (map (\<lambda>c. if c = CHR ''+'' then CHR ''-'' else if c = CHR ''/'' then CHR ''_'' else c) xs) =
   map (\<lambda>c. if c = CHR ''+'' then CHR ''-'' else if c = CHR ''/'' then CHR ''_'' else c)
     (takeWhile (\<lambda>c. c \<noteq> CHR ''='') xs)"
  by (induction xs) auto

text \<open>
  C8, as amended. \<open>base64urlDecode\<close> has no decode error: for every string it returns
  a byte sequence. It inverts \<open>base64urlEncode\<close>. On any string it reads the characters
  of the base64url alphabet and, as the same sextets as \<open>-\<close> and \<open>_\<close>, the \<open>+\<close> and
  \<open>/\<close> of standard base64; it skips every other character and ignores everything from
  the first \<open>=\<close> on. For \<open>k\<close> characters read it returns the whole part of \<open>3k/4\<close>
  bytes, so a lone character after complete groups of four, whose padded length is not
  a valid base64 length, adds no byte.
\<close>

theorem base64urlDecode_decodes_every_string:
  "base64urlDecode (base64urlEncode buf) = buf \<and>
   base64urlDecode s =
     base64urlDecode
       (filter (\<lambda>c. c \<in> set base64url_alphabet \<or> c = CHR ''+'' \<or> c = CHR ''/'')
          (takeWhile (\<lambda>c. c \<noteq> CHR ''='') s)) \<and>
   length (base64urlDecode s) =
     (3 * length (filter (\<lambda>c. c \<in> set base64url_alphabet \<or> c = CHR ''+'' \<or> c = CHR ''/'')
                    (takeWhile (\<lambda>c. c \<noteq> CHR ''='') s))) div 4 \<and>
   base64urlDecode
     (map (\<lambda>c. if c = CHR ''+'' then CHR ''-'' else if c = CHR ''/'' then CHR ''_'' else c) s) =
     base64urlDecode s \<and>
   (list_all (\<lambda>c. c \<in> set base64url_alphabet) s \<and> length s mod 4 = 0 \<longrightarrow>
      base64urlDecode (s @ [c]) = base64urlDecode s)"
proof (intro conjI impI)
  show "base64urlDecode (base64urlEncode buf) = buf" by (rule base64url_roundtrip)
next
  have "base64urlDecode (filter (\<lambda>c. unbase64 c \<noteq> None) (takeWhile (\<lambda>c. c \<noteq> CHR ''='') s)) =
     base64urlDecode s"
    by (simp only: base64urlDecode_sextets takeWhile_idem_filter map_filter_filter_Some)
  then show "base64urlDecode s =
     base64urlDecode
       (filter (\<lambda>c. c \<in> set base64url_alphabet \<or> c = CHR ''+'' \<or> c = CHR ''/'')
          (takeWhile (\<lambda>c. c \<noteq> CHR ''='') s))"
    by (simp only: unbase64_alphabet)
next
  have "length (base64urlDecode s) =
     (3 * length (filter (\<lambda>c. unbase64 c \<noteq> None) (takeWhile (\<lambda>c. c \<noteq> CHR ''='') s))) div 4"
    by (simp only: base64urlDecode_sextets length_decode_sextets length_map_filter)
  then show "length (base64urlDecode s) =
     (3 * length (filter (\<lambda>c. c \<in> set base64url_alphabet \<or> c = CHR ''+'' \<or> c = CHR ''/'')
                    (takeWhile (\<lambda>c. c \<noteq> CHR ''='') s))) div 4"
    by (simp only: unbase64_alphabet)
next
  show "base64urlDecode
     (map (\<lambda>c. if c = CHR ''+'' then CHR ''-'' else if c = CHR ''/'' then CHR ''_'' else c) s) =
     base64urlDecode s"
    by (simp only: base64urlDecode_sextets takeWhile_std map_filter_unbase64_std)
next
  assume a0: "list_all (\<lambda>c. c \<in> set base64url_alphabet) s \<and> length s mod 4 = 0"
  have "unbase64 x \<noteq> None" if "x \<in> set base64url_alphabet" for x
    using that unbase64_alphabet[of x] by blast
  with a0 have a: "list_all (\<lambda>c. unbase64 c \<noteq> None) s \<and> length s mod 4 = 0"
    unfolding list_all_iff by blast
  then have ne: "\<forall>c \<in> set s. c \<noteq> CHR ''=''"
    by (auto simp: list_all_iff unbase64_pad)
  then have tw: "takeWhile (\<lambda>c. c \<noteq> CHR ''='') s = s" by (simp only: takeWhile_eq_all_conv)
  have "list_all (\<lambda>c. unbase64 c \<noteq> None) s" using a by simp
  then have mf: "List.map_filter unbase64 s = map (\<lambda>c. the (unbase64 c)) s"
    by (induction s) (auto simp: List.map_filter_simps)
  have len: "length (List.map_filter unbase64 s) mod 4 = 0" using a by (simp add: mf)
  show "base64urlDecode (s @ [c]) = base64urlDecode s"
  proof (cases "c = CHR ''=''")
    case True
    then show ?thesis
      using takeWhile_append_pad[of "CHR ''=''" s 1] by (simp add: base64urlDecode_sextets)
  next
    case False
    have t2: "takeWhile (\<lambda>c. c \<noteq> CHR ''='') (s @ [c]) = s @ [c]"
      using ne False by (simp only: takeWhile_eq_all_conv) auto
    show ?thesis
    proof (cases "unbase64 c")
      case None
      then show ?thesis
        by (simp add: base64urlDecode_sextets t2 tw List.map_filter_def)
    next
      case (Some x)
      then have "List.map_filter unbase64 (s @ [c]) = List.map_filter unbase64 s @ [x]"
        by (simp add: List.map_filter_def)
      then show ?thesis
        using decode_sextets_lone[OF len, of x]
        by (simp add: base64urlDecode_sextets t2 tw)
    qed
  qed
qed

text \<open>C8, witness: \<open>YWJj\<close> is a complete group, the encoding of \<open>abc\<close>; the lone \<open>Z\<close>
  after it changes nothing; and of \<open>Y Q!=YWJj\<close> only \<open>YQ\<close> is read, which gives one
  byte.\<close>

theorem base64urlDecode_decodes_every_string_witness:
  "base64urlDecode ''YWJjZ'' = base64urlDecode ''YWJj'' \<and>
   base64urlDecode ''YWJj'' = ''abc'' \<and>
   length (base64urlDecode ''Y Q!=YWJj'') = 1"
proof -
  have h: "list_all (\<lambda>c. c \<in> set base64url_alphabet) ''YWJj'' \<and> length ''YWJj'' mod 4 = 0"
    by (simp add: base64url_alphabet_def)
  have e: "base64urlEncode ''abc'' = ''YWJj''" by code_simp
  have f: "filter (\<lambda>c. c \<in> set base64url_alphabet \<or> c = CHR ''+'' \<or> c = CHR ''/'')
             (takeWhile (\<lambda>c. c \<noteq> CHR ''='') ''Y Q!=YWJj'') = ''YQ''"
    by (simp add: base64url_alphabet_def)
  from base64urlDecode_decodes_every_string[of "''abc''" "''YWJj''" "CHR ''Z''"] h e
  have a: "base64urlDecode ''YWJjZ'' = base64urlDecode ''YWJj''" "base64urlDecode ''YWJj'' = ''abc''"
    by simp_all
  from base64urlDecode_decodes_every_string[of "''abc''" "''Y Q!=YWJj''" "CHR ''Z''"]
  have "length (base64urlDecode ''Y Q!=YWJj'') =
     (3 * length (filter (\<lambda>c. c \<in> set base64url_alphabet \<or> c = CHR ''+'' \<or> c = CHR ''/'')
                    (takeWhile (\<lambda>c. c \<noteq> CHR ''='') ''Y Q!=YWJj''))) div 4"
    by blast
  then have b: "length (base64urlDecode ''Y Q!=YWJj'') = 1" unfolding f by simp
  from a b show ?thesis by simp
qed

text \<open>C8, counterexample: \<open>YQ!\<close> and \<open>!\<close> hold a character outside the alphabet, and
  \<open>YWJjZ\<close> pads to \<open>YWJjZ===\<close>, which is no base64 length; each decodes to bytes.\<close>

theorem base64urlDecode_invalid_input_decodes:
  "base64urlDecode ''YQ!'' = ''a'' \<and> base64urlDecode ''!'' = [] \<and> base64urlDecode ''YWJjZ'' = ''abc''"
  by code_simp

section \<open>A password matches its own hash\<close>

lemma of_char_hex_digit:
  "n < 16 \<Longrightarrow> (of_char (hex_digit n) :: nat) = (if n < 10 then n + 48 else n + 87)"
  by (simp add: hex_digit_def)

lemma unhex_hex_digit: "n < 16 \<Longrightarrow> unhex (hex_digit n) = Some n"
  unfolding unhex_def Let_def of_char_hex_digit by auto

lemma hex_digit_not_colon: "n < 16 \<Longrightarrow> hex_digit n \<noteq> CHR '':''"
proof -
  assume "n < 16"
  then have "(of_char (hex_digit n) :: nat) \<noteq> 58" by (simp add: of_char_hex_digit)
  then show ?thesis by auto
qed

lemma hex_nibbles: "(of_char b :: nat) div 16 < 16" "(of_char b :: nat) mod 16 < 16"
proof -
  have "(of_char b :: nat) < 256" by simp
  then show "(of_char b :: nat) div 16 < 16" by (simp only: less_mult_imp_div_less numeral_times_numeral)
  show "(of_char b :: nat) mod 16 < 16" by simp
qed

lemma from_hex_toString_hex: "from_hex (toString_hex bs) = bs"
proof (induction bs)
  case Nil
  then show ?case by simp
next
  case (Cons b bs)
  have "char_of ((of_char b :: nat) div 16 * 16 + of_char b mod 16) = b"
    by (simp only: div_mult_mod_eq char_of_char)
  with Cons show ?case
    by (simp add: unhex_hex_digit hex_nibbles del: of_char_mod_256)
qed

lemma toString_hex_no_colon: "CHR '':'' \<notin> set (toString_hex bs)"
proof (induction bs)
  case Nil
  then show ?case by simp
next
  case (Cons b bs)
  with hex_digit_not_colon[OF hex_nibbles(1)[of b]] hex_digit_not_colon[OF hex_nibbles(2)[of b]]
  show ?case by (auto simp del: of_char_mod_256)
qed

lemma toString_hex_Nil: "toString_hex bs = [] \<longleftrightarrow> bs = []"
  by (cases bs) simp_all

lemma split_salt_hash:
  "CHR '':'' \<notin> set salt \<Longrightarrow> CHR '':'' \<notin> set hash \<Longrightarrow>
   split_on CHR '':'' (salt @ CHR '':'' # hash) = [salt, hash]"
  using split_on_append[of "CHR '':''" salt hash] split_on_no_sep[of "CHR '':''" hash]
  by simp

text \<open>What \<open>verifyPassword\<close> does with a stored string of the form \<open>salt:hash\<close>.\<close>

lemma verifyPassword_compares:
  assumes "salt \<noteq> []" "hash \<noteq> []" "CHR '':'' \<notin> set salt" "CHR '':'' \<notin> set hash"
  shows "verifyPassword P password (salt @ CHR '':'' # hash) =
     (case scrypt P password salt SCRYPT_KEYLEN of
        Inl err \<Rightarrow> Inl err
      | Inr key \<Rightarrow> Inr (from_hex hash = key))"
  using assms
  by (auto simp add: verifyPassword_def split_salt_hash timingSafeEqual_def Let_def split: sum.splits)

lemma verifyPassword_malformed:
  "CHR '':'' \<notin> set stored \<Longrightarrow> verifyPassword P password stored = Inr False"
  "CHR '':'' \<notin> set salt \<Longrightarrow> CHR '':'' \<notin> set hash \<Longrightarrow> salt = [] \<or> hash = [] \<Longrightarrow>
   verifyPassword P password (salt @ CHR '':'' # hash) = Inr False"
  by (auto simp add: verifyPassword_def split_on_no_sep split_salt_hash)

lemma length_toString_hex: "length (toString_hex bs) = 2 * length bs"
  by (induction bs) simp_all

text \<open>
  C9. When \<open>crypto.randomBytes(16)\<close> returns any 16 bytes and \<open>crypto.scrypt\<close> derives
  the key, 64 bytes as asked, \<open>hashPassword\<close> resolves to the salt in hexadecimal, a
  colon and the key in hexadecimal, and \<open>verifyPassword\<close> of the same password against
  that string resolves to \<open>true\<close>, for every password, the empty one included. It does
  so by comparison: against a stored \<open>salt:hash\<close> with both parts non-empty,
  \<open>verifyPassword\<close> derives a key of the same length from the given password and the
  stored salt, rejects as \<open>scrypt\<close> does when that fails, and otherwise resolves to
  whether the bytes that the stored hash decodes to are that key. So another password
  matches the stored hash only when \<open>scrypt\<close> derives the same key from it, and a
  stored string without a colon, or with an empty salt or hash, matches nothing.
\<close>

theorem password_roundtrip:
  "(length randomBytes = 16 \<and>
    scrypt P password (toString_hex randomBytes) SCRYPT_KEYLEN = Inr derivedKey \<and>
    length derivedKey = SCRYPT_KEYLEN
    \<longrightarrow>
      hashPassword P randomBytes password =
        Inr (toString_hex randomBytes @ '':'' @ toString_hex derivedKey) \<and>
      verifyPassword P password (toString_hex randomBytes @ '':'' @ toString_hex derivedKey) = Inr True \<and>
      hash_then_verify P randomBytes password = Inr True \<and>
      (scrypt P other (toString_hex randomBytes) SCRYPT_KEYLEN = Inr otherKey \<longrightarrow>
         verifyPassword P other (toString_hex randomBytes @ '':'' @ toString_hex derivedKey) =
           Inr (otherKey = derivedKey))) \<and>
   (salt \<noteq> [] \<and> hash \<noteq> [] \<and> CHR '':'' \<notin> set salt \<and> CHR '':'' \<notin> set hash
    \<longrightarrow>
      verifyPassword P password (salt @ '':'' @ hash) =
        (case scrypt P password salt SCRYPT_KEYLEN of
           Inl err \<Rightarrow> Inl err
         | Inr key \<Rightarrow> Inr (from_hex hash = key))) \<and>
   (CHR '':'' \<notin> set stored \<longrightarrow> verifyPassword P password stored = Inr False) \<and>
   (CHR '':'' \<notin> set salt \<and> CHR '':'' \<notin> set hash \<and> (salt = [] \<or> hash = [])
    \<longrightarrow> verifyPassword P password (salt @ '':'' @ hash) = Inr False)"
proof (intro conjI impI)
  assume a: "length randomBytes = 16 \<and>
   scrypt P password (toString_hex randomBytes) SCRYPT_KEYLEN = Inr derivedKey \<and>
   length derivedKey = SCRYPT_KEYLEN"
  then have rb: "toString_hex randomBytes \<noteq> []" and dk: "toString_hex derivedKey \<noteq> []"
    by (auto simp: SCRYPT_KEYLEN_def toString_hex_Nil)
  note c = verifyPassword_compares[OF rb dk toString_hex_no_colon toString_hex_no_colon]
  show h: "hashPassword P randomBytes password =
       Inr (toString_hex randomBytes @ '':'' @ toString_hex derivedKey)"
    using a by (simp add: hashPassword_def)
  show v: "verifyPassword P password (toString_hex randomBytes @ '':'' @ toString_hex derivedKey) = Inr True"
    using a by (simp add: c from_hex_toString_hex)
  from h v show "hash_then_verify P randomBytes password = Inr True"
    by (simp add: hash_then_verify_def)
  {
    assume "scrypt P other (toString_hex randomBytes) SCRYPT_KEYLEN = Inr otherKey"
    then show "verifyPassword P other (toString_hex randomBytes @ '':'' @ toString_hex derivedKey) =
           Inr (otherKey = derivedKey)"
      by (auto simp add: c from_hex_toString_hex)
  }
next
  assume "salt \<noteq> [] \<and> hash \<noteq> [] \<and> CHR '':'' \<notin> set salt \<and> CHR '':'' \<notin> set hash"
  then show "verifyPassword P password (salt @ '':'' @ hash) =
        (case scrypt P password salt SCRYPT_KEYLEN of
           Inl err \<Rightarrow> Inl err
         | Inr key \<Rightarrow> Inr (from_hex hash = key))"
    by (simp add: verifyPassword_compares)
next
  assume "CHR '':'' \<notin> set stored"
  then show "verifyPassword P password stored = Inr False"
    by (rule verifyPassword_malformed)
next
  assume "CHR '':'' \<notin> set salt \<and> CHR '':'' \<notin> set hash \<and> (salt = [] \<or> hash = [])"
  then show "verifyPassword P password (salt @ '':'' @ hash) = Inr False"
    by (auto simp add: verifyPassword_malformed(2))
qed

text \<open>C9, witness: on the reference platform, a password and 16 salt bytes; another
  password against the same stored hash; and stored strings with an empty hash, without a
  colon, and with a hash that is not the derived key.\<close>

theorem password_roundtrip_witness:
  "hash_then_verify ref_platform ''0123456789abcdef'' ''correct horse'' = Inr True \<and>
   (\<exists>stored. hashPassword ref_platform ''0123456789abcdef'' ''correct horse'' = Inr stored \<and>
      verifyPassword ref_platform ''correct horse'' stored = Inr True \<and>
      verifyPassword ref_platform ''wrong horse'' stored = Inr False) \<and>
   verifyPassword ref_platform ''correct horse'' ''73616c74:'' = Inr False \<and>
   verifyPassword ref_platform ''correct horse'' ''no separator'' = Inr False \<and>
   verifyPassword ref_platform ''correct horse'' ''73616c74:6b6579'' = Inr False"
proof -
  let ?salt = "toString_hex ''0123456789abcdef''"
  let ?s = "?salt @ ''correct horse'' @ ''.''"
  let ?s' = "?salt @ ''wrong horse'' @ ''.''"
  let ?dk = "map (\<lambda>i. ?s ! (i mod length ?s)) [0..<SCRYPT_KEYLEN]"
  let ?dk' = "map (\<lambda>i. ?s' ! (i mod length ?s')) [0..<SCRYPT_KEYLEN]"
  let ?k = "map (\<lambda>i. (''73616c74'' @ ''correct horse'' @ ''.'') !
                (i mod length (''73616c74'' @ ''correct horse'' @ ''.''))) [0..<SCRYPT_KEYLEN]"
  have s: "scrypt ref_platform ''correct horse'' ?salt SCRYPT_KEYLEN = Inr ?dk"
    by (simp add: ref_platform_def)
  have s': "scrypt ref_platform ''wrong horse'' ?salt SCRYPT_KEYLEN = Inr ?dk'"
    by (simp add: ref_platform_def)
  have k: "scrypt ref_platform ''correct horse'' ''73616c74'' SCRYPT_KEYLEN = Inr ?k"
    by (simp add: ref_platform_def)
  have l: "length ?dk = SCRYPT_KEYLEN" by simp
  have r: "length ''0123456789abcdef'' = 16" by simp
  have "?dk' ! 32 \<noteq> ?dk ! 32"
    by (simp add: SCRYPT_KEYLEN_def length_toString_hex nth_append)
  then have ne: "?dk' \<noteq> ?dk" by metis
  have lk: "length (from_hex ''6b6579'') \<noteq> length ?k"
    by (simp add: SCRYPT_KEYLEN_def unhex_def)
  then have nk: "from_hex ''6b6579'' \<noteq> ?k" by metis
  note t = password_roundtrip[where randomBytes="''0123456789abcdef''" and P=ref_platform
      and password="''correct horse''" and derivedKey="?dk" and other="''wrong horse''"
      and otherKey="?dk'" and salt="''73616c74''" and hash="''6b6579''" and stored="''no separator''"]
  have a: "hash_then_verify ref_platform ''0123456789abcdef'' ''correct horse'' = Inr True"
    and b: "hashPassword ref_platform ''0123456789abcdef'' ''correct horse'' =
        Inr (?salt @ '':'' @ toString_hex ?dk)"
    and c: "verifyPassword ref_platform ''correct horse'' (?salt @ '':'' @ toString_hex ?dk) = Inr True"
    and d: "verifyPassword ref_platform ''wrong horse'' (?salt @ '':'' @ toString_hex ?dk) = Inr (?dk' = ?dk)"
    using t s s' l r by blast+
  have e: "verifyPassword ref_platform ''correct horse'' (''73616c74'' @ '':'' @ ''6b6579'') =
      (case scrypt ref_platform ''correct horse'' ''73616c74'' SCRYPT_KEYLEN of
           Inl err \<Rightarrow> Inl err
         | Inr key \<Rightarrow> Inr (from_hex ''6b6579'' = key))"
    using t by simp
  have f: "verifyPassword ref_platform ''correct horse'' ''no separator'' = Inr False"
    using t by simp
  have g: "verifyPassword ref_platform ''correct horse'' (''73616c74'' @ '':'' @ []) = Inr False"
    using password_roundtrip[where P=ref_platform and password="''correct horse''"
        and salt="''73616c74''" and hash="[]"] by simp
  from a b c d e f g ne nk show ?thesis
    by (simp add: k del: upt_Suc)
qed

section \<open>Validation and rotation of refresh tokens\<close>

lemma refresh_buildPayload:
  assumes "life \<noteq> []" "parseTimespan (Str life) = Inr d"
  shows "buildPayload wall [(''userId'', JNum uid), (''username'', uname), (''type'', JStr ''refresh'')]
           (refresh_sign_options life) = Inr (refresh_payload uid uname wall d)"
  using assms
  by (simp add: buildPayload_def refresh_sign_options_def no_sign_options_def set_if_str_def
      truthy_str_or_strs_def set_time_claim_def truthy_num_or_str_def Let_def refresh_payload_def
      del: parseTimespan.simps)

lemma refresh_options_facts:
  "algorithm_or_default (refresh_sign_options life) = ''HS256''"
  "header (refresh_sign_options life) = None"
  by (simp_all add: refresh_sign_options_def algorithm_or_default_def no_sign_options_def)

lemma refresh_validate_claims:
  "validateTimeClaims wall' (JObj (refresh_payload uid uname iat d)) no_verify_options =
     (if wall' \<ge> iat + d then Inl (TokenExpiredError ''jwt expired'' (new_Date ((iat + d) * 1000))) else Inr ())"
  "validateStandardClaims (JObj (refresh_payload uid uname iat d)) no_verify_options = Inr ()"
  by (simp_all add: validateTimeClaims_def validateStandardClaims_def no_verify_options_def
      check_nbf_def check_exp_def check_maxAge_def check_issuer_def check_subject_def
      check_audience_def refresh_payload_def)

lemma generateRefreshToken_eq:
  assumes "secret \<noteq> []" "calculateRefreshTokenExpiration a = Inr life"
  shows "generateRefreshToken P (Some secret) nowMs uid (Some uname) a =
     sign P (nowMs div 1000)
       [(''userId'', JNum uid), (''username'', uname), (''type'', JStr ''refresh'')] secret
       (refresh_sign_options life)"
  using assms
  by (simp add: generateRefreshToken_def truthy_str_def signWithCustomSecret_def refresh_sign_options_def)

text \<open>A refresh token that the service issued verifies under the refresh secret until its
  own \<open>exp\<close>.\<close>

lemma refresh_token_verifies:
  assumes sec: "secret \<noteq> []"
    and calc: "calculateRefreshTokenExpiration a = Inr life"
    and life: "life \<noteq> []" "parseTimespan (Str life) = Inr d"
    and jh: "JSON_parse P (JSON_stringify P (JObj (buildHeader ''HS256'' (refresh_sign_options life)))) =
               Inr (JObj (buildHeader ''HS256'' (refresh_sign_options life)))"
    and jp: "JSON_parse P (JSON_stringify P (JObj (refresh_payload uid uname (nowMs div 1000) d))) =
               Inr (JObj (refresh_payload uid uname (nowMs div 1000) d))"
  shows "\<exists>tok. generateRefreshToken P (Some secret) nowMs uid (Some uname) a = Inr tok \<and>
          (\<forall>wall'. verifyWithCustomSecret P wall' tok secret =
            (if wall' \<ge> nowMs div 1000 + d
             then Inl (TokenExpiredError ''jwt expired'' (new_Date ((nowMs div 1000 + d) * 1000)))
             else Inr (JObj (refresh_payload uid uname (nowMs div 1000) d))))"
proof -
  let ?pl = "[(''userId'', JNum uid), (''username'', uname), (''type'', JStr ''refresh'')]"
  let ?o = "refresh_sign_options life"
  let ?p = "refresh_payload uid uname (nowMs div 1000) d"
  have bp: "buildPayload (nowMs div 1000) ?pl ?o = Inr ?p"
    by (rule refresh_buildPayload[OF life])
  have alg: "map_of SUPPORTED_ALGS (algorithm_or_default ?o) = Some ''sha256''"
    by (simp add: refresh_options_facts SUPPORTED_ALGS_def)
  obtain tok where tok: "sign P (nowMs div 1000) ?pl secret ?o = Inr tok"
    using sign_Inr[OF sec alg bp, of P] by blast
  have hdr: "map_of (buildHeader (algorithm_or_default ?o) ?o) ''alg'' = Some (JStr (algorithm_or_default ?o))"
    by (rule buildHeader_alg) (simp add: refresh_options_facts)
  have v: "verify P wall' tok secret no_verify_options =
            (if wall' \<ge> nowMs div 1000 + d
             then Inl (TokenExpiredError ''jwt expired'' (new_Date ((nowMs div 1000 + d) * 1000)))
             else Inr (JObj ?p))" for wall'
  proof -
    have al: "algorithms no_verify_options = None" by (simp add: no_verify_options_def)
    show ?thesis
      using verify_sign[OF sec alg bp hdr _ jp tok, of wall' no_verify_options] jh
      by (simp add: refresh_options_facts refresh_validate_claims al)
  qed
  show ?thesis
    using tok v by (simp add: generateRefreshToken_eq[OF sec calc] verifyWithCustomSecret_def)
qed

lemma validateRefreshToken_verified:
  assumes "secret \<noteq> []"
    and "verifyWithCustomSecret P (nowMs div 1000) tok secret = Inr (JObj (refresh_payload uid uname iat d))"
  shows "validateRefreshToken P (Some secret) nowMs db tok =
     (case db_select_valid db nowMs (hashRefreshToken P tok) of
        None \<Rightarrow> None
      | Some uid' \<Rightarrow> if uid' = uid then Some \<lparr>userId = uid, username = Some uname\<rparr> else None)"
  using assms
  by (auto simp add: validateRefreshToken_def truthy_str_def refresh_payload_def split: option.splits)

lemma text_less_common_prefix:
  "text_less (D @ x # r1) (D @ y # r2) = ((of_char x :: nat) < of_char y \<or> (x = y \<and> text_less r1 r2))"
  by (induction D) simp_all

text \<open>The filter of the lookup lets through every row that expires on the current UTC day,
  whatever the time of day: after the date, \<open>T\<close> is greater than the space.\<close>

lemma same_day_not_filtered:
  assumes "expiresAt div 86400000 = nowMs div 86400000"
  shows "text_less (sqlite_datetime nowMs) (toISOString expiresAt)"
proof -
  obtain y m d where c: "civil_from_days (nowMs div 86400000) = (y, m, d)"
    by (cases "civil_from_days (nowMs div 86400000)") auto
  let ?D = "pad_num 4 y @ ''-'' @ pad_num 2 m @ ''-'' @ pad_num 2 d"
  obtain r1 where a: "sqlite_datetime nowMs = ?D @ CHR '' '' # r1"
    by (simp add: sqlite_datetime_def c Let_def)
  obtain r2 where b: "toISOString expiresAt = ?D @ CHR ''T'' # r2"
    by (simp add: toISOString_def assms c Let_def)
  show ?thesis unfolding a b by (simp only: text_less_common_prefix) simp
qed

lemma calc_7d: "calculateRefreshTokenExpiration ''7d'' = Inr ''210d''" by code_simp
lemma parse_210d: "parseTimespan (Str ''210d'') = Inr 18144000" by code_simp
lemma parse_1d: "parseTimespan (Str ''1d'') = Inr 86400" by code_simp

lemma stale_token_facts:
  "generateRefreshToken ref_platform (Some ''r3fresh'') 1762156800000 7 (Some (JStr ''alice'')) ''7d'' =
     Inr stale_token"
  "verifyWithCustomSecret ref_platform 1764752400 stale_token ''r3fresh'' =
     Inr (JObj (refresh_payload 7 (JStr ''alice'') 1762156800 18144000))"
proof -
  obtain tok where t: "generateRefreshToken ref_platform (Some ''r3fresh'') 1762156800000 7
        (Some (JStr ''alice'')) ''7d'' = Inr tok"
    and v: "\<forall>wall'. verifyWithCustomSecret ref_platform wall' tok ''r3fresh'' =
            (if wall' \<ge> 1762156800000 div 1000 + 18144000
             then Inl (TokenExpiredError ''jwt expired'' (new_Date ((1762156800000 div 1000 + 18144000) * 1000)))
             else Inr (JObj (refresh_payload 7 (JStr ''alice'') (1762156800000 div 1000) 18144000)))"
    using refresh_token_verifies[where secret="''r3fresh''" and a="''7d''" and life="''210d''"
        and d=18144000 and P=ref_platform and uid=7 and uname="JStr ''alice''" and nowMs=1762156800000,
        OF _ calc_7d _ parse_210d ref_JSON_roundtrip ref_JSON_roundtrip]
    by auto
  have s: "stale_token = tok" by (simp add: stale_token_def t)
  show "generateRefreshToken ref_platform (Some ''r3fresh'') 1762156800000 7 (Some (JStr ''alice'')) ''7d'' =
     Inr stale_token" by (simp add: s t)
  show "verifyWithCustomSecret ref_platform 1764752400 stale_token ''r3fresh'' =
     Inr (JObj (refresh_payload 7 (JStr ''alice'') 1762156800 18144000))"
    using v[rule_format, of 1764752400] by (simp add: s)
qed

lemma iso_stale: "toISOString 1764748800000 = ''2025-12-03T08:00:00.000Z''"
  by code_simp

lemma sqlite_stale: "sqlite_datetime 1764752400000 = ''2025-12-03 09:00:00''"
  by code_simp

lemma stale_db_eq:
  "stale_db = [\<lparr>user_id = 7, token_hash = hashRefreshToken ref_platform stale_token,
      expires_at = ''2025-12-03T08:00:00.000Z'', created_at = toISOString 1762156800000\<rparr>]"
  using iso_stale by (simp add: stale_db_def storeRefreshToken_def db_insert_def)

text \<open>
  C4 says that a token whose record has expired never validates. On the code it does
  while the expiry lies on the current UTC day: \<open>stale_token\<close>'s record expired at
  2025-12-03T08:00:00.000Z, the token's own \<open>exp\<close> is months away, and one hour later, at
  2025-12-03 09:00:00, \<open>validateRefreshToken\<close> still returns the user.
\<close>

theorem expired_record_validates_same_day:
  "map expires_at stale_db = [''2025-12-03T08:00:00.000Z''] \<and>
   sqlite_datetime 1764752400000 = ''2025-12-03 09:00:00'' \<and>
   validateRefreshToken ref_platform (Some ''r3fresh'') 1764752400000 stale_db stale_token =
     Some \<lparr>userId = 7, username = Some (JStr ''alice'')\<rparr>"
proof -
  have d: "(1764752400000::int) div 1000 = 1764752400" by simp
  have tl: "text_less (sqlite_datetime 1764752400000) ''2025-12-03T08:00:00.000Z''"
    using same_day_not_filtered[of 1764748800000 1764752400000]
    by (simp add: iso_stale)
  have sel: "db_select_valid stale_db 1764752400000 (hashRefreshToken ref_platform stale_token) = Some 7"
    using tl by (simp add: stale_db_eq db_select_valid_def)
  have "validateRefreshToken ref_platform (Some ''r3fresh'') 1764752400000 stale_db stale_token =
     Some \<lparr>userId = 7, username = Some (JStr ''alice'')\<rparr>"
    using validateRefreshToken_verified[where secret="''r3fresh''" and P=ref_platform
        and nowMs=1764752400000 and tok=stale_token and db=stale_db, OF _ stale_token_facts(2)[folded d]]
    by (simp add: sel)
  then show ?thesis by (simp add: stale_db_eq sqlite_stale)
qed

lemma calc_1h: "calculateRefreshTokenExpiration ''1h'' = Inr ''1d''" by code_simp

lemma issued_token_facts:
  "generateRefreshToken ref_platform (Some ''r3fresh'') 1762156800000 7 (Some (JStr ''alice'')) ''1h'' =
     Inr issued_token"
  "generateRefreshToken ref_platform (Some ''r3fresh'') 1762156800500 7 (Some (JStr ''alice'')) ''1h'' =
     Inr issued_token"
  "verifyWithCustomSecret ref_platform 1762156800 issued_token ''r3fresh'' =
     Inr (JObj (refresh_payload 7 (JStr ''alice'') 1762156800 86400))"
proof -
  obtain tok where t: "generateRefreshToken ref_platform (Some ''r3fresh'') 1762156800000 7
        (Some (JStr ''alice'')) ''1h'' = Inr tok"
    and v: "\<forall>wall'. verifyWithCustomSecret ref_platform wall' tok ''r3fresh'' =
            (if wall' \<ge> 1762156800000 div 1000 + 86400
             then Inl (TokenExpiredError ''jwt expired'' (new_Date ((1762156800000 div 1000 + 86400) * 1000)))
             else Inr (JObj (refresh_payload 7 (JStr ''alice'') (1762156800000 div 1000) 86400)))"
    using refresh_token_verifies[where secret="''r3fresh''" and a="''1h''" and life="''1d''"
        and d=86400 and P=ref_platform and uid=7 and uname="JStr ''alice''" and nowMs=1762156800000,
        OF _ calc_1h _ parse_1d ref_JSON_roundtrip ref_JSON_roundtrip]
    by auto
  have s: "issued_token = tok" by (simp add: issued_token_def t)
  show g: "generateRefreshToken ref_platform (Some ''r3fresh'') 1762156800000 7 (Some (JStr ''alice'')) ''1h'' =
     Inr issued_token" by (simp add: s t)
  have "generateRefreshToken ref_platform (Some ''r3fresh'') 1762156800500 7 (Some (JStr ''alice'')) ''1h'' =
     generateRefreshToken ref_platform (Some ''r3fresh'') 1762156800000 7 (Some (JStr ''alice'')) ''1h''"
    by (simp add: generateRefreshToken_eq[OF _ calc_1h])
  then show "generateRefreshToken ref_platform (Some ''r3fresh'') 1762156800500 7 (Some (JStr ''alice'')) ''1h'' =
     Inr issued_token" by (simp add: g)
  show "verifyWithCustomSecret ref_platform 1762156800 issued_token ''r3fresh'' =
     Inr (JObj (refresh_payload 7 (JStr ''alice'') 1762156800 86400))"
    using v[rule_format, of 1762156800] by (simp add: s)
qed

lemma iso_issued:
  "toISOString 1762243200000 = ''2025-11-04T08:00:00.000Z''"
  "toISOString 1762243200500 = ''2025-11-04T08:00:00.500Z''"
  by code_simp+

lemma sqlite_rotation: "sqlite_datetime 1762156800500 = ''2025-11-03 08:00:00''"
  by code_simp

lemma text_less_rotation:
  "text_less ''2025-11-03 08:00:00'' ''2025-11-04T08:00:00.000Z''"
  "text_less ''2025-11-03 08:00:00'' ''2025-11-04T08:00:00.500Z''"
  by code_simp+

lemma issued_db_eq:
  "issued_db = [\<lparr>user_id = 7, token_hash = hashRefreshToken ref_platform issued_token,
      expires_at = ''2025-11-04T08:00:00.000Z'', created_at = toISOString 1762156800000\<rparr>]"
  using iso_issued(1) by (simp add: issued_db_def storeRefreshToken_def db_insert_def)

lemma validate_issued:
  "validateRefreshToken ref_platform (Some ''r3fresh'') 1762156800500 issued_db issued_token =
     Some \<lparr>userId = 7, username = Some (JStr ''alice'')\<rparr>"
proof -
  have d: "(1762156800500::int) div 1000 = 1762156800" by simp
  have sel: "db_select_valid issued_db 1762156800500 (hashRefreshToken ref_platform issued_token) = Some 7"
    by (simp add: issued_db_eq db_select_valid_def sqlite_rotation text_less_rotation)
  show ?thesis
    using validateRefreshToken_verified[where secret="''r3fresh''" and P=ref_platform
        and nowMs=1762156800500 and tok=issued_token and db=issued_db, OF _ issued_token_facts(3)[folded d]]
    by (simp add: sel)
qed

lemma rotate_issued:
  "rotateRefreshToken ref_platform (Some ''r3fresh'') 1762156800500 issued_db issued_token 7 ''1h'' =
     (Inr (Some issued_token),
      [\<lparr>user_id = 7, token_hash = hashRefreshToken ref_platform issued_token,
        expires_at = ''2025-11-04T08:00:00.500Z'', created_at = toISOString 1762156800500\<rparr>])"
proof -
  have r: "snd (revokeRefreshToken ref_platform issued_db issued_token) = []"
    by (simp add: revokeRefreshToken_def issued_db_eq Let_def)
  have p: "parseExpiresIn ''1d'' = Inr 86400"
    by (simp add: parseExpiresIn_def parse_1d del: parseTimespan.simps)
  have s: "storeRefreshToken ref_platform 1762156800500 [] 7 issued_token 1 =
      Inr [\<lparr>user_id = 7, token_hash = hashRefreshToken ref_platform issued_token,
        expires_at = ''2025-11-04T08:00:00.500Z'', created_at = toISOString 1762156800500\<rparr>]"
    using iso_issued(2) by (simp add: storeRefreshToken_def db_insert_def)
  show ?thesis
    by (simp add: rotateRefreshToken_def validate_issued r issued_token_facts(2) calc_1h p s)
qed

text \<open>
  C5 says that after a successful rotation the old token no longer validates. On the code
  it does when the rotation runs in the clock second in which the old token was issued:
  \<open>rotateRefreshToken\<close> of \<open>issued_token\<close>, 500 milliseconds after its issue, succeeds and
  returns the very same token, whose record it has just written again, so the old token
  validates in the resulting table.
\<close>

theorem rotation_in_the_same_second_keeps_old_valid:
  "fst (rotateRefreshToken ref_platform (Some ''r3fresh'') 1762156800500 issued_db issued_token 7 ''1h'') =
     Inr (Some issued_token) \<and>
   validateRefreshToken ref_platform (Some ''r3fresh'') 1762156800500
     (snd (rotateRefreshToken ref_platform (Some ''r3fresh'') 1762156800500 issued_db issued_token 7 ''1h''))
     issued_token =
     Some \<lparr>userId = 7, username = Some (JStr ''alice'')\<rparr>"
proof -
  have d: "(1762156800500::int) div 1000 = 1762156800" by simp
  let ?db = "[\<lparr>user_id = 7, token_hash = hashRefreshToken ref_platform issued_token,
        expires_at = ''2025-11-04T08:00:00.500Z'', created_at = toISOString 1762156800500\<rparr>]"
  have sel: "db_select_valid ?db 1762156800500 (hashRefreshToken ref_platform issued_token) = Some 7"
    by (simp add: db_select_valid_def sqlite_rotation text_less_rotation)
  have "validateRefreshToken ref_platform (Some ''r3fresh'') 1762156800500 ?db issued_token =
     Some \<lparr>userId = 7, username = Some (JStr ''alice'')\<rparr>"
    using validateRefreshToken_verified[where secret="''r3fresh''" and P=ref_platform
        and nowMs=1762156800500 and tok=issued_token and db="?db", OF _ issued_token_facts(3)[folded d]]
    by (simp add: sel)
  then show ?thesis by (simp add: rotate_issued)
qed

text \<open>When the new token's hash differs from the old one's, rotation does leave the old
  token without a record.\<close>

lemma db_select_valid_absent:
  "\<forall>r \<in> set db. token_hash r \<noteq> h \<Longrightarrow> db_select_valid db nowMs h = None"
  by (induction db) (auto simp: db_select_valid_def)

lemma validateRefreshToken_absent:
  "\<forall>r \<in> set db. token_hash r \<noteq> hashRefreshToken P tok \<Longrightarrow> validateRefreshToken P env nowMs db tok = None"
  by (simp add: validateRefreshToken_def db_select_valid_absent split: sum.splits option.splits)

lemma rotate_invalidates_other_hash:
  assumes "rotateRefreshToken P env nowMs db old uid a = (Inr (Some new), db')"
    and "hashRefreshToken P new \<noteq> hashRefreshToken P old"
  shows "validateRefreshToken P env nowMs' db' old = None"
proof -
  let ?db1 = "snd (revokeRefreshToken P db old)"
  have k: "\<forall>r \<in> set ?db1. token_hash r \<noteq> hashRefreshToken P old"
    by (simp add: revokeRefreshToken_def Let_def)
  from assms(1) obtain days where s: "storeRefreshToken P nowMs ?db1 uid new days = Inr db'"
    by (auto simp: rotateRefreshToken_def Let_def split: option.splits if_splits sum.splits)
  then have "\<forall>r \<in> set db'. token_hash r \<noteq> hashRefreshToken P old"
    using k assms(2)
    by (auto simp: storeRefreshToken_def db_insert_def Let_def split: if_splits)
  then show ?thesis by (rule validateRefreshToken_absent)
qed

end
